theory Spec2Isabelle
  imports Main
begin

section \<open>The AST consumed by the lowerer\<close>

text \<open>
  The AST types of \<^verbatim>\<open>ast.hpp\<close> as the lowerer and the JSON reader use them.
  Every child of an expression is a \<^verbatim>\<open>unique_ptr\<close>; the reader never builds a
  null child. The operand of \<^verbatim>\<open>UnOp\<close> is an \<open>exp option\<close> because
  \<^verbatim>\<open>visit(AST::UnOp*)\<close> moves it out of the node in its \<^verbatim>\<open>Not\<close> case: \<open>None\<close>
  is the moved-from (null) pointer that stays behind.
\<close>

datatype ast_type =
    AST_IntType
  | AST_NilType
  | AST_StructType string
  | AST_PtrType ast_type
  | AST_ArrayType ast_type
  | AST_FnType "ast_type list" ast_type

datatype unaryop = Op_Neg | Op_Not

datatype binaryop =
    Op_Add | Op_Sub | Op_Mul | Op_Div
  | Op_Eq | Op_NotEq | Op_Lt | Op_Lte | Op_Gt | Op_Gte
  | Op_And | Op_Or

datatype exp =
    Val place
  | Num int
  | NilExp
  | Select exp exp exp
  | UnOp unaryop "exp option"
  | BinOp binaryop exp exp
  | NewSingle ast_type
  | NewArray ast_type exp
  | CallExp funcall
and place =
    Id_place string
  | Deref exp
  | ArrayAccess exp exp
  | FieldAccess exp string
and funcall =
    FunCall exp "exp list"

datatype stmt =
    Stmts "stmt list"
  | Assign place exp
  | CallStmt funcall
  | If_stmt exp stmt "stmt option"
  | While_stmt exp stmt
  | Break
  | Continue
  | Return "exp option"

record ast_extern =
  ex_name :: string
  ex_param_types :: "ast_type list"
  ex_rettype :: ast_type

record struct_def =
  sd_name :: string
  sd_fields :: "(string \<times> ast_type) list"

record function_def =
  fd_name :: string
  fd_params :: "(string \<times> ast_type) list"
  fd_rettype :: ast_type
  fd_locals :: "(string \<times> ast_type) list"
  fd_body :: stmt

record ast_program =
  prog_structs :: "struct_def list"
  prog_externs :: "ast_extern list"
  prog_functions :: "function_def list"

section \<open>The LIR produced by the lowerer\<close>

datatype lir_type =
    LIR_IntType
  | LIR_NilType
  | LIR_StructType string
  | LIR_PtrType lir_type
  | LIR_ArrayType lir_type
  | LIR_FnType "lir_type list" lir_type

datatype arithop = Arith_Add | Arith_Sub | Arith_Mul | Arith_Div

datatype relop = Rel_Eq | Rel_NotEq | Rel_Lt | Rel_Lte | Rel_Gt | Rel_Gte

datatype inst =
    Const string int
  | Copy string string
  | Arith string arithop string string
  | Cmp string relop string string
  | Load string string
  | Store string string
  | Gfp string string string string
  | Gep string string string bool
  | AllocSingle string lir_type
  | AllocArray string string lir_type
  | Call "string option" string "string list"

text \<open>\<^verbatim>\<open>Terminal\<close> is a variant whose first alternative, \<^verbatim>\<open>std::monostate\<close>, is the
  value of a block whose terminal was never set.\<close>

datatype terminal =
    Monostate
  | Jump string
  | Branch string string string
  | Ret "string option"

datatype translation_item =
    TvLabel string
  | TvInst inst
  | TvTerminal terminal

record basic_block =
  bb_label :: string
  bb_insts :: "inst list"
  bb_term :: terminal

record lir_function =
  fn_name :: string
  fn_params :: "(string \<times> lir_type) list"
  fn_rettyp :: lir_type
  fn_locals :: "string \<rightharpoonup> lir_type"
  fn_body :: "string \<rightharpoonup> basic_block"

record lir_struct =
  st_name :: string
  st_fields :: "string \<rightharpoonup> lir_type"

record lir_program =
  structs :: "string \<rightharpoonup> lir_struct"
  externs :: "string \<rightharpoonup> lir_type"
  funptrs :: "string \<rightharpoonup> lir_type"
  functions' :: "string \<rightharpoonup> lir_function"

section \<open>The state of the lowerer\<close>

text \<open>
  The private fields of \<^verbatim>\<open>class Lowerer\<close>. \<^verbatim>\<open>m_current_fun\<close> points at an entry of
  \<^verbatim>\<open>m_lir_prog->functions\<close>; the field \<open>m_current_fun\<close> holds the function it points
  at, and \<^verbatim>\<open>visit(AST::FunctionDef*)\<close> loads it from the map and stores it back.
  \<^verbatim>\<open>m_last_result_id\<close> only carries the result of a visit to \<^verbatim>\<open>lower_exp\<close> and
  \<^verbatim>\<open>lower_place\<close>, which return it at once: the visits of the model return it.
  The two loop stacks are vectors: \<^verbatim>\<open>push_back\<close> appends, \<^verbatim>\<open>back\<close> reads the last
  element. The two counters are C \<^verbatim>\<open>int\<close>s that start at 0 and only count up by one;
  they are natural numbers here.
\<close>

record lowerer =
  m_lir_prog :: lir_program
  m_current_fun :: lir_function
  m_tv :: "translation_item list"
  m_label_counter :: nat
  m_tmp_counter :: nat
  m_const_insert_pos :: nat
  m_loop_hdr_stack :: "string list"
  m_loop_end_stack :: "string list"

text \<open>Every \<^verbatim>\<open>throw\<close> of the lowerer that a value of these datatypes can reach
  (\<^verbatim>\<open>Unknown Place type\<close> and \<^verbatim>\<open>Unknown AST::Type\<close> need a node of no known class), the
  \<^verbatim>\<open>std::out_of_range\<close> of the two \<^verbatim>\<open>at\<close> lookups, and the null dereference of a
  moved-from operand. A failed computation keeps the state it failed in.\<close>

datatype error =
    BreakOutsideLoop
  | ContinueOutsideLoop
  | IdLoweredAsPlace
  | FieldAccessOnNonStruct
  | NotAPointerType
  | NotAnArrayType
  | NotAFunctionType
  | FieldNotFound
  | NotAnArithOp
  | NotARelOp
  | FunctionNotFound
  | EntryBlockNotFound
  | NullDereference

type_synonym 'a result = "(error \<times> lowerer) + ('a \<times> lowerer)"

section \<open>Helper functions\<close>

fun convert_type :: "ast_type \<Rightarrow> lir_type" where
  "convert_type AST_IntType = LIR_IntType"
| "convert_type AST_NilType = LIR_NilType"
| "convert_type (AST_StructType s) = LIR_StructType s"
| "convert_type (AST_PtrType p) = LIR_PtrType (convert_type p)"
| "convert_type (AST_ArrayType a) = LIR_ArrayType (convert_type a)"
| "convert_type (AST_FnType ps r) = LIR_FnType (map convert_type ps) (convert_type r)"

text \<open>\<^verbatim>\<open>std::to_string\<close> on a non-negative and on a signed value.\<close>

definition digit_char :: "nat \<Rightarrow> char" where
  "digit_char d = ''0123456789'' ! d"

fun nat_to_string :: "nat \<Rightarrow> string" where
  "nat_to_string n =
     (if n < 10 then [digit_char n]
      else nat_to_string (n div 10) @ [digit_char (n mod 10)])"

declare nat_to_string.simps [simp del]

definition to_string :: "int \<Rightarrow> string" where
  "to_string i = (if i < 0 then CHR ''-'' # nat_to_string (nat (- i)) else nat_to_string (nat i))"

text \<open>The literals are C \<^verbatim>\<open>int\<close>s (the reader stores \<^verbatim>\<open>int value = j.at("Num")\<close>).
  Unary minus on \<^verbatim>\<open>int\<close> is written out with its two's-complement wrap-around, which
  only \<open>- 2^31\<close> meets.\<close>

definition int_neg :: "int \<Rightarrow> int" where
  "int_neg n = (- n + 2147483648) mod 4294967296 - 2147483648"

definition emit :: "translation_item \<Rightarrow> lowerer \<Rightarrow> lowerer" where
  "emit item s = s\<lparr>m_tv := m_tv s @ [item]\<rparr>"

definition set_local :: "string \<Rightarrow> lir_type \<Rightarrow> lowerer \<Rightarrow> lowerer" where
  "set_local name ty s =
     s\<lparr>m_current_fun := (m_current_fun s)\<lparr>fn_locals := (fn_locals (m_current_fun s))(name \<mapsto> ty)\<rparr>\<rparr>"

definition fresh_inner_var :: "lir_type \<Rightarrow> lowerer \<Rightarrow> string \<times> lowerer" where
  "fresh_inner_var ty s =
     (let name = ''_inner'' @ nat_to_string (m_tmp_counter s)
      in (name, set_local name ty (s\<lparr>m_tmp_counter := m_tmp_counter s + 1\<rparr>)))"

definition fresh_non_inner_var :: "lir_type \<Rightarrow> lowerer \<Rightarrow> string \<times> lowerer" where
  "fresh_non_inner_var ty s =
     (let name = ''_tmp'' @ nat_to_string (m_tmp_counter s)
      in (name, set_local name ty (s\<lparr>m_tmp_counter := m_tmp_counter s + 1\<rparr>)))"

definition release :: "string list \<Rightarrow> lowerer \<Rightarrow> lowerer" where
  "release vars s = s"

definition const_name :: "int \<Rightarrow> string" where
  "const_name n = ''_const_'' @ (if n < 0 then ''n'' @ to_string (int_neg n) else to_string n)"

text \<open>\<^verbatim>\<open>m_tv.insert(m_tv.begin() + pos, x)\<close>; the position never exceeds the size.\<close>

definition insert_at :: "nat \<Rightarrow> 'a \<Rightarrow> 'a list \<Rightarrow> 'a list" where
  "insert_at pos x xs = take pos xs @ x # drop pos xs"

definition const_var :: "int \<Rightarrow> lowerer \<Rightarrow> string \<times> lowerer" where
  "const_var n s =
     (let name = const_name n
      in if fn_locals (m_current_fun s) name = None
         then (name,
               (set_local name LIR_IntType s)
                 \<lparr>m_tv := insert_at (m_const_insert_pos s) (TvInst (Const name n)) (m_tv s),
                  m_const_insert_pos := m_const_insert_pos s + 1\<rparr>)
         else (name, s))"

definition new_label :: "string \<Rightarrow> lowerer \<Rightarrow> string \<times> lowerer" where
  "new_label prefix s =
     (prefix @ nat_to_string (m_label_counter s), s\<lparr>m_label_counter := m_label_counter s + 1\<rparr>)"

text \<open>\<^verbatim>\<open>typeof_var\<close> tests \<^verbatim>\<open>m_current_fun\<close> for null, so it takes the function as an
  option. On a miss it prints a warning and returns \<^verbatim>\<open>IntType\<close>; the \<^verbatim>\<open>throw\<close> is
  commented out.\<close>

definition typeof_var :: "lir_function option \<Rightarrow> lir_program \<Rightarrow> string \<Rightarrow> lir_type" where
  "typeof_var cur prog ident =
     (case (case cur of None \<Rightarrow> None | Some f \<Rightarrow> fn_locals f ident) of
        Some t \<Rightarrow> t
      | None \<Rightarrow>
          (case funptrs prog ident of
             Some t \<Rightarrow> t
           | None \<Rightarrow>
               (case externs prog ident of
                  Some t \<Rightarrow> t
                | None \<Rightarrow> if ident = ''__NULL'' then LIR_NilType else LIR_IntType)))"

definition typeof :: "lowerer \<Rightarrow> string \<Rightarrow> lir_type" where
  "typeof s ident = typeof_var (Some (m_current_fun s)) (m_lir_prog s) ident"

definition typeof_field :: "lir_program \<Rightarrow> string \<Rightarrow> string \<Rightarrow> error + lir_type" where
  "typeof_field prog sid fid =
     (case structs prog sid of
        None \<Rightarrow> Inl FieldNotFound
      | Some st \<Rightarrow> (case st_fields st fid of None \<Rightarrow> Inl FieldNotFound | Some t \<Rightarrow> Inr t))"

text \<open>Modelled from the spec: \<^verbatim>\<open>typeof_struct_field\<close>, which
  \<^verbatim>\<open>visit(AST::FieldAccess*)\<close> calls on the struct type and the field and which is
  declared in no file of the repository. The spec gives the field type as
  \<open>F = structs[N].fields[f]\<close>, the lookup \<^verbatim>\<open>typeof_field\<close> performs.\<close>

definition typeof_struct_field :: "lir_program \<Rightarrow> string \<Rightarrow> string \<Rightarrow> error + lir_type" where
  "typeof_struct_field prog sid fid = typeof_field prog sid fid"

definition typeof_array_element :: "lir_type \<Rightarrow> error + lir_type" where
  "typeof_array_element t = (case t of LIR_ArrayType e \<Rightarrow> Inr e | _ \<Rightarrow> Inl NotAnArrayType)"

definition typeof_ptr_element :: "lir_type \<Rightarrow> error + lir_type" where
  "typeof_ptr_element t = (case t of LIR_PtrType e \<Rightarrow> Inr e | _ \<Rightarrow> Inl NotAPointerType)"

definition typeof_func_ret :: "lir_type \<Rightarrow> error + lir_type" where
  "typeof_func_ret t =
     (case t of
        LIR_FnType ps r \<Rightarrow> Inr r
      | LIR_PtrType (LIR_FnType ps r) \<Rightarrow> Inr r
      | _ \<Rightarrow> Inl NotAFunctionType)"

definition convert_arith_op :: "binaryop \<Rightarrow> error + arithop" where
  "convert_arith_op op =
     (case op of
        Op_Add \<Rightarrow> Inr Arith_Add
      | Op_Sub \<Rightarrow> Inr Arith_Sub
      | Op_Mul \<Rightarrow> Inr Arith_Mul
      | Op_Div \<Rightarrow> Inr Arith_Div
      | _ \<Rightarrow> Inl NotAnArithOp)"

definition convert_rel_op :: "binaryop \<Rightarrow> error + relop" where
  "convert_rel_op op =
     (case op of
        Op_Eq \<Rightarrow> Inr Rel_Eq
      | Op_NotEq \<Rightarrow> Inr Rel_NotEq
      | Op_Lt \<Rightarrow> Inr Rel_Lt
      | Op_Lte \<Rightarrow> Inr Rel_Lte
      | Op_Gt \<Rightarrow> Inr Rel_Gt
      | Op_Gte \<Rightarrow> Inr Rel_Gte
      | _ \<Rightarrow> Inl NotARelOp)"

definition is_arith_op :: "binaryop \<Rightarrow> bool" where
  "is_arith_op op = (op = Op_Add \<or> op = Op_Sub \<or> op = Op_Mul \<or> op = Op_Div)"

definition is_rel_op :: "binaryop \<Rightarrow> bool" where
  "is_rel_op op =
     (op = Op_Eq \<or> op = Op_NotEq \<or> op = Op_Lt \<or> op = Op_Lte \<or> op = Op_Gt \<or> op = Op_Gte)"


text \<open>\<^verbatim>\<open>dynamic_cast<AST::Id*>(place)\<close> and \<^verbatim>\<open>dynamic_cast<AST::Num*>(exp)\<close>: the node
  when it has that class, null otherwise (and null on a null pointer).\<close>

fun cast_Id :: "place \<Rightarrow> string option" where
  "cast_Id (Id_place name) = Some name"
| "cast_Id p = None"

fun cast_Num :: "exp option \<Rightarrow> int option" where
  "cast_Num (Some (Num v)) = Some v"
| "cast_Num e = None"

text \<open>The two blocks that \<^verbatim>\<open>visit(AST::Select*)\<close> and the \<^verbatim>\<open>And\<close> case of
  \<^verbatim>\<open>visit(AST::BinOp*)\<close> run after lowering the true branch (result \<open>z\<close>) and after
  lowering the false branch (result \<open>w\<close>, current result variable \<open>x\<close>).\<close>

definition copy_true_result :: "string \<Rightarrow> lowerer \<Rightarrow> string \<times> lowerer" where
  "copy_true_result z s =
     (if z \<noteq> ''__NULL''
      then (case fresh_non_inner_var (typeof s z) s of
              (x, s1) \<Rightarrow> (x, emit (TvInst (Copy x z)) s1))
      else (''__NULL'', s))"

definition copy_false_result :: "string \<Rightarrow> string \<Rightarrow> lowerer \<Rightarrow> string \<times> lowerer" where
  "copy_false_result x w s =
     (if w \<noteq> ''__NULL''
      then (case (if x = ''__NULL'' then fresh_non_inner_var (typeof s w) s else (x, s)) of
              (x1, s1) \<Rightarrow> (x1, emit (TvInst (Copy x1 w)) s1))
      else (x, s))"

section \<open>Lowering expressions and places\<close>

text \<open>Weights for the termination of the visits: \<^verbatim>\<open>UnOp(Not, e)\<close> visits the
  temporary node \<^verbatim>\<open>BinOp(Eq, e, Num(0))\<close>, which is not a part of it.\<close>

fun exp_weight :: "exp \<Rightarrow> nat"
  and place_weight :: "place \<Rightarrow> nat"
  and funcall_weight :: "funcall \<Rightarrow> nat" where
  "exp_weight (Val p) = 1 + place_weight p"
| "exp_weight (Num n) = 1"
| "exp_weight NilExp = 1"
| "exp_weight (Select g tt ff) = 1 + exp_weight g + exp_weight tt + exp_weight ff"
| "exp_weight (UnOp op eo) = 4 + (case eo of None \<Rightarrow> 0 | Some e \<Rightarrow> exp_weight e)"
| "exp_weight (BinOp op l r) = 2 + exp_weight l + exp_weight r"
| "exp_weight (NewSingle t) = 1"
| "exp_weight (NewArray t e) = 1 + exp_weight e"
| "exp_weight (CallExp fc) = 1 + funcall_weight fc"
| "place_weight (Id_place name) = 1"
| "place_weight (Deref e) = 1 + exp_weight e"
| "place_weight (ArrayAccess a i) = 1 + exp_weight a + exp_weight i"
| "place_weight (FieldAccess p f) = 1 + exp_weight p"
| "funcall_weight (FunCall c args) = 2 + exp_weight c + sum_list (map exp_weight args) + length args"

text \<open>
  \<open>lower_args\<close> is the loop of \<^verbatim>\<open>visit(AST::FunCall*)\<close> and \<^verbatim>\<open>visit(AST::CallStmt*)\<close>,
  \<^verbatim>\<open>for (it = args.rbegin(); it != args.rend(); ++it) xs.push_back(lower_exp(it->get()))\<close>.
  It walks the vector from its last element, so the arguments behind \<open>a\<close> are lowered
  before \<open>a\<close>, and the result of \<open>a\<close> is pushed behind theirs.
\<close>

function (sequential) lower_exp :: "exp \<Rightarrow> lowerer \<Rightarrow> string result"
  and lower_place :: "place \<Rightarrow> lowerer \<Rightarrow> string result"
  and visit_FunCall :: "funcall \<Rightarrow> lowerer \<Rightarrow> string result"
  and lower_args :: "exp list \<Rightarrow> lowerer \<Rightarrow> (string list) result" where
  "lower_exp (Val p) s =
     (case cast_Id p of
        Some name \<Rightarrow> Inr (name, s)
      | None \<Rightarrow>
          (case lower_place p s of
             Inl err \<Rightarrow> Inl err
           | Inr (src, s1) \<Rightarrow>
               (case typeof_ptr_element (typeof s1 src) of
                  Inl e \<Rightarrow> Inl (e, s1)
                | Inr val_type \<Rightarrow>
                    (case fresh_non_inner_var val_type s1 of
                       (lhs, s2) \<Rightarrow> Inr (lhs, release [src] (emit (TvInst (Load lhs src)) s2))))))"
| "lower_exp (Num n) s = Inr (const_var n s)"
| "lower_exp NilExp s = Inr (''__NULL'', s)"
| "lower_exp (Select g tt ff) s =
     (case new_label ''if_true'' s of (TT, s1) \<Rightarrow>
      case new_label ''if_false'' s1 of (FF, s2) \<Rightarrow>
      case new_label ''if_end'' s2 of (END, s3) \<Rightarrow>
      (case lower_exp g s3 of
         Inl err \<Rightarrow> Inl err
       | Inr (y, s4) \<Rightarrow>
           (case lower_exp tt
                   (release [y] (emit (TvLabel TT) (emit (TvTerminal (Branch y TT FF)) s4))) of
              Inl err \<Rightarrow> Inl err
            | Inr (z, s5) \<Rightarrow>
                (case copy_true_result z s5 of (x, s6) \<Rightarrow>
                 (case lower_exp ff
                         (emit (TvLabel FF) (emit (TvTerminal (Jump END)) (release [z] s6))) of
                    Inl err \<Rightarrow> Inl err
                  | Inr (w, s7) \<Rightarrow>
                      (case copy_false_result x w s7 of (x1, s8) \<Rightarrow>
                       Inr (x1, emit (TvLabel END)
                                  (emit (TvTerminal (Jump END)) (release [w] s8)))))))))"
| "lower_exp (UnOp Op_Neg eo) s =
     (case cast_Num eo of
        Some v \<Rightarrow> Inr (const_var (int_neg v) s)
      | None \<Rightarrow>
          (case fresh_non_inner_var LIR_IntType s of (lhs, s1) \<Rightarrow>
           case const_var 0 s1 of (zero, s2) \<Rightarrow>
           (case eo of
              None \<Rightarrow> Inl (NullDereference, s2)
            | Some e \<Rightarrow>
                (case lower_exp e s2 of
                   Inl err \<Rightarrow> Inl err
                 | Inr (x, s3) \<Rightarrow>
                     Inr (lhs, release [x] (emit (TvInst (Arith lhs Arith_Sub zero x)) s3))))))"
| "lower_exp (UnOp Op_Not eo) s =
     (case eo of
        None \<Rightarrow> Inl (NullDereference, s)
      | Some e \<Rightarrow> lower_exp (BinOp Op_Eq e (Num 0)) s)"
| "lower_exp (BinOp op l r) s =
     (if is_arith_op op then
        (case lower_exp l s of
           Inl err \<Rightarrow> Inl err
         | Inr (op1, s1) \<Rightarrow>
             (case lower_exp r s1 of
                Inl err \<Rightarrow> Inl err
              | Inr (op2, s2) \<Rightarrow>
                  (case fresh_non_inner_var LIR_IntType s2 of (lhs, s3) \<Rightarrow>
                   (case convert_arith_op op of
                      Inl e \<Rightarrow> Inl (e, s3)
                    | Inr aop \<Rightarrow>
                        Inr (lhs, release [op1, op2]
                                    (emit (TvInst (Arith lhs aop op1 op2)) s3))))))
      else if is_rel_op op then
        (case lower_exp l s of
           Inl err \<Rightarrow> Inl err
         | Inr (op1, s1) \<Rightarrow>
             (case lower_exp r s1 of
                Inl err \<Rightarrow> Inl err
              | Inr (op2, s2) \<Rightarrow>
                  (case fresh_non_inner_var LIR_IntType s2 of (lhs, s3) \<Rightarrow>
                   (case convert_rel_op op of
                      Inl e \<Rightarrow> Inl (e, s3)
                    | Inr rop \<Rightarrow>
                        Inr (lhs, release [op1, op2]
                                    (emit (TvInst (Cmp lhs rop op1 op2)) s3))))))
      else if op = Op_And then
        (case new_label ''and_true'' s of (TT, s1) \<Rightarrow>
         case new_label ''and_false'' s1 of (FF, s2) \<Rightarrow>
         case new_label ''and_end'' s2 of (END, s3) \<Rightarrow>
         (case lower_exp l s3 of
            Inl err \<Rightarrow> Inl err
          | Inr (y, s4) \<Rightarrow>
              (case lower_exp r
                      (release [y] (emit (TvLabel TT) (emit (TvTerminal (Branch y TT FF)) s4))) of
                 Inl err \<Rightarrow> Inl err
               | Inr (z, s5) \<Rightarrow>
                   (case copy_true_result z s5 of (x, s6) \<Rightarrow>
                    (case lower_exp (Num 0)
                            (emit (TvLabel FF) (emit (TvTerminal (Jump END)) (release [z] s6))) of
                       Inl err \<Rightarrow> Inl err
                     | Inr (w, s7) \<Rightarrow>
                         (case copy_false_result x w s7 of (x1, s8) \<Rightarrow>
                          Inr (x1, emit (TvLabel END)
                                     (emit (TvTerminal (Jump END)) (release [w] s8)))))))))
      else
        (case new_label ''or_false'' s of (FF, s1) \<Rightarrow>
         case new_label ''or_end'' s1 of (END, s2) \<Rightarrow>
         (case lower_exp l s2 of
            Inl err \<Rightarrow> Inl err
          | Inr (x, s3) \<Rightarrow>
              (case fresh_non_inner_var LIR_IntType s3 of (y, s4) \<Rightarrow>
               (case lower_exp r
                       (release [x]
                          (emit (TvLabel FF)
                             (emit (TvTerminal (Branch y END FF))
                                (emit (TvInst (Copy y x)) s4)))) of
                  Inl err \<Rightarrow> Inl err
                | Inr (z, s5) \<Rightarrow>
                    Inr (y, emit (TvLabel END)
                              (emit (TvTerminal (Jump END))
                                 (release [z] (emit (TvInst (Copy y z)) s5)))))))))"
| "lower_exp (NewSingle t) s =
     (case fresh_non_inner_var (LIR_PtrType (convert_type t)) s of
        (lhs, s1) \<Rightarrow> Inr (lhs, emit (TvInst (AllocSingle lhs (convert_type t))) s1))"
| "lower_exp (NewArray t amt) s =
     (case fresh_non_inner_var (LIR_ArrayType (convert_type t)) s of (lhs, s1) \<Rightarrow>
      (case lower_exp amt s1 of
         Inl err \<Rightarrow> Inl err
       | Inr (x, s2) \<Rightarrow>
           Inr (lhs, release [x] (emit (TvInst (AllocArray lhs x (convert_type t))) s2))))"
| "lower_exp (CallExp fc) s = visit_FunCall fc s"
| "lower_place (Id_place name) s = Inl (IdLoweredAsPlace, s)"
| "lower_place (Deref e) s = lower_exp e s"
| "lower_place (ArrayAccess arr index_exp) s =
     (case lower_exp arr s of
        Inl err \<Rightarrow> Inl err
      | Inr (src, s1) \<Rightarrow>
          (case lower_exp index_exp s1 of
             Inl err \<Rightarrow> Inl err
           | Inr (idx, s2) \<Rightarrow>
               (case typeof_array_element (typeof s2 src) of
                  Inl e \<Rightarrow> Inl (e, s2)
                | Inr elem_type \<Rightarrow>
                    (case fresh_inner_var (LIR_PtrType elem_type) s2 of (lhs, s3) \<Rightarrow>
                     Inr (lhs, release [src, idx] (emit (TvInst (Gep lhs src idx True)) s3))))))"
| "lower_place (FieldAccess ptr field) s =
     (case lower_exp ptr s of
        Inl err \<Rightarrow> Inl err
      | Inr (src, s1) \<Rightarrow>
          (case typeof_ptr_element (typeof s1 src) of
             Inl e \<Rightarrow> Inl (e, s1)
           | Inr struct_type \<Rightarrow>
               (case struct_type of
                  LIR_StructType struct_id \<Rightarrow>
                    (case fresh_inner_var (typeof s1 src) s1 of (sid, s2) \<Rightarrow>
                     (case typeof_struct_field (m_lir_prog s2) struct_id field of
                        Inl e \<Rightarrow> Inl (e, s2)
                      | Inr field_type \<Rightarrow>
                          (case fresh_inner_var (LIR_PtrType field_type) s2 of (lhs, s3) \<Rightarrow>
                           Inr (lhs, release [src] (emit (TvInst (Gfp lhs src sid field)) s3)))))
                | _ \<Rightarrow> Inl (FieldAccessOnNonStruct, s1))))"
| "visit_FunCall (FunCall callee args) s =
     (case lower_args args s of
        Inl err \<Rightarrow> Inl err
      | Inr (xs, s1) \<Rightarrow>
          (case lower_exp callee s1 of
             Inl err \<Rightarrow> Inl err
           | Inr (fun_id, s2) \<Rightarrow>
               (case typeof_func_ret (typeof s2 fun_id) of
                  Inl e \<Rightarrow> Inl (e, s2)
                | Inr ret_type \<Rightarrow>
                    (case fresh_non_inner_var ret_type s2 of (lhs, s3) \<Rightarrow>
                     Inr (lhs, release (xs @ [fun_id])
                                 (emit (TvInst (Call (Some lhs) fun_id xs)) s3))))))"
| "lower_args [] s = Inr ([], s)"
| "lower_args (a # as) s =
     (case lower_args as s of
        Inl err \<Rightarrow> Inl err
      | Inr (xs, s1) \<Rightarrow>
          (case lower_exp a s1 of
             Inl err \<Rightarrow> Inl err
           | Inr (x, s2) \<Rightarrow> Inr (xs @ [x], s2)))"
  by pat_completeness auto

termination
  by (relation "measure (\<lambda>x. case x of
          Inl (Inl (e, s)) \<Rightarrow> exp_weight e
        | Inl (Inr (p, s)) \<Rightarrow> place_weight p
        | Inr (Inl (fc, s)) \<Rightarrow> funcall_weight fc
        | Inr (Inr (as, s)) \<Rightarrow> 1 + sum_list (map exp_weight as) + length as)")
     auto


section \<open>Lowering statements\<close>

type_synonym stmt_result = "(error \<times> lowerer) + lowerer"

definition push_loop :: "string \<Rightarrow> string \<Rightarrow> lowerer \<Rightarrow> lowerer" where
  "push_loop hdr end_label s =
     s\<lparr>m_loop_hdr_stack := m_loop_hdr_stack s @ [hdr],
       m_loop_end_stack := m_loop_end_stack s @ [end_label]\<rparr>"

definition pop_loop :: "lowerer \<Rightarrow> lowerer" where
  "pop_loop s =
     s\<lparr>m_loop_hdr_stack := butlast (m_loop_hdr_stack s),
       m_loop_end_stack := butlast (m_loop_end_stack s)\<rparr>"

definition visit_Break :: "lowerer \<Rightarrow> stmt_result" where
  "visit_Break s =
     (if m_loop_end_stack s = [] then Inl (BreakOutsideLoop, s)
      else Inr (emit (TvTerminal (Jump (last (m_loop_end_stack s)))) s))"

definition visit_Continue :: "lowerer \<Rightarrow> stmt_result" where
  "visit_Continue s =
     (if m_loop_hdr_stack s = [] then Inl (ContinueOutsideLoop, s)
      else Inr (emit (TvTerminal (Jump (last (m_loop_hdr_stack s)))) s))"

fun lower_stmt :: "stmt \<Rightarrow> lowerer \<Rightarrow> stmt_result"
  and lower_stmts :: "stmt list \<Rightarrow> lowerer \<Rightarrow> stmt_result" where
  "lower_stmt (Stmts statements) s = lower_stmts statements s"
| "lower_stmt (Assign p e) s =
     (case cast_Id p of
        Some name \<Rightarrow>
          (case lower_exp e s of
             Inl err \<Rightarrow> Inl err
           | Inr (x, s1) \<Rightarrow> Inr (release [x] (emit (TvInst (Copy name x)) s1)))
      | None \<Rightarrow>
          (case lower_place p s of
             Inl err \<Rightarrow> Inl err
           | Inr (x, s1) \<Rightarrow>
               (case lower_exp e s1 of
                  Inl err \<Rightarrow> Inl err
                | Inr (y, s2) \<Rightarrow> Inr (release [x, y] (emit (TvInst (Store x y)) s2)))))"
| "lower_stmt (CallStmt fc) s =
     (case fc of FunCall callee args \<Rightarrow>
      (case lower_args args s of
         Inl err \<Rightarrow> Inl err
       | Inr (xs, s1) \<Rightarrow>
           (case lower_exp callee s1 of
              Inl err \<Rightarrow> Inl err
            | Inr (fun_id, s2) \<Rightarrow>
                Inr (release (xs @ [fun_id]) (emit (TvInst (Call None fun_id xs)) s2)))))"
| "lower_stmt (If_stmt guard tt ff) s =
     (case new_label ''if_true'' s of (TT, s1) \<Rightarrow>
      case new_label ''if_false'' s1 of (FF, s2) \<Rightarrow>
      case new_label ''if_end'' s2 of (END, s3) \<Rightarrow>
      (case lower_exp guard s3 of
         Inl err \<Rightarrow> Inl err
       | Inr (x, s4) \<Rightarrow>
           (case lower_stmt tt
                   (release [x] (emit (TvLabel TT) (emit (TvTerminal (Branch x TT FF)) s4))) of
              Inl err \<Rightarrow> Inl err
            | Inr s5 \<Rightarrow>
                (case (case ff of
                         None \<Rightarrow> Inr (emit (TvLabel FF) (emit (TvTerminal (Jump END)) s5))
                       | Some f \<Rightarrow>
                           lower_stmt f (emit (TvLabel FF) (emit (TvTerminal (Jump END)) s5))) of
                   Inl err \<Rightarrow> Inl err
                 | Inr s6 \<Rightarrow> Inr (emit (TvLabel END) (emit (TvTerminal (Jump END)) s6))))))"
| "lower_stmt (While_stmt guard body) s =
     (case new_label ''loop_hdr'' s of (LOOP_HDR, s1) \<Rightarrow>
      case new_label ''loop_body'' s1 of (BODY, s2) \<Rightarrow>
      case new_label ''loop_end'' s2 of (LOOP_END, s3) \<Rightarrow>
      (case lower_exp guard
              (emit (TvLabel LOOP_HDR)
                 (emit (TvTerminal (Jump LOOP_HDR)) (push_loop LOOP_HDR LOOP_END s3))) of
         Inl err \<Rightarrow> Inl err
       | Inr (x, s4) \<Rightarrow>
           (case lower_stmt body
                   (emit (TvLabel BODY)
                      (release [x] (emit (TvTerminal (Branch x BODY LOOP_END)) s4))) of
              Inl err \<Rightarrow> Inl err
            | Inr s5 \<Rightarrow>
                Inr (pop_loop (emit (TvLabel LOOP_END) (emit (TvTerminal (Jump LOOP_HDR)) s5))))))"
| "lower_stmt Break s = visit_Break s"
| "lower_stmt Continue s = visit_Continue s"
| "lower_stmt (Return eo) s =
     (case eo of
        Some e \<Rightarrow>
          (case lower_exp e s of
             Inl err \<Rightarrow> Inl err
           | Inr (x, s1) \<Rightarrow> Inr (release [x] (emit (TvTerminal (Ret (Some x))) s1)))
      | None \<Rightarrow> Inr (emit (TvTerminal (Ret None)) s))"
| "lower_stmts [] s = Inr s"
| "lower_stmts (st # rest) s =
     (case lower_stmt st s of
        Inl err \<Rightarrow> Inl err
      | Inr s1 \<Rightarrow> lower_stmts rest s1)"

section \<open>Lowering a function and building its control-flow graph\<close>

text \<open>The backward scan of \<^verbatim>\<open>visit(AST::FunctionDef*)\<close> over \<^verbatim>\<open>m_tv\<close>, here over the
  reversed vector: labels are skipped, the first terminal decides, an instruction
  stops the search.\<close>

fun has_ret_scan :: "translation_item list \<Rightarrow> bool" where
  "has_ret_scan [] = False"
| "has_ret_scan (TvTerminal t # rest) = (case t of Ret v \<Rightarrow> True | _ \<Rightarrow> False)"
| "has_ret_scan (TvLabel l # rest) = has_ret_scan rest"
| "has_ret_scan (TvInst i # rest) = False"

definition has_ret :: "translation_item list \<Rightarrow> bool" where
  "has_ret tv = has_ret_scan (rev tv)"

definition add_implicit_ret :: "lowerer \<Rightarrow> lowerer" where
  "add_implicit_ret s = (if \<not> has_ret (m_tv s) then emit (TvTerminal (Ret None)) s else s)"

text \<open>\<^verbatim>\<open>body[label]\<close> of \<^verbatim>\<open>std::map\<close>: the block stored under the label, or a
  default-constructed one.\<close>

definition block_at :: "lir_function \<Rightarrow> string \<Rightarrow> basic_block" where
  "block_at f l =
     (case fn_body f l of
        Some b \<Rightarrow> b
      | None \<Rightarrow> \<lparr>bb_label = [], bb_insts = [], bb_term = Monostate\<rparr>)"

definition put_block :: "string \<Rightarrow> basic_block \<Rightarrow> lir_function \<Rightarrow> lir_function" where
  "put_block l b f = f\<lparr>fn_body := (fn_body f)(l \<mapsto> b)\<rparr>"

text \<open>The loop of \<^verbatim>\<open>build_cfg\<close>. \<^verbatim>\<open>current_bb\<close> points at a block of the body; the model
  keeps the label of that block, \<open>None\<close> for the null pointer. An instruction met
  with no current block goes to the entry block, looked up with \<^verbatim>\<open>at\<close>, which throws
  when there is none. A terminal met with no current block is skipped with a warning.
  Nothing follows the loop: the removal of unreachable blocks is a \<^verbatim>\<open>TODO\<close> comment.\<close>

fun build_cfg_loop ::
  "translation_item list \<Rightarrow> string option \<Rightarrow> lir_function
     \<Rightarrow> (error \<times> lir_function) + lir_function" where
  "build_cfg_loop [] current_bb f = Inr f"
| "build_cfg_loop (TvLabel l # rest) current_bb f =
     build_cfg_loop rest (Some l) (put_block l ((block_at f l)\<lparr>bb_label := l\<rparr>) f)"
| "build_cfg_loop (TvInst i # rest) current_bb f =
     (case current_bb of
        None \<Rightarrow>
          (case fn_body f (fn_name f @ ''_entry'') of
             None \<Rightarrow> Inl (EntryBlockNotFound, f)
           | Some b \<Rightarrow>
               build_cfg_loop rest (Some (fn_name f @ ''_entry''))
                 (put_block (fn_name f @ ''_entry'') (b\<lparr>bb_insts := bb_insts b @ [i]\<rparr>) f))
      | Some c \<Rightarrow>
          build_cfg_loop rest (Some c)
            (put_block c ((block_at f c)\<lparr>bb_insts := bb_insts (block_at f c) @ [i]\<rparr>) f))"
| "build_cfg_loop (TvTerminal t # rest) current_bb f =
     (case current_bb of
        None \<Rightarrow> build_cfg_loop rest None f
      | Some c \<Rightarrow> build_cfg_loop rest None (put_block c ((block_at f c)\<lparr>bb_term := t\<rparr>) f))"

definition build_cfg :: "lowerer \<Rightarrow> stmt_result" where
  "build_cfg s =
     (case build_cfg_loop (m_tv s) None (m_current_fun s) of
        Inl (e, f) \<Rightarrow> Inl (e, s\<lparr>m_current_fun := f\<rparr>)
      | Inr f \<Rightarrow> Inr (s\<lparr>m_current_fun := f\<rparr>))"

text \<open>The state in which \<^verbatim>\<open>visit(AST::FunctionDef*)\<close> starts lowering the body: the
  context is set and the entry label pushed.\<close>

definition enter_function :: "string \<Rightarrow> lir_function \<Rightarrow> lowerer \<Rightarrow> lowerer" where
  "enter_function fname f s =
     emit (TvLabel (fname @ ''_entry''))
       (s\<lparr>m_current_fun := f, m_tv := [], m_label_counter := 0, m_tmp_counter := 0,
          m_const_insert_pos := 1\<rparr>)"

definition store_current_fun :: "string \<Rightarrow> lowerer \<Rightarrow> lowerer" where
  "store_current_fun fname s =
     s\<lparr>m_lir_prog := (m_lir_prog s)
          \<lparr>functions' := (functions' (m_lir_prog s))(fname \<mapsto> m_current_fun s)\<rparr>\<rparr>"

text \<open>The translation vector as it is handed to \<^verbatim>\<open>build_cfg\<close>: steps 1 to 4 of
  \<^verbatim>\<open>visit(AST::FunctionDef*)\<close>.\<close>

definition lower_body :: "function_def \<Rightarrow> lowerer \<Rightarrow> stmt_result" where
  "lower_body n s =
     (case functions' (m_lir_prog s) (fd_name n) of
        None \<Rightarrow> Inl (FunctionNotFound, s)
      | Some f \<Rightarrow>
          (case lower_stmt (fd_body n) (enter_function (fd_name n) f s) of
             Inl err \<Rightarrow> Inl err
           | Inr s1 \<Rightarrow> Inr (add_implicit_ret s1)))"

definition visit_FunctionDef :: "function_def \<Rightarrow> lowerer \<Rightarrow> stmt_result" where
  "visit_FunctionDef n s =
     (case lower_body n s of
        Inl err \<Rightarrow> Inl err
      | Inr s1 \<Rightarrow>
          (case build_cfg s1 of
             Inl err \<Rightarrow> Inl err
           | Inr s2 \<Rightarrow> Inr (store_current_fun (fd_name n) s2)))"

section \<open>The program shell\<close>

definition add_decl :: "string \<times> ast_type \<Rightarrow> (string \<rightharpoonup> lir_type) \<Rightarrow> (string \<rightharpoonup> lir_type)" where
  "add_decl d m = m(fst d \<mapsto> convert_type (snd d))"

definition visit_StructDef :: "struct_def \<Rightarrow> lir_program \<Rightarrow> lir_program" where
  "visit_StructDef n prog =
     prog\<lparr>structs := (structs prog)
       (sd_name n \<mapsto> \<lparr>st_name = sd_name n, st_fields = fold add_decl (sd_fields n) Map.empty\<rparr>)\<rparr>"

definition add_extern :: "ast_extern \<Rightarrow> lir_program \<Rightarrow> lir_program" where
  "add_extern e prog =
     prog\<lparr>externs := (externs prog)
       (ex_name e \<mapsto> LIR_FnType (map convert_type (ex_param_types e)) (convert_type (ex_rettype e)))\<rparr>"

definition function_shell :: "function_def \<Rightarrow> lir_function" where
  "function_shell n =
     \<lparr>fn_name = fd_name n,
      fn_params = map (\<lambda>p. (fst p, convert_type (snd p))) (fd_params n),
      fn_rettyp = convert_type (fd_rettype n),
      fn_locals = fold add_decl (fd_locals n) (fold add_decl (fd_params n) Map.empty),
      fn_body = Map.empty\<rparr>"

definition add_function_shell :: "function_def \<Rightarrow> lir_program \<Rightarrow> lir_program" where
  "add_function_shell n prog =
     (let lir_fun = function_shell n;
          prog1 = (if fn_name lir_fun \<noteq> ''main''
                   then prog\<lparr>funptrs := (funptrs prog)
                          (fn_name lir_fun \<mapsto>
                             LIR_PtrType (LIR_FnType (map snd (fn_params lir_fun))
                                            (fn_rettyp lir_fun)))\<rparr>
                   else prog)
      in prog1\<lparr>functions' := (functions' prog1)(fn_name lir_fun \<mapsto> lir_fun)\<rparr>)"

text \<open>Steps 1 to 3 of \<^verbatim>\<open>visit(AST::Program*)\<close>, from the empty program that
  \<^verbatim>\<open>Lowerer::lower\<close> creates.\<close>

definition empty_program :: lir_program where
  "empty_program =
     \<lparr>structs = Map.empty, externs = Map.empty, funptrs = Map.empty, functions' = Map.empty\<rparr>"

definition program_shell :: "ast_program \<Rightarrow> lir_program" where
  "program_shell n =
     fold add_function_shell (prog_functions n)
       (fold add_extern (prog_externs n)
          (fold visit_StructDef (prog_structs n) empty_program))"

fun lower_functions :: "function_def list \<Rightarrow> lowerer \<Rightarrow> stmt_result" where
  "lower_functions [] s = Inr s"
| "lower_functions (n # rest) s =
     (case visit_FunctionDef n s of
        Inl err \<Rightarrow> Inl err
      | Inr s1 \<Rightarrow> lower_functions rest s1)"

text \<open>A freshly constructed \<^verbatim>\<open>Lowerer\<close> on which \<^verbatim>\<open>lower\<close> has installed the program
  shell. \<^verbatim>\<open>m_current_fun\<close> is null until the first function is visited; the record
  needs a value there, which nothing reads.\<close>

definition initial_lowerer :: "lir_program \<Rightarrow> lowerer" where
  "initial_lowerer prog =
     \<lparr>m_lir_prog = prog,
      m_current_fun = \<lparr>fn_name = [], fn_params = [], fn_rettyp = LIR_IntType,
                       fn_locals = Map.empty, fn_body = Map.empty\<rparr>,
      m_tv = [], m_label_counter = 0, m_tmp_counter = 0, m_const_insert_pos = 1,
      m_loop_hdr_stack = [], m_loop_end_stack = []\<rparr>"

definition lower :: "ast_program \<Rightarrow> (error \<times> lowerer) + lir_program" where
  "lower ast_prog =
     (case lower_functions (prog_functions ast_prog) (initial_lowerer (program_shell ast_prog)) of
        Inl err \<Rightarrow> Inl err
      | Inr s \<Rightarrow> Inr (m_lir_prog s))"


section \<open>Notions the properties are stated with\<close>

text \<open>The argument loop read from left to right over a sequence of expressions:
  each one is lowered in the state its predecessor left, and its result is pushed
  behind the results so far.\<close>

fun lower_each :: "exp list \<Rightarrow> string list \<Rightarrow> lowerer \<Rightarrow> (string list) result" where
  "lower_each [] xs s = Inr (xs, s)"
| "lower_each (e # es) xs s =
     (case lower_exp e s of
        Inl err \<Rightarrow> Inl err
      | Inr (x, s1) \<Rightarrow> lower_each es (xs @ [x]) s1)"

text \<open>The blocks a terminal leads to, and the blocks reachable from the entry block
  of a function by following these targets.\<close>

fun successors :: "terminal \<Rightarrow> string list" where
  "successors (Jump l) = [l]"
| "successors (Branch g tt ff) = [tt, ff]"
| "successors (Ret v) = []"
| "successors Monostate = []"

inductive reachable :: "lir_function \<Rightarrow> string \<Rightarrow> bool" for f :: lir_function where
  entry: "reachable f (fn_name f @ ''_entry'')"
| step: "reachable f a \<Longrightarrow> fn_body f a = Some b \<Longrightarrow> l \<in> set (successors (bb_term b))
           \<Longrightarrow> reachable f l"

text \<open>The AST node a completed visit leaves behind. The only write to the AST is
  \<^verbatim>\<open>std::move(n->exp)\<close> in the \<^verbatim>\<open>Not\<close> case of \<^verbatim>\<open>visit(AST::UnOp*)\<close>: the operand goes
  into a temporary \<^verbatim>\<open>BinOp\<close>, which is destroyed with it when the visit returns, and
  the node keeps a null pointer.\<close>

fun exp_after_visit :: "exp \<Rightarrow> exp"
  and place_after_visit :: "place \<Rightarrow> place"
  and funcall_after_visit :: "funcall \<Rightarrow> funcall" where
  "exp_after_visit (Val p) = Val (place_after_visit p)"
| "exp_after_visit (Num n) = Num n"
| "exp_after_visit NilExp = NilExp"
| "exp_after_visit (Select g tt ff) =
     Select (exp_after_visit g) (exp_after_visit tt) (exp_after_visit ff)"
| "exp_after_visit (UnOp Op_Neg eo) = UnOp Op_Neg (map_option exp_after_visit eo)"
| "exp_after_visit (UnOp Op_Not eo) = UnOp Op_Not None"
| "exp_after_visit (BinOp op l r) = BinOp op (exp_after_visit l) (exp_after_visit r)"
| "exp_after_visit (NewSingle t) = NewSingle t"
| "exp_after_visit (NewArray t amt) = NewArray t (exp_after_visit amt)"
| "exp_after_visit (CallExp fc) = CallExp (funcall_after_visit fc)"
| "place_after_visit (Id_place name) = Id_place name"
| "place_after_visit (Deref e) = Deref (exp_after_visit e)"
| "place_after_visit (ArrayAccess arr index_exp) =
     ArrayAccess (exp_after_visit arr) (exp_after_visit index_exp)"
| "place_after_visit (FieldAccess ptr field) = FieldAccess (exp_after_visit ptr) field"
| "funcall_after_visit (FunCall callee args) =
     FunCall (exp_after_visit callee) (map exp_after_visit args)"

text \<open>A computation whose failures all satisfy \<open>E\<close> and whose final state, when it
  succeeds, satisfies \<open>Q\<close>.\<close>

definition ensures ::
  "(error \<Rightarrow> bool) \<Rightarrow> (lowerer \<Rightarrow> bool) \<Rightarrow> (error \<times> lowerer) + ('a \<times> lowerer) \<Rightarrow> bool" where
  "ensures E Q r = (case r of Inl (e, s1) \<Rightarrow> E e | Inr (x, s1) \<Rightarrow> Q s1)"

definition ensures_stmt ::
  "(error \<Rightarrow> bool) \<Rightarrow> (lowerer \<Rightarrow> bool) \<Rightarrow> stmt_result \<Rightarrow> bool" where
  "ensures_stmt E Q r = (case r of Inl (e, s1) \<Rightarrow> E e | Inr s1 \<Rightarrow> Q s1)"

text \<open>The translation items that are a \<open>Const\<close> instruction.\<close>

definition is_const_item :: "translation_item \<Rightarrow> bool" where
  "is_const_item x = (case x of TvInst (Const nm v) \<Rightarrow> True | _ \<Rightarrow> False)"

text \<open>The names of constant holders, and the name a \<open>Const\<close> instruction defines.\<close>

definition is_const_name :: "string \<Rightarrow> bool" where
  "is_const_name x = (take 7 x = ''_const_'')"

fun const_inst_name :: "inst \<Rightarrow> string option" where
  "const_inst_name (Const nm v) = Some nm"
| "const_inst_name i = None"

text \<open>The shape of the translation vector while a function is lowered: the entry
  label, then the \<open>Const\<close> instructions inserted so far, each defining the holder of
  its value, then items that are no \<open>Const\<close>; \<^verbatim>\<open>m_const_insert_pos\<close> points behind the
  last \<open>Const\<close>; and the \<open>_const_\<close> locals are the names these instructions define,
  each once, with type \<open>Int\<close>.\<close>

definition const_inv :: "string \<Rightarrow> lowerer \<Rightarrow> bool" where
  "const_inv entry_label s =
     (\<exists>cs rest.
        m_tv s = TvLabel entry_label # map TvInst cs @ rest \<and>
        m_const_insert_pos s = Suc (length cs) \<and>
        (\<forall>c \<in> set cs. \<exists>k. c = Const (const_name k) k) \<and>
        (\<forall>x \<in> set rest. \<not> is_const_item x) \<and>
        distinct (map const_inst_name cs) \<and>
        (\<forall>x. is_const_name x \<longrightarrow>
           fn_locals (m_current_fun s) x =
             (if Some x \<in> const_inst_name ` set cs then Some LIR_IntType else None)))"

text \<open>The items of a translation vector that are no \<open>Const\<close> instruction, in its order.\<close>

definition other_items :: "translation_item list \<Rightarrow> translation_item list" where
  "other_items tv = filter (\<lambda>x. \<not> is_const_item x) tv"

text \<open>The literals whose holder a visit asks \<^verbatim>\<open>const_var\<close> for, in the order of the
  calls: the visits of the sub-expressions are followed as \<open>lower_exp\<close>, \<open>lower_place\<close>,
  \<open>visit_FunCall\<close> and \<open>lower_stmt\<close> make them.\<close>

fun literal_uses_exp :: "exp \<Rightarrow> int list"
  and literal_uses_place :: "place \<Rightarrow> int list"
  and literal_uses_funcall :: "funcall \<Rightarrow> int list" where
  "literal_uses_exp (Val p) = literal_uses_place p"
| "literal_uses_exp (Num n) = [n]"
| "literal_uses_exp NilExp = []"
| "literal_uses_exp (Select g tt ff) =
     literal_uses_exp g @ literal_uses_exp tt @ literal_uses_exp ff"
| "literal_uses_exp (UnOp Op_Neg eo) =
     (case cast_Num eo of
        Some v \<Rightarrow> [int_neg v]
      | None \<Rightarrow> 0 # (case eo of None \<Rightarrow> [] | Some e \<Rightarrow> literal_uses_exp e))"
| "literal_uses_exp (UnOp Op_Not eo) =
     (case eo of None \<Rightarrow> [] | Some e \<Rightarrow> literal_uses_exp e @ [0])"
| "literal_uses_exp (BinOp op l r) =
     literal_uses_exp l @ literal_uses_exp r @ (if op = Op_And then [0] else [])"
| "literal_uses_exp (NewSingle t) = []"
| "literal_uses_exp (NewArray t amt) = literal_uses_exp amt"
| "literal_uses_exp (CallExp fc) = literal_uses_funcall fc"
| "literal_uses_place (Id_place name) = []"
| "literal_uses_place (Deref e) = literal_uses_exp e"
| "literal_uses_place (ArrayAccess arr index_exp) =
     literal_uses_exp arr @ literal_uses_exp index_exp"
| "literal_uses_place (FieldAccess ptr field) = literal_uses_exp ptr"
| "literal_uses_funcall (FunCall callee args) =
     concat (map literal_uses_exp (rev args)) @ literal_uses_exp callee"

fun literal_uses_stmt :: "stmt \<Rightarrow> int list" where
  "literal_uses_stmt (Stmts statements) = concat (map literal_uses_stmt statements)"
| "literal_uses_stmt (Assign p e) = literal_uses_place p @ literal_uses_exp e"
| "literal_uses_stmt (CallStmt fc) = literal_uses_funcall fc"
| "literal_uses_stmt (If_stmt guard tt ff) =
     literal_uses_exp guard @ literal_uses_stmt tt @
       (case ff of None \<Rightarrow> [] | Some f \<Rightarrow> literal_uses_stmt f)"
| "literal_uses_stmt (While_stmt guard body) = literal_uses_exp guard @ literal_uses_stmt body"
| "literal_uses_stmt Break = []"
| "literal_uses_stmt Continue = []"
| "literal_uses_stmt (Return eo) = (case eo of None \<Rightarrow> [] | Some e \<Rightarrow> literal_uses_exp e)"

text \<open>The \<open>Const\<close> instructions of a sequence of uses in order of first use: a use adds
  the \<open>Const\<close> of its holder behind those of the earlier uses, unless one of them
  defines that holder already.\<close>

definition add_holder :: "inst list \<Rightarrow> int \<Rightarrow> inst list" where
  "add_holder cs k =
     (if Some (const_name k) \<in> const_inst_name ` set cs then cs
      else cs @ [Const (const_name k) k])"

definition first_use_holders :: "int list \<Rightarrow> inst list" where
  "first_use_holders ks = foldl add_holder [] ks"

text \<open>The \<open>Const\<close> instructions of a translation vector, in its order.\<close>

definition const_insts :: "translation_item list \<Rightarrow> inst list" where
  "const_insts tv =
     concat (map (\<lambda>x. case x of TvInst (Const nm v) \<Rightarrow> [Const nm v] | _ \<Rightarrow> []) tv)"

text \<open>A state in which the invariant of the translation vector holds and whose
  \<open>Const\<close> instructions are \<open>cs\<close>.\<close>

definition holds_consts :: "string \<Rightarrow> inst list \<Rightarrow> lowerer \<Rightarrow> bool" where
  "holds_consts l cs s = (const_inv l s \<and> const_insts (m_tv s) = cs)"

text \<open>What the lowered function \<open>g\<close> with entry label \<open>l\<close> holds for its constant
  holders, when \<open>ks\<close> are the literals its body uses: the entry block starts with the
  \<open>Const\<close> instructions of \<open>ks\<close> in order of first use, each defining the holder of
  its value, no two defining the same name, and no other instruction of the body is a
  \<open>Const\<close>; the \<open>_const_\<close> locals of \<open>g\<close> are the names so defined, with type \<open>Int\<close>.\<close>

definition const_holders_defined :: "string \<Rightarrow> int list \<Rightarrow> lir_function \<Rightarrow> bool" where
  "const_holders_defined l ks g =
     (\<exists>blk cs others.
        fn_body g l = Some blk \<and>
        bb_insts blk = cs @ others \<and>
        cs = first_use_holders ks \<and>
        (\<forall>c \<in> set cs. \<exists>k. c = Const (const_name k) k) \<and>
        (\<forall>i \<in> set others. const_inst_name i = None) \<and>
        distinct (map const_inst_name cs) \<and>
        (\<forall>x. is_const_name x \<longrightarrow>
           fn_locals g x =
             (if Some x \<in> const_inst_name ` set cs then Some LIR_IntType else None)) \<and>
        (\<forall>l1 b. l1 \<noteq> l \<longrightarrow> fn_body g l1 = Some b \<longrightarrow>
           (\<forall>i \<in> set (bb_insts b). const_inst_name i = None)))"

subsection \<open>Example programs\<close>

text \<open>\<^verbatim>\<open>fn main() -> int { let x:int; if x { return; } }\<close>\<close>

definition example_return_in_branch :: function_def where
  "example_return_in_branch =
     \<lparr>fd_name = ''main'', fd_params = [], fd_rettype = AST_IntType,
      fd_locals = [(''x'', AST_IntType)],
      fd_body = Stmts [If_stmt (Val (Id_place ''x'')) (Stmts [Return None]) None]\<rparr>"

definition example_return_in_branch_program :: ast_program where
  "example_return_in_branch_program =
     \<lparr>prog_structs = [], prog_externs = [], prog_functions = [example_return_in_branch]\<rparr>"

text \<open>\<^verbatim>\<open>struct S { f: int }  fn main() -> int { let s:&S; s.f = 5; }\<close>\<close>

definition example_field_store :: function_def where
  "example_field_store =
     \<lparr>fd_name = ''main'', fd_params = [], fd_rettype = AST_IntType,
      fd_locals = [(''s'', AST_PtrType (AST_StructType ''S''))],
      fd_body = Stmts [Assign (FieldAccess (Val (Id_place ''s'')) ''f'') (Num 5)]\<rparr>"

definition example_field_store_program :: ast_program where
  "example_field_store_program =
     \<lparr>prog_structs = [\<lparr>sd_name = ''S'', sd_fields = [(''f'', AST_IntType)]\<rparr>],
      prog_externs = [], prog_functions = [example_field_store]\<rparr>"

text \<open>\<^verbatim>\<open>fn foo(p:int, q:int) -> int { return 0; }  fn main() -> int { return 0; }\<close>\<close>

definition example_two_functions :: ast_program where
  "example_two_functions =
     \<lparr>prog_structs = [], prog_externs = [],
      prog_functions =
        [\<lparr>fd_name = ''foo'', fd_params = [(''p'', AST_IntType), (''q'', AST_IntType)],
          fd_rettype = AST_IntType, fd_locals = [], fd_body = Stmts [Return (Some (Num 0))]\<rparr>,
         \<lparr>fd_name = ''main'', fd_params = [], fd_rettype = AST_IntType, fd_locals = [],
          fd_body = Stmts [Return (Some (Num 0))]\<rparr>]\<rparr>"

text \<open>\<^verbatim>\<open>fn main() -> int { let x:int; if x { return 1; } else { return 2; } }\<close> and the
  function the lowerer makes of it.\<close>

definition example_both_return :: function_def where
  "example_both_return =
     \<lparr>fd_name = ''main'', fd_params = [], fd_rettype = AST_IntType,
      fd_locals = [(''x'', AST_IntType)],
      fd_body = Stmts [If_stmt (Val (Id_place ''x'')) (Stmts [Return (Some (Num 1))])
                         (Some (Stmts [Return (Some (Num 2))]))]\<rparr>"

definition example_both_return_program :: ast_program where
  "example_both_return_program =
     \<lparr>prog_structs = [], prog_externs = [], prog_functions = [example_both_return]\<rparr>"

definition example_both_return_lowered :: lir_function where
  "example_both_return_lowered =
     \<lparr>fn_name = ''main'', fn_params = [], fn_rettyp = LIR_IntType,
      fn_locals = [''x'' \<mapsto> LIR_IntType, ''_const_1'' \<mapsto> LIR_IntType, ''_const_2'' \<mapsto> LIR_IntType],
      fn_body =
        [''main_entry'' \<mapsto>
           \<lparr>bb_label = ''main_entry'',
            bb_insts = [Const ''_const_1'' 1, Const ''_const_2'' 2],
            bb_term = Branch ''x'' ''if_true0'' ''if_false1''\<rparr>,
         ''if_true0'' \<mapsto>
           \<lparr>bb_label = ''if_true0'', bb_insts = [], bb_term = Ret (Some ''_const_1'')\<rparr>,
         ''if_false1'' \<mapsto>
           \<lparr>bb_label = ''if_false1'', bb_insts = [], bb_term = Ret (Some ''_const_2'')\<rparr>,
         ''if_end2'' \<mapsto>
           \<lparr>bb_label = ''if_end2'', bb_insts = [], bb_term = Ret None\<rparr>]\<rparr>"

text \<open>\<^verbatim>\<open>fn main() -> int { let a:int; a = 3; a = 2; a = 3; return a; }\<close> and the
  function the lowerer makes of it; then \<^verbatim>\<open>fn main() -> int { let _const_5:int; return 5; }\<close>.\<close>

definition example_reuse_literal :: function_def where
  "example_reuse_literal =
     \<lparr>fd_name = ''main'', fd_params = [], fd_rettype = AST_IntType,
      fd_locals = [(''a'', AST_IntType)],
      fd_body = Stmts [Assign (Id_place ''a'') (Num 3), Assign (Id_place ''a'') (Num 2),
                       Assign (Id_place ''a'') (Num 3), Return (Some (Val (Id_place ''a'')))]\<rparr>"

definition example_reuse_literal_program :: ast_program where
  "example_reuse_literal_program =
     \<lparr>prog_structs = [], prog_externs = [], prog_functions = [example_reuse_literal]\<rparr>"

definition example_reuse_literal_lowered :: lir_function where
  "example_reuse_literal_lowered =
     \<lparr>fn_name = ''main'', fn_params = [], fn_rettyp = LIR_IntType,
      fn_locals = [''a'' \<mapsto> LIR_IntType, ''_const_3'' \<mapsto> LIR_IntType,
                   ''_const_2'' \<mapsto> LIR_IntType],
      fn_body =
        [''main_entry'' \<mapsto>
           \<lparr>bb_label = ''main_entry'',
            bb_insts = [Const ''_const_3'' 3, Const ''_const_2'' 2, Copy ''a'' ''_const_3'',
                        Copy ''a'' ''_const_2'', Copy ''a'' ''_const_3''],
            bb_term = Ret (Some ''a'')\<rparr>]\<rparr>"

definition example_const_local :: function_def where
  "example_const_local =
     \<lparr>fd_name = ''main'', fd_params = [], fd_rettype = AST_IntType,
      fd_locals = [(''_const_5'', AST_IntType)],
      fd_body = Stmts [Return (Some (Num 5))]\<rparr>"

definition example_const_local_program :: ast_program where
  "example_const_local_program =
     \<lparr>prog_structs = [], prog_externs = [], prog_functions = [example_const_local]\<rparr>"

definition example_const_local_lowered :: lir_function where
  "example_const_local_lowered =
     \<lparr>fn_name = ''main'', fn_params = [], fn_rettyp = LIR_IntType,
      fn_locals = [''_const_5'' \<mapsto> LIR_IntType],
      fn_body =
        [''main_entry'' \<mapsto>
           \<lparr>bb_label = ''main_entry'', bb_insts = [], bb_term = Ret (Some ''_const_5'')\<rparr>]\<rparr>"

text \<open>\<^verbatim>\<open>extern g: (int, int) -> int  fn main() -> int { let a:int, b:int; g(a, b); }\<close> and
  the function the lowerer makes of \<open>main\<close>.\<close>

definition example_call :: function_def where
  "example_call =
     \<lparr>fd_name = ''main'', fd_params = [], fd_rettype = AST_IntType,
      fd_locals = [(''a'', AST_IntType), (''b'', AST_IntType)],
      fd_body = Stmts [CallStmt (FunCall (Val (Id_place ''g''))
                                   [Val (Id_place ''a''), Val (Id_place ''b'')])]\<rparr>"

definition example_call_program :: ast_program where
  "example_call_program =
     \<lparr>prog_structs = [],
      prog_externs = [\<lparr>ex_name = ''g'', ex_param_types = [AST_IntType, AST_IntType],
                        ex_rettype = AST_IntType\<rparr>],
      prog_functions = [example_call]\<rparr>"

definition example_call_lowered :: lir_function where
  "example_call_lowered =
     \<lparr>fn_name = ''main'', fn_params = [], fn_rettyp = LIR_IntType,
      fn_locals = [''a'' \<mapsto> LIR_IntType, ''b'' \<mapsto> LIR_IntType],
      fn_body =
        [''main_entry'' \<mapsto>
           \<lparr>bb_label = ''main_entry'', bb_insts = [Call None ''g'' [''b'', ''a'']],
            bb_term = Ret None\<rparr>]\<rparr>"

text \<open>\<^verbatim>\<open>extern g: (int, int) -> int  fn main() -> int { let a:int, b:int; g(1, a + b); }\<close>
  and the function the lowerer makes of \<open>main\<close>.\<close>

definition example_call_literal :: function_def where
  "example_call_literal =
     \<lparr>fd_name = ''main'', fd_params = [], fd_rettype = AST_IntType,
      fd_locals = [(''a'', AST_IntType), (''b'', AST_IntType)],
      fd_body = Stmts [CallStmt (FunCall (Val (Id_place ''g''))
                                   [Num 1, BinOp Op_Add (Val (Id_place ''a'')) (Val (Id_place ''b''))])]\<rparr>"

definition example_call_literal_program :: ast_program where
  "example_call_literal_program =
     \<lparr>prog_structs = [],
      prog_externs = [\<lparr>ex_name = ''g'', ex_param_types = [AST_IntType, AST_IntType],
                        ex_rettype = AST_IntType\<rparr>],
      prog_functions = [example_call_literal]\<rparr>"

definition example_call_literal_lowered :: lir_function where
  "example_call_literal_lowered =
     \<lparr>fn_name = ''main'', fn_params = [], fn_rettyp = LIR_IntType,
      fn_locals = [''a'' \<mapsto> LIR_IntType, ''b'' \<mapsto> LIR_IntType, ''_tmp0'' \<mapsto> LIR_IntType,
                   ''_const_1'' \<mapsto> LIR_IntType],
      fn_body =
        [''main_entry'' \<mapsto>
           \<lparr>bb_label = ''main_entry'',
            bb_insts = [Const ''_const_1'' 1, Arith ''_tmp0'' Arith_Add ''a'' ''b'',
                        Call None ''g'' [''_tmp0'', ''_const_1'']],
            bb_term = Ret None\<rparr>]\<rparr>"

section \<open>Facts about the helper functions\<close>

lemmas eval_simps =
  new_label_def emit_def release_def digit_char_def enter_function_def function_shell_def
  add_decl_def initial_lowerer_def empty_program_def nat_to_string.simps set_local_def
  fresh_inner_var_def fresh_non_inner_var_def const_var_def const_name_def to_string_def
  int_neg_def insert_at_def typeof_def typeof_var_def push_loop_def pop_loop_def
  visit_Break_def visit_Continue_def

lemma has_ret_scan_iff:
  "has_ret_scan xs \<longleftrightarrow> (\<exists>ls v rest. xs = map TvLabel ls @ TvTerminal (Ret v) # rest)"
proof (induction xs rule: has_ret_scan.induct)
  case 1
  then show ?case by simp
next
  case (2 t rest)
  show ?case
  proof (cases t)
    case (Ret v)
    then have "TvTerminal t # rest = map TvLabel [] @ TvTerminal (Ret v) # rest" by simp
    then show ?thesis using Ret by (simp del: append_Nil) blast
  next
    case Monostate
    then show ?thesis by (auto simp: Cons_eq_append_conv Cons_eq_map_conv)
  next
    case (Jump l)
    then show ?thesis by (auto simp: Cons_eq_append_conv Cons_eq_map_conv)
  next
    case (Branch g a b)
    then show ?thesis by (auto simp: Cons_eq_append_conv Cons_eq_map_conv)
  qed
next
  case (3 l rest)
  show ?case
  proof
    assume "has_ret_scan (TvLabel l # rest)"
    then obtain ls v r where "rest = map TvLabel ls @ TvTerminal (Ret v) # r"
      using 3 by auto
    then have "TvLabel l # rest = map TvLabel (l # ls) @ TvTerminal (Ret v) # r" by simp
    then show "\<exists>ls v r. TvLabel l # rest = map TvLabel ls @ TvTerminal (Ret v) # r" by blast
  next
    assume "\<exists>ls v r. TvLabel l # rest = map TvLabel ls @ TvTerminal (Ret v) # r"
    then obtain ls v r where e: "TvLabel l # rest = map TvLabel ls @ TvTerminal (Ret v) # r"
      by blast
    then obtain ls' where "ls = l # ls'" by (cases ls) auto
    with e have "rest = map TvLabel ls' @ TvTerminal (Ret v) # r" by simp
    then show "has_ret_scan (TvLabel l # rest)" using 3 by auto
  qed
next
  case (4 i rest)
  then show ?case by (auto simp: Cons_eq_append_conv Cons_eq_map_conv)
qed

lemma has_ret_iff:
  "has_ret tv \<longleftrightarrow> (\<exists>pre v ls. tv = pre @ TvTerminal (Ret v) # map TvLabel ls)"
proof
  assume "has_ret tv"
  then obtain ls v rest where "rev tv = map TvLabel ls @ TvTerminal (Ret v) # rest"
    by (auto simp: has_ret_def has_ret_scan_iff)
  then have "tv = rev (map TvLabel ls @ TvTerminal (Ret v) # rest)" by (metis rev_rev_ident)
  then have "tv = rev rest @ TvTerminal (Ret v) # map TvLabel (rev ls)" by (simp add: rev_map)
  then show "\<exists>pre v ls. tv = pre @ TvTerminal (Ret v) # map TvLabel ls" by blast
next
  assume "\<exists>pre v ls. tv = pre @ TvTerminal (Ret v) # map TvLabel ls"
  then obtain pre v ls where "tv = pre @ TvTerminal (Ret v) # map TvLabel ls" by blast
  then have "rev tv = map TvLabel (rev ls) @ TvTerminal (Ret v) # rev pre" by (simp add: rev_map)
  then show "has_ret tv" unfolding has_ret_def has_ret_scan_iff by blast
qed

lemma example_return_in_branch_tv:
  "lower_stmt (fd_body example_return_in_branch)
     (enter_function ''main'' (function_shell example_return_in_branch)
        (initial_lowerer (program_shell example_return_in_branch_program)))
   = Inr ((enter_function ''main'' (function_shell example_return_in_branch)
             (initial_lowerer (program_shell example_return_in_branch_program)))
      \<lparr>m_tv := [TvLabel ''main_entry'', TvTerminal (Branch ''x'' ''if_true0'' ''if_false1''),
                TvLabel ''if_true0'', TvTerminal (Ret None), TvTerminal (Jump ''if_end2''),
                TvLabel ''if_false1'', TvTerminal (Jump ''if_end2''), TvLabel ''if_end2''],
        m_label_counter := 3\<rparr>)"
  by (simp add: example_return_in_branch_def eval_simps)

lemma example_return_in_branch_shell:
  "functions' (m_lir_prog (initial_lowerer (program_shell example_return_in_branch_program)))
     (fd_name example_return_in_branch) = Some (function_shell example_return_in_branch)"
  by (simp add: example_return_in_branch_program_def example_return_in_branch_def program_shell_def
      add_function_shell_def eval_simps)

section \<open>Properties of the lowerer\<close>

subsection \<open>Type lookup\<close>

text \<open>
  C3, as the code has it. \<^verbatim>\<open>typeof_var\<close> looks the name up in the locals of the current
  function, then in \<open>funptrs\<close>, then in \<open>externs\<close>. A name in none of them has type
  \<open>Nil\<close> when it is \<open>__NULL\<close>; any other unknown name gets type \<open>Int\<close> (with a
  warning on standard error): the lookup returns a type for every name and never fails.
\<close>

theorem typeof_var_lookup_order:
  "(fn_locals f v = Some t \<longrightarrow> typeof_var (Some f) prog v = t) \<and>
   (fn_locals f v = None \<longrightarrow> typeof_var (Some f) prog v = typeof_var None prog v) \<and>
   (funptrs prog v = Some t \<longrightarrow> typeof_var None prog v = t) \<and>
   (funptrs prog v = None \<and> externs prog v = Some t \<longrightarrow> typeof_var None prog v = t) \<and>
   (funptrs prog v = None \<and> externs prog v = None \<longrightarrow>
      typeof_var None prog v = (if v = ''__NULL'' then LIR_NilType else LIR_IntType))"
  by (simp add: typeof_var_def)

theorem typeof_var_lookup_order_witness:
  "typeof_var (Some (function_shell example_return_in_branch)) empty_program ''x'' = LIR_IntType \<and>
   typeof_var (Some (function_shell example_return_in_branch))
     (empty_program\<lparr>funptrs := [''g'' \<mapsto> LIR_PtrType (LIR_FnType [] LIR_IntType)]\<rparr>) ''g''
     = LIR_PtrType (LIR_FnType [] LIR_IntType) \<and>
   typeof_var None (empty_program\<lparr>externs := [''h'' \<mapsto> LIR_FnType [] LIR_IntType]\<rparr>) ''h''
     = LIR_FnType [] LIR_IntType \<and>
   typeof_var None empty_program ''__NULL'' = LIR_NilType"
  using typeof_var_lookup_order
          [of "function_shell example_return_in_branch" "''x''" LIR_IntType empty_program]
        typeof_var_lookup_order
          [of "function_shell example_return_in_branch" "''g''"
              "LIR_PtrType (LIR_FnType [] LIR_IntType)"
              "empty_program\<lparr>funptrs := [''g'' \<mapsto> LIR_PtrType (LIR_FnType [] LIR_IntType)]\<rparr>"]
        typeof_var_lookup_order
          [of "function_shell example_return_in_branch" "''h''" "LIR_FnType [] LIR_IntType"
              "empty_program\<lparr>externs := [''h'' \<mapsto> LIR_FnType [] LIR_IntType]\<rparr>"]
        typeof_var_lookup_order
          [of "function_shell example_return_in_branch" "''__NULL''" LIR_NilType empty_program]
  by (simp add: example_return_in_branch_def function_shell_def add_decl_def empty_program_def)

text \<open>C3 as the specification states it fails: for a name that is in no table and is not
  \<open>__NULL\<close> the lookup returns the type \<open>Int\<close> instead of failing.\<close>

theorem typeof_var_unknown_counterexample:
  "typeof_var (Some (function_shell example_return_in_branch)) empty_program ''nosuch''
     = LIR_IntType"
  by (simp add: typeof_var_def example_return_in_branch_def function_shell_def add_decl_def
      empty_program_def)

subsection \<open>The implicit return\<close>

text \<open>
  C5, as the code has it. At the end of function lowering \<open>Ret(none)\<close> is appended
  to the translation vector if and only if the vector does not end with a \<open>Ret\<close>
  terminator followed by labels only, that is, the last item that is not a label is
  not a \<open>Ret\<close>.
\<close>

theorem implicit_ret_iff_last_item_not_ret:
  assumes "functions' (m_lir_prog s) (fd_name n) = Some f"
    and "lower_stmt (fd_body n) (enter_function (fd_name n) f s) = Inr s1"
  shows "lower_body n s =
           Inr (if (\<exists>pre v ls. m_tv s1 = pre @ TvTerminal (Ret v) # map TvLabel ls) then s1
                else s1\<lparr>m_tv := m_tv s1 @ [TvTerminal (Ret None)]\<rparr>)"
  using assms by (simp add: lower_body_def add_implicit_ret_def has_ret_iff emit_def)

theorem implicit_ret_iff_last_item_not_ret_witness:
  "lower_body example_return_in_branch
     (initial_lowerer (program_shell example_return_in_branch_program))
   = Inr ((enter_function ''main'' (function_shell example_return_in_branch)
             (initial_lowerer (program_shell example_return_in_branch_program)))
      \<lparr>m_tv := [TvLabel ''main_entry'', TvTerminal (Branch ''x'' ''if_true0'' ''if_false1''),
                TvLabel ''if_true0'', TvTerminal (Ret None), TvTerminal (Jump ''if_end2''),
                TvLabel ''if_false1'', TvTerminal (Jump ''if_end2''), TvLabel ''if_end2'',
                TvTerminal (Ret None)],
        m_label_counter := 3\<rparr>)"
proof -
  have name: "fd_name example_return_in_branch = ''main''"
    by (simp add: example_return_in_branch_def)
  have tv: "lower_stmt (fd_body example_return_in_branch)
      (enter_function (fd_name example_return_in_branch) (function_shell example_return_in_branch)
         (initial_lowerer (program_shell example_return_in_branch_program))) = Inr
      ((enter_function ''main'' (function_shell example_return_in_branch)
             (initial_lowerer (program_shell example_return_in_branch_program)))
      \<lparr>m_tv := [TvLabel ''main_entry'', TvTerminal (Branch ''x'' ''if_true0'' ''if_false1''),
                TvLabel ''if_true0'', TvTerminal (Ret None), TvTerminal (Jump ''if_end2''),
                TvLabel ''if_false1'', TvTerminal (Jump ''if_end2''), TvLabel ''if_end2''],
        m_label_counter := 3\<rparr>)"
    using example_return_in_branch_tv by (simp only: name)
  show ?thesis
    using implicit_ret_iff_last_item_not_ret [OF example_return_in_branch_shell tv]
    by (simp add: has_ret_iff [symmetric] has_ret_def)
qed

text \<open>C5 as the specification states it fails: the translation vector of
  \<^verbatim>\<open>if x { return; }\<close> holds a \<open>Ret\<close>, and \<open>Ret(none)\<close> is appended all the same.\<close>

theorem implicit_ret_counterexample:
  "TvTerminal (Ret None) \<in> set
     [TvLabel ''main_entry'', TvTerminal (Branch ''x'' ''if_true0'' ''if_false1''),
      TvLabel ''if_true0'', TvTerminal (Ret None), TvTerminal (Jump ''if_end2''),
      TvLabel ''if_false1'', TvTerminal (Jump ''if_end2''), TvLabel ''if_end2''] \<and>
   lower_stmt (fd_body example_return_in_branch)
     (enter_function ''main'' (function_shell example_return_in_branch)
        (initial_lowerer (program_shell example_return_in_branch_program)))
   = Inr ((enter_function ''main'' (function_shell example_return_in_branch)
             (initial_lowerer (program_shell example_return_in_branch_program)))
      \<lparr>m_tv := [TvLabel ''main_entry'', TvTerminal (Branch ''x'' ''if_true0'' ''if_false1''),
                TvLabel ''if_true0'', TvTerminal (Ret None), TvTerminal (Jump ''if_end2''),
                TvLabel ''if_false1'', TvTerminal (Jump ''if_end2''), TvLabel ''if_end2''],
        m_label_counter := 3\<rparr>) \<and>
   lower_body example_return_in_branch
     (initial_lowerer (program_shell example_return_in_branch_program))
   = Inr ((enter_function ''main'' (function_shell example_return_in_branch)
             (initial_lowerer (program_shell example_return_in_branch_program)))
      \<lparr>m_tv := [TvLabel ''main_entry'', TvTerminal (Branch ''x'' ''if_true0'' ''if_false1''),
                TvLabel ''if_true0'', TvTerminal (Ret None), TvTerminal (Jump ''if_end2''),
                TvLabel ''if_false1'', TvTerminal (Jump ''if_end2''), TvLabel ''if_end2'',
                TvTerminal (Ret None)],
        m_label_counter := 3\<rparr>)"
proof -
  have name: "fd_name example_return_in_branch = ''main''"
    by (simp add: example_return_in_branch_def)
  show ?thesis
    using example_return_in_branch_tv example_return_in_branch_shell
    by (simp add: lower_body_def add_implicit_ret_def has_ret_def name emit_def)
qed

subsection \<open>Break and continue\<close>

text \<open>
  C6. Lowering \<open>Break\<close> appends a single \<open>Jump\<close> to the label on top of the
  loop-end stack, and fails with \<open>BreakOutsideLoop\<close> when that stack is empty;
  lowering \<open>Continue\<close> appends a single \<open>Jump\<close> to the label on top of the
  loop-header stack, and fails with \<open>ContinueOutsideLoop\<close> when that stack is empty.
  A failure leaves the state, and so the translation vector, as it was.
\<close>

theorem break_continue_jump_or_fail:
  "(m_loop_end_stack s = [] \<longrightarrow> lower_stmt Break s = Inl (BreakOutsideLoop, s)) \<and>
   (m_loop_end_stack s \<noteq> [] \<longrightarrow>
      lower_stmt Break s =
        Inr (s\<lparr>m_tv := m_tv s @ [TvTerminal (Jump (last (m_loop_end_stack s)))]\<rparr>)) \<and>
   (m_loop_hdr_stack s = [] \<longrightarrow> lower_stmt Continue s = Inl (ContinueOutsideLoop, s)) \<and>
   (m_loop_hdr_stack s \<noteq> [] \<longrightarrow>
      lower_stmt Continue s =
        Inr (s\<lparr>m_tv := m_tv s @ [TvTerminal (Jump (last (m_loop_hdr_stack s)))]\<rparr>))"
  by (simp add: visit_Break_def visit_Continue_def emit_def)

theorem break_continue_jump_or_fail_witness:
  "lower_stmt Break (initial_lowerer empty_program)
     = Inl (BreakOutsideLoop, initial_lowerer empty_program) \<and>
   lower_stmt Continue (initial_lowerer empty_program)
     = Inl (ContinueOutsideLoop, initial_lowerer empty_program) \<and>
   lower_stmt Break (push_loop ''loop_hdr0'' ''loop_end2'' (initial_lowerer empty_program)) =
     Inr ((push_loop ''loop_hdr0'' ''loop_end2'' (initial_lowerer empty_program))
            \<lparr>m_tv := [TvTerminal (Jump ''loop_end2'')]\<rparr>) \<and>
   lower_stmt Continue (push_loop ''loop_hdr0'' ''loop_end2'' (initial_lowerer empty_program)) =
     Inr ((push_loop ''loop_hdr0'' ''loop_end2'' (initial_lowerer empty_program))
            \<lparr>m_tv := [TvTerminal (Jump ''loop_hdr0'')]\<rparr>)"
  using break_continue_jump_or_fail [of "initial_lowerer empty_program"]
        break_continue_jump_or_fail
          [of "push_loop ''loop_hdr0'' ''loop_end2'' (initial_lowerer empty_program)"]
  by (simp add: initial_lowerer_def push_loop_def)

subsection \<open>Function pointers of the program shell\<close>

lemma funptrs_visit_StructDef [simp]: "funptrs (fold visit_StructDef ds p) = funptrs p"
  by (induction ds arbitrary: p) (simp_all add: visit_StructDef_def)

lemma funptrs_add_extern [simp]: "funptrs (fold add_extern es p) = funptrs p"
  by (induction es arbitrary: p) (simp_all add: add_extern_def)

lemma funptrs_add_function_shell:
  "funptrs (add_function_shell n p) =
     (if fd_name n \<noteq> ''main''
      then (funptrs p)(fd_name n \<mapsto>
             LIR_PtrType (LIR_FnType (map (\<lambda>d. convert_type (snd d)) (fd_params n))
                            (convert_type (fd_rettype n))))
      else funptrs p)"
  by (simp add: add_function_shell_def function_shell_def Let_def comp_def)

lemma funptrs_fold_add_function_shell:
  "funptrs (fold add_function_shell fs p) name =
     (if filter (\<lambda>n. fd_name n = name \<and> name \<noteq> ''main'') fs = [] then funptrs p name
      else Some (LIR_PtrType (LIR_FnType
             (map (\<lambda>d. convert_type (snd d))
                (fd_params (last (filter (\<lambda>n. fd_name n = name \<and> name \<noteq> ''main'') fs))))
             (convert_type
                (fd_rettype (last (filter (\<lambda>n. fd_name n = name \<and> name \<noteq> ''main'') fs)))))))"
proof (induction fs rule: rev_induct)
  case Nil
  then show ?case by simp
next
  case (snoc x xs)
  show ?case
  proof (cases "fd_name x = name \<and> name \<noteq> ''main''")
    case True
    then show ?thesis
      by (simp add: funptrs_add_function_shell)
  next
    case False
    then show ?thesis
      using snoc by (auto simp: funptrs_add_function_shell)
  qed
qed

lemma filter_distinct_name:
  "distinct (map fd_name fs) \<Longrightarrow> n \<in> set fs \<Longrightarrow> filter (\<lambda>k. fd_name k = fd_name n) fs = [n]"
proof (induction fs)
  case Nil
  then show ?case by simp
next
  case (Cons a as)
  show ?case
  proof (cases "a = n")
    case True
    have "filter (\<lambda>k. fd_name k = fd_name n) as = []"
      using Cons.prems True by (fastforce simp: filter_empty_conv image_iff)
    then show ?thesis using True by simp
  next
    case False
    then have "n \<in> set as" using Cons.prems by simp
    moreover have "fd_name a \<noteq> fd_name n" using Cons.prems \<open>n \<in> set as\<close> by auto
    ultimately show ?thesis using Cons by simp
  qed
qed

text \<open>
  C8. After the program shell is built, \<open>main\<close> is no key of \<open>funptrs\<close>, for every
  input program; the keys of \<open>funptrs\<close> are the names of the other functions, and
  each of them (function names being unique) is mapped to \<open>Ptr(Fn(params, ret))\<close>
  built from the converted parameter and return types of that function.
\<close>

theorem funptrs_of_program_shell:
  "funptrs (program_shell p) ''main'' = None \<and>
   dom (funptrs (program_shell p)) = fd_name ` set (prog_functions p) - {''main''} \<and>
   (distinct (map fd_name (prog_functions p)) \<longrightarrow>
      (\<forall>n \<in> set (prog_functions p). fd_name n \<noteq> ''main'' \<longrightarrow>
         funptrs (program_shell p) (fd_name n) =
           Some (LIR_PtrType (LIR_FnType (map (\<lambda>d. convert_type (snd d)) (fd_params n))
                                (convert_type (fd_rettype n))))))"
proof (intro conjI impI ballI)
  show "funptrs (program_shell p) ''main'' = None"
    by (simp add: program_shell_def funptrs_fold_add_function_shell empty_program_def)
next
  show "dom (funptrs (program_shell p)) = fd_name ` set (prog_functions p) - {''main''}"
  proof (rule set_eqI)
    fix name
    have "filter (\<lambda>n. fd_name n = name \<and> name \<noteq> ''main'') (prog_functions p) \<noteq> []
            \<longleftrightarrow> name \<in> fd_name ` set (prog_functions p) - {''main''}"
      by (auto simp: filter_empty_conv)
    then show "name \<in> dom (funptrs (program_shell p))
            \<longleftrightarrow> name \<in> fd_name ` set (prog_functions p) - {''main''}"
      by (auto simp: program_shell_def funptrs_fold_add_function_shell empty_program_def dom_def
               split: if_splits)
  qed
next
  fix n
  assume d: "distinct (map fd_name (prog_functions p))"
    and n: "n \<in> set (prog_functions p)" and m: "fd_name n \<noteq> ''main''"
  have "filter (\<lambda>k. fd_name k = fd_name n \<and> fd_name n \<noteq> ''main'') (prog_functions p) = [n]"
    using filter_distinct_name [OF d n] m by simp
  then show "funptrs (program_shell p) (fd_name n) =
           Some (LIR_PtrType (LIR_FnType (map (\<lambda>d. convert_type (snd d)) (fd_params n))
                                (convert_type (fd_rettype n))))"
    by (simp add: program_shell_def funptrs_fold_add_function_shell)
qed

theorem funptrs_of_program_shell_witness:
  "funptrs (program_shell example_two_functions) ''main'' = None \<and>
   dom (funptrs (program_shell example_two_functions)) = {''foo''} \<and>
   funptrs (program_shell example_two_functions) ''foo'' =
     Some (LIR_PtrType (LIR_FnType [LIR_IntType, LIR_IntType] LIR_IntType))"
proof -
  have d: "distinct (map fd_name (prog_functions example_two_functions))"
    by (simp add: example_two_functions_def)
  have "{''foo'', ''main''} - {''main''} = {''foo''}" by auto
  then show ?thesis
    using funptrs_of_program_shell [of example_two_functions] d
    by (simp add: example_two_functions_def)
qed

subsection \<open>Field access\<close>

text \<open>
  C4 is what the comment in \<^verbatim>\<open>visit(AST::FieldAccess*)\<close> asks for, and the code does
  otherwise. Lowering the field access \<open>p.f\<close>, with \<open>p\<close> a local of type
  \<open>Ptr(Struct(N))\<close> and \<open>f\<close> a field of type \<open>F\<close>, mints two fresh inner
  temporaries, \<open>_inner<k>\<close> of type \<open>Ptr(Struct(N))\<close> and \<open>_inner<k+1>\<close> of type
  \<open>Ptr(F)\<close>, and the struct-id operand of the emitted \<open>Gfp\<close> is the name
  \<open>_inner<k>\<close>, not the struct name \<open>N\<close>.
\<close>

theorem field_access_mints_two_temporaries:
  assumes "fn_locals (m_current_fun s) p = Some (LIR_PtrType (LIR_StructType N))"
    and "structs (m_lir_prog s) N = Some st"
    and "st_fields st f = Some F"
  shows "lower_place (FieldAccess (Val (Id_place p)) f) s =
     Inr (''_inner'' @ nat_to_string (m_tmp_counter s + 1),
          (set_local (''_inner'' @ nat_to_string (m_tmp_counter s + 1)) (LIR_PtrType F)
             (set_local (''_inner'' @ nat_to_string (m_tmp_counter s))
                (LIR_PtrType (LIR_StructType N)) s))
          \<lparr>m_tmp_counter := m_tmp_counter s + 2,
           m_tv := m_tv s @
             [TvInst (Gfp (''_inner'' @ nat_to_string (m_tmp_counter s + 1)) p
                          (''_inner'' @ nat_to_string (m_tmp_counter s)) f)]\<rparr>)"
  using assms
  by (simp add: typeof_def typeof_var_def typeof_ptr_element_def fresh_inner_var_def
      set_local_def typeof_struct_field_def typeof_field_def emit_def release_def Let_def)

theorem field_access_mints_two_temporaries_witness:
  "lower_place (FieldAccess (Val (Id_place ''s'')) ''f'')
     (enter_function ''main'' (function_shell example_field_store)
        (initial_lowerer (program_shell example_field_store_program))) =
   Inr (''_inner1'',
        (set_local ''_inner1'' (LIR_PtrType LIR_IntType)
           (set_local ''_inner0'' (LIR_PtrType (LIR_StructType ''S''))
              (enter_function ''main'' (function_shell example_field_store)
                 (initial_lowerer (program_shell example_field_store_program)))))
        \<lparr>m_tmp_counter := 2,
         m_tv := [TvLabel ''main_entry'', TvInst (Gfp ''_inner1'' ''s'' ''_inner0'' ''f'')]\<rparr>)"
proof -
  let ?s = "enter_function ''main'' (function_shell example_field_store)
              (initial_lowerer (program_shell example_field_store_program))"
  have a: "fn_locals (m_current_fun ?s) ''s'' = Some (LIR_PtrType (LIR_StructType ''S''))"
    by (simp add: example_field_store_def eval_simps)
  have b: "structs (m_lir_prog ?s) ''S'' =
             Some \<lparr>st_name = ''S'', st_fields = [''f'' \<mapsto> LIR_IntType]\<rparr>"
    by (simp add: example_field_store_program_def example_field_store_def program_shell_def
        visit_StructDef_def add_function_shell_def eval_simps Let_def)
  have c: "st_fields \<lparr>st_name = ''S'', st_fields = [''f'' \<mapsto> LIR_IntType]\<rparr> ''f''
             = Some LIR_IntType"
    by simp
  have d: "m_tmp_counter ?s = 0" "m_tv ?s = [TvLabel ''main_entry'']"
    by (simp_all add: eval_simps)
  show ?thesis
    using field_access_mints_two_temporaries [OF a b c]
    by (simp add: d nat_to_string.simps digit_char_def)
qed

subsection \<open>The AST after a visit\<close>

text \<open>
  C9 is what the code should do and does not. Visiting \<^verbatim>\<open>UnOp(Not, e)\<close> moves the
  operand out of the node, which is left with a null operand: the node is not the one
  that was given, and lowering the same AST a second time dereferences the null
  pointer where the first lowering succeeded.
\<close>

theorem not_operand_moved_out_of_ast:
  "exp_after_visit (UnOp Op_Not (Some e)) = UnOp Op_Not None \<and>
   exp_after_visit (UnOp Op_Not (Some e)) \<noteq> UnOp Op_Not (Some e) \<and>
   lower_exp (exp_after_visit (UnOp Op_Not (Some e))) s = Inl (NullDereference, s) \<and>
   lower_exp (UnOp Op_Not (Some (Val (Id_place ''x''))))
     (enter_function ''main'' (function_shell example_return_in_branch)
        (initial_lowerer (program_shell example_return_in_branch_program))) =
   Inr (''_tmp0'',
        (set_local ''_tmp0'' LIR_IntType
           (set_local ''_const_0'' LIR_IntType
              (enter_function ''main'' (function_shell example_return_in_branch)
                 (initial_lowerer (program_shell example_return_in_branch_program)))))
        \<lparr>m_tv := [TvLabel ''main_entry'', TvInst (Const ''_const_0'' 0),
                  TvInst (Cmp ''_tmp0'' Rel_Eq ''x'' ''_const_0'')],
         m_const_insert_pos := 2, m_tmp_counter := 1\<rparr>)"
  by (simp add: example_return_in_branch_def is_arith_op_def is_rel_op_def convert_rel_op_def
      eval_simps Let_def)

theorem not_operand_moved_out_of_ast_witness:
  "lower_exp (exp_after_visit (UnOp Op_Not (Some (Val (Id_place ''x'')))))
     (initial_lowerer empty_program) = Inl (NullDereference, initial_lowerer empty_program)"
  using not_operand_moved_out_of_ast [of "Val (Id_place ''x'')" "initial_lowerer empty_program"]
  by simp

subsection \<open>Blocks that no jump reaches\<close>

lemma example_both_return_reachable:
  "reachable example_both_return_lowered l
     \<Longrightarrow> l = ''main_entry'' \<or> l = ''if_true0'' \<or> l = ''if_false1''"
proof (induction rule: reachable.induct)
  case entry
  then show ?case by (simp add: example_both_return_lowered_def)
next
  case (step a b l)
  then show ?case
    by (auto simp: example_both_return_lowered_def split: if_splits)
qed

text \<open>
  C2 is what \<^verbatim>\<open>lower.md\<close> and the \<^verbatim>\<open>TODO\<close> at the end of \<^verbatim>\<open>build_cfg\<close> ask for,
  and the code does not do it. For \<^verbatim>\<open>if x { return 1; } else { return 2; }\<close> the
  body of the lowered \<open>main\<close> keeps the block \<open>if_end2\<close>, which no \<open>Jump\<close> or
  \<open>Branch\<close> reaches from the entry block.
\<close>

theorem unreachable_block_kept:
  "lower example_both_return_program =
     Inr \<lparr>structs = Map.empty, externs = Map.empty, funptrs = Map.empty,
          functions' = [''main'' \<mapsto> example_both_return_lowered]\<rparr> \<and>
   fn_body example_both_return_lowered ''if_end2'' =
     Some \<lparr>bb_label = ''if_end2'', bb_insts = [], bb_term = Ret None\<rparr> \<and>
   \<not> reachable example_both_return_lowered ''if_end2''"
proof (intro conjI)
  show "lower example_both_return_program =
     Inr \<lparr>structs = Map.empty, externs = Map.empty, funptrs = Map.empty,
          functions' = [''main'' \<mapsto> example_both_return_lowered]\<rparr>"
    by (simp add: lower_def example_both_return_program_def example_both_return_def
        program_shell_def add_function_shell_def visit_FunctionDef_def lower_body_def
        add_implicit_ret_def has_ret_def build_cfg_def block_at_def put_block_def
        store_current_fun_def example_both_return_lowered_def eval_simps Let_def)
  show "fn_body example_both_return_lowered ''if_end2'' =
     Some \<lparr>bb_label = ''if_end2'', bb_insts = [], bb_term = Ret None\<rparr>"
    by (simp add: example_both_return_lowered_def)
  show "\<not> reachable example_both_return_lowered ''if_end2''"
    using example_both_return_reachable [of "''if_end2''"] by auto
qed

theorem unreachable_block_kept_witness:
  "\<not> reachable example_both_return_lowered ''if_end2'' \<and>
   fn_body example_both_return_lowered ''if_end2'' \<noteq> None"
  using unreachable_block_kept by simp

subsection \<open>Invariants and failures of the visits\<close>

lemma ensures_simps [simp]:
  "ensures E Q (Inl (e, s1)) \<longleftrightarrow> E e"
  "ensures E Q (Inr (x, s2)) \<longleftrightarrow> Q s2"
  by (simp_all add: ensures_def)

lemma ensures_stmt_simps [simp]:
  "ensures_stmt E Q (Inl (e, s1)) \<longleftrightarrow> E e"
  "ensures_stmt E Q (Inr s2) \<longleftrightarrow> Q s2"
  by (simp_all add: ensures_stmt_def)

lemma ensuresD: "ensures E Q r \<Longrightarrow> r = Inr (x, s1) \<Longrightarrow> Q s1"
  by simp

lemma ensures_failD: "ensures E Q r \<Longrightarrow> r = Inl (e, s1) \<Longrightarrow> E e"
  by simp

lemma helper_errors:
  "typeof_ptr_element t = Inl e \<Longrightarrow> e = NotAPointerType"
  "typeof_array_element t = Inl e \<Longrightarrow> e = NotAnArrayType"
  "typeof_func_ret t = Inl e \<Longrightarrow> e = NotAFunctionType"
  "typeof_struct_field prog sid fid = Inl e \<Longrightarrow> e = FieldNotFound"
  "convert_arith_op op = Inl e \<Longrightarrow> e = NotAnArithOp"
  "convert_rel_op op = Inl e \<Longrightarrow> e = NotARelOp"
  by (auto simp: typeof_ptr_element_def typeof_array_element_def typeof_func_ret_def
      typeof_struct_field_def typeof_field_def convert_arith_op_def convert_rel_op_def
      split: lir_type.splits option.splits binaryop.splits)

lemma ensures_bind:
  assumes "ensures E I r" and "\<And>x s1. I s1 \<Longrightarrow> ensures E I (k x s1)"
  shows "ensures E I (case r of Inl err \<Rightarrow> Inl err | Inr (x, s1) \<Rightarrow> k x s1)"
  using assms by (cases r) auto

lemma ensures_prod:
  assumes "I (snd f)" and "\<And>x s1. I s1 \<Longrightarrow> ensures E I (k x s1)"
  shows "ensures E I (case f of (x, s1) \<Rightarrow> k x s1)"
  using assms by (cases f) auto

lemma ensures_helper:
  assumes "\<And>e. h = Inl e \<Longrightarrow> E e" and "\<And>v. ensures E I (k v)"
  shows "ensures E I (case h of Inl e \<Rightarrow> Inl (e, s1) | Inr v \<Rightarrow> k v)"
  using assms by (cases h) auto

lemma ensures_Inr: "Q s2 \<Longrightarrow> ensures E Q (Inr (x, s2))"
  by simp

lemma ensures_Inr_pair: "Q (snd p) \<Longrightarrow> ensures E Q (Inr p)"
  by (cases p) simp

lemma ensures_Inl: "E e \<Longrightarrow> ensures E Q (Inl (e, s1))"
  by simp

lemma lowering_ensures_aux:
  assumes emit: "\<And>x s. I s \<Longrightarrow> \<not> is_const_item x \<Longrightarrow> I (emit x s)"
    and tmp: "\<And>t s. I s \<Longrightarrow> I (snd (fresh_non_inner_var t s))"
    and inner: "\<And>t s. I s \<Longrightarrow> I (snd (fresh_inner_var t s))"
    and const: "\<And>n s. I s \<Longrightarrow> I (snd (const_var n s))"
    and label: "\<And>p s. I s \<Longrightarrow> I (snd (new_label p s))"
    and errs: "E NullDereference" "E NotAPointerType" "E NotAnArrayType" "E NotAFunctionType"
      "E FieldNotFound" "E FieldAccessOnNonStruct" "E NotAnArithOp" "E NotARelOp"
  shows "(\<forall>e s. exp_weight e \<le> n \<longrightarrow> I s \<longrightarrow> ensures E I (lower_exp e s)) \<and>
         (\<forall>p s. place_weight p \<le> n \<longrightarrow> cast_Id p = None \<longrightarrow> I s \<longrightarrow> ensures E I (lower_place p s)) \<and>
         (\<forall>fc s. funcall_weight fc \<le> n \<longrightarrow> I s \<longrightarrow> ensures E I (visit_FunCall fc s)) \<and>
         (\<forall>as s. sum_list (map exp_weight as) + length as \<le> n \<longrightarrow> I s \<longrightarrow> ensures E I (lower_args as s))"
proof (induction n)
  case 0
  have a: "exp_weight e > 0" for e by (cases e) auto
  have b: "place_weight e > 0" for e by (cases e) auto
  have c: "funcall_weight e > 0" for e by (cases e) auto
  have d: "sum_list (map exp_weight as) + length as \<le> 0 \<Longrightarrow> as = []" for as by (cases as) auto
  show ?case
  proof (intro conjI allI impI)
    fix e s assume "exp_weight e \<le> 0" then show "ensures E I (lower_exp e s)" using a[of e] by simp
  next
    fix e s assume "place_weight e \<le> 0" then show "ensures E I (lower_place e s)" using b[of e] by simp
  next
    fix e s assume "funcall_weight e \<le> 0" then show "ensures E I (visit_FunCall e s)" using c[of e] by simp
  next
    fix as s assume "sum_list (map exp_weight as) + length as \<le> 0" and "I s" 
    then show "ensures E I (lower_args as s)" using d[of as] by simp
  qed
next
  case (Suc n)
  then have IHe: "\<And>e s. exp_weight e \<le> n \<Longrightarrow> I s \<Longrightarrow> ensures E I (lower_exp e s)"
    and IHp: "\<And>p s. place_weight p \<le> n \<Longrightarrow> cast_Id p = None \<Longrightarrow> I s \<Longrightarrow> ensures E I (lower_place p s)"
    and IHf: "\<And>fc s. funcall_weight fc \<le> n \<Longrightarrow> I s \<Longrightarrow> ensures E I (visit_FunCall fc s)"
    and IHa: "\<And>as s. sum_list (map exp_weight as) + length as \<le> n \<Longrightarrow> I s \<Longrightarrow> ensures E I (lower_args as s)"
    by blast+
  have copy_t: "I (snd (copy_true_result z s))" if "I s" for z s
    using that tmp[of s "typeof s z"]
    by (auto simp: copy_true_result_def is_const_item_def split: prod.splits intro!: emit)
  have copy_f: "I (snd (copy_false_result x0 w s))" if "I s" for x0 w s
    using that tmp[of s "typeof s w"]
    by (auto simp: copy_false_result_def is_const_item_def split: prod.splits intro!: emit)
  have rel: "I (release vs s) = I s" for vs s by (simp add: release_def)
  note steps = ensures_bind ensures_prod ensures_helper ensures_Inr ensures_Inr_pair ensures_Inl
    emit tmp inner const label copy_t copy_f IHe IHp IHf IHa conjI impI allI
  have E1: "ensures E I (lower_exp e s)" if w: "exp_weight e \<le> Suc n" and i: "I s" for e s
  proof (cases e)
    case (Val p)
    show ?thesis
      using Val w i
      apply (simp split: option.split)
      apply (intro steps)
      apply (auto simp: rel is_const_item_def errs dest!: helper_errors intro!: emit)
      done
  next
    case (Num v)
    then show ?thesis using i by (simp add: const ensures_Inr_pair)
  next
    case NilExp
    then show ?thesis using i by simp
  next
    case (Select g tt ff)
    show ?thesis
      using Select w i
      apply simp
      apply (intro steps)
      apply (auto simp: rel is_const_item_def errs dest!: helper_errors intro!: emit)
      done
  next
    case (UnOp op eo)
    show ?thesis
    proof (cases op)
      case Op_Neg
      show ?thesis
      proof (cases eo)
        case None
        show ?thesis
          using UnOp Op_Neg None w i
          apply simp
          apply (intro steps)
          apply (auto simp: rel is_const_item_def errs dest!: helper_errors intro!: emit)
          done
      next
        case (Some a)
        show ?thesis
          using UnOp Op_Neg Some w i
          apply (simp split: option.split)
          apply (intro steps)
          apply (auto simp: rel is_const_item_def errs dest!: helper_errors intro!: emit)
          done
      qed
    next
      case Op_Not
      show ?thesis
      proof (cases eo)
        case None
        then show ?thesis using UnOp Op_Not by (simp add: errs)
      next
        case (Some a)
        have "exp_weight (BinOp Op_Eq a (Num 0)) \<le> n"
          using UnOp Some w by simp
        then show ?thesis
          using UnOp Op_Not Some i IHe[of "BinOp Op_Eq a (Num 0)" s] by (simp del: lower_exp.simps(7))
      qed
    qed
  next
    case (BinOp op l r)
    show ?thesis
      using BinOp w i
      apply simp
      apply (intro steps)
      apply (auto simp: rel is_const_item_def errs dest!: helper_errors intro!: emit)
      done
  next
    case (NewSingle t)
    show ?thesis
      using NewSingle w i
      apply simp
      apply (intro steps)
      apply (auto simp: rel is_const_item_def errs dest!: helper_errors intro!: emit)
      done
  next
    case (NewArray t amt)
    show ?thesis
      using NewArray w i
      apply simp
      apply (intro steps)
      apply (auto simp: rel is_const_item_def errs dest!: helper_errors intro!: emit)
      done
  next
    case (CallExp fc)
    show ?thesis
      using CallExp w i by (simp add: IHf)
  qed
  have E2: "ensures E I (lower_place p s)"
    if w: "place_weight p \<le> Suc n" and c: "cast_Id p = None" and i: "I s" for p s
  proof (cases p)
    case (Id_place nm)
    then show ?thesis using c by simp
  next
    case (Deref e)
    then show ?thesis using w i by (simp add: IHe)
  next
    case (ArrayAccess arr ix)
    show ?thesis
      using ArrayAccess w i
      apply simp
      apply (intro steps)
      apply (auto simp: rel is_const_item_def errs dest!: helper_errors intro!: emit)
      done
  next
    case (FieldAccess ptr fld)
    show ?thesis
      using FieldAccess w i
      apply simp
      apply (intro steps)
      apply (auto split: lir_type.split simp: rel is_const_item_def errs dest!: helper_errors
               intro!: steps)
      done
  qed
  have E3: "ensures E I (visit_FunCall fc s)" if w: "funcall_weight fc \<le> Suc n" and i: "I s" for fc s
  proof (cases fc)
    case (FunCall callee args)
    show ?thesis
      using FunCall w i
      apply simp
      apply (intro steps)
      apply (auto simp: rel is_const_item_def errs dest!: helper_errors intro!: emit)
      done
  qed
  have E4: "ensures E I (lower_args as s)"
    if w: "sum_list (map exp_weight as) + length as \<le> Suc n" and i: "I s" for as s
  proof (cases as)
    case Nil
    then show ?thesis using i by simp
  next
    case (Cons a rest)
    show ?thesis
      using Cons w i
      apply simp
      apply (intro steps)
      apply (auto simp: rel is_const_item_def errs dest!: helper_errors intro!: emit)
      done
  qed
  show ?case using E1 E2 E3 E4 by blast
qed

lemma lowering_ensures:
  assumes "\<And>x s. I s \<Longrightarrow> \<not> is_const_item x \<Longrightarrow> I (emit x s)"
    and "\<And>t s. I s \<Longrightarrow> I (snd (fresh_non_inner_var t s))"
    and "\<And>t s. I s \<Longrightarrow> I (snd (fresh_inner_var t s))"
    and "\<And>n s. I s \<Longrightarrow> I (snd (const_var n s))"
    and "\<And>p s. I s \<Longrightarrow> I (snd (new_label p s))"
    and "E NullDereference" "E NotAPointerType" "E NotAnArrayType" "E NotAFunctionType"
      "E FieldNotFound" "E FieldAccessOnNonStruct" "E NotAnArithOp" "E NotARelOp"
  shows "I s \<Longrightarrow> ensures E I (lower_exp e s)"
    and "cast_Id p = None \<Longrightarrow> I s \<Longrightarrow> ensures E I (lower_place p s)"
    and "I s \<Longrightarrow> ensures E I (visit_FunCall fc s)"
    and "I s \<Longrightarrow> ensures E I (lower_args as s)"
proof -
  have aux:
    "(\<forall>e s. exp_weight e \<le> n \<longrightarrow> I s \<longrightarrow> ensures E I (lower_exp e s)) \<and>
     (\<forall>p s. place_weight p \<le> n \<longrightarrow> cast_Id p = None \<longrightarrow> I s \<longrightarrow> ensures E I (lower_place p s)) \<and>
     (\<forall>fc s. funcall_weight fc \<le> n \<longrightarrow> I s \<longrightarrow> ensures E I (visit_FunCall fc s)) \<and>
     (\<forall>as s. sum_list (map exp_weight as) + length as \<le> n \<longrightarrow> I s \<longrightarrow> ensures E I (lower_args as s))"
    for n
    by (rule lowering_ensures_aux) (blast intro: assms)+
  show "I s \<Longrightarrow> ensures E I (lower_exp e s)"
    using aux [of "exp_weight e"] by blast
  show "cast_Id p = None \<Longrightarrow> I s \<Longrightarrow> ensures E I (lower_place p s)"
    using aux [of "place_weight p"] by blast
  show "I s \<Longrightarrow> ensures E I (visit_FunCall fc s)"
    using aux [of "funcall_weight fc"] by blast
  show "I s \<Longrightarrow> ensures E I (lower_args as s)"
    using aux [of "sum_list (map exp_weight as) + length as"] by blast
qed

lemma ensures_stmt_bind_exp:
  assumes "ensures E I r" and "\<And>x s1. I s1 \<Longrightarrow> ensures_stmt E I (k x s1)"
  shows "ensures_stmt E I (case r of Inl err \<Rightarrow> Inl err | Inr (x, s1) \<Rightarrow> k x s1)"
  using assms by (cases r) auto

lemma ensures_stmt_bind:
  assumes "ensures_stmt E I r" and "\<And>s1. I s1 \<Longrightarrow> ensures_stmt E I (k s1)"
  shows "ensures_stmt E I (case r of Inl err \<Rightarrow> Inl err | Inr s1 \<Rightarrow> k s1)"
  using assms by (cases r) auto

lemma ensures_stmt_prod:
  assumes "I (snd f)" and "\<And>x s1. I s1 \<Longrightarrow> ensures_stmt E I (k x s1)"
  shows "ensures_stmt E I (case f of (x, s1) \<Rightarrow> k x s1)"
  using assms by (cases f) auto

lemma ensures_stmt_Inr: "Q s2 \<Longrightarrow> ensures_stmt E Q (Inr s2)"
  by simp

lemma lower_stmt_ensures_aux:
  assumes emit: "\<And>x s. I s \<Longrightarrow> \<not> is_const_item x \<Longrightarrow> I (emit x s)"
    and tmp: "\<And>t s. I s \<Longrightarrow> I (snd (fresh_non_inner_var t s))"
    and inner: "\<And>t s. I s \<Longrightarrow> I (snd (fresh_inner_var t s))"
    and const: "\<And>n s. I s \<Longrightarrow> I (snd (const_var n s))"
    and label: "\<And>p s. I s \<Longrightarrow> I (snd (new_label p s))"
    and errs: "E NullDereference" "E NotAPointerType" "E NotAnArrayType" "E NotAFunctionType"
      "E FieldNotFound" "E FieldAccessOnNonStruct" "E NotAnArithOp" "E NotARelOp"
    and push: "\<And>h l s. I s \<Longrightarrow> I (push_loop h l s)"
    and pop: "\<And>s. I s \<Longrightarrow> I (pop_loop s)"
    and errs2: "E BreakOutsideLoop" "E ContinueOutsideLoop"
  shows "(\<forall>st s. size st < n \<longrightarrow> I s \<longrightarrow> ensures_stmt E I (lower_stmt st s)) \<and>
         (\<forall>sts s. size_list size sts < n \<longrightarrow> I s \<longrightarrow> ensures_stmt E I (lower_stmts sts s))"
proof (induction n)
  case 0
  show ?case by simp
next
  case (Suc n)
  then have IHs: "\<And>st s. size st < n \<Longrightarrow> I s \<Longrightarrow> ensures_stmt E I (lower_stmt st s)"
    and IHl: "\<And>sts s. size_list size sts < n \<Longrightarrow> I s \<Longrightarrow> ensures_stmt E I (lower_stmts sts s)"
    by blast+
  have lw: "I s \<Longrightarrow> ensures E I (lower_exp e s)"
      "cast_Id p = None \<Longrightarrow> I s \<Longrightarrow> ensures E I (lower_place p s)"
      "I s \<Longrightarrow> ensures E I (lower_args as s)" for s e p as
    by (rule lowering_ensures [where I = I and E = E]; blast intro: emit tmp inner const label errs)+
  have rel: "I (release vs s) = I s" for vs s by (simp add: release_def)
  note steps = ensures_stmt_bind_exp ensures_stmt_bind ensures_stmt_prod ensures_stmt_Inr
    emit label push pop lw IHs IHl conjI impI allI
  have S1: "ensures_stmt E I (lower_stmt st s)" if w: "size st < Suc n" and i: "I s" for st s
  proof (cases st)
    case (Stmts sts)
    then show ?thesis using w i by (simp add: IHl)
  next
    case (Assign p e)
    show ?thesis
      using Assign w i
      by (auto split: option.split simp: rel is_const_item_def intro!: steps)
  next
    case (CallStmt fc)
    show ?thesis
      using CallStmt w i
      by (auto split: funcall.split simp: rel is_const_item_def intro!: steps)
  next
    case (If_stmt g tt ff)
    show ?thesis
      using If_stmt w i
      by (auto split: option.split simp: rel is_const_item_def intro!: steps)
  next
    case (While_stmt g body)
    show ?thesis
      using While_stmt w i
      by (auto simp: rel is_const_item_def intro!: steps)
  next
    case Break
    then show ?thesis using i
      by (auto simp: visit_Break_def errs2 is_const_item_def intro!: emit)
  next
    case Continue
    then show ?thesis using i
      by (auto simp: visit_Continue_def errs2 is_const_item_def intro!: emit)
  next
    case (Return eo)
    show ?thesis
      using Return w i
      by (auto split: option.split simp: rel is_const_item_def intro!: steps)
  qed
  have S2: "ensures_stmt E I (lower_stmts sts s)"
    if w: "size_list size sts < Suc n" and i: "I s" for sts s
  proof (cases sts)
    case Nil
    then show ?thesis using i by simp
  next
    case (Cons a rest)
    show ?thesis
      using Cons w i
      by (auto simp: rel is_const_item_def intro!: steps)
  qed
  show ?case using S1 S2 by blast
qed

lemma lower_stmt_ensures:
  assumes "\<And>x s. I s \<Longrightarrow> \<not> is_const_item x \<Longrightarrow> I (emit x s)"
    and "\<And>t s. I s \<Longrightarrow> I (snd (fresh_non_inner_var t s))"
    and "\<And>t s. I s \<Longrightarrow> I (snd (fresh_inner_var t s))"
    and "\<And>n s. I s \<Longrightarrow> I (snd (const_var n s))"
    and "\<And>p s. I s \<Longrightarrow> I (snd (new_label p s))"
    and "E NullDereference" "E NotAPointerType" "E NotAnArrayType" "E NotAFunctionType"
      "E FieldNotFound" "E FieldAccessOnNonStruct" "E NotAnArithOp" "E NotARelOp"
    and "\<And>h l s. I s \<Longrightarrow> I (push_loop h l s)"
    and "\<And>s. I s \<Longrightarrow> I (pop_loop s)"
    and "E BreakOutsideLoop" "E ContinueOutsideLoop"
  shows "I s \<Longrightarrow> ensures_stmt E I (lower_stmt st s)"
proof -
  have "(\<forall>st s. size st < n \<longrightarrow> I s \<longrightarrow> ensures_stmt E I (lower_stmt st s)) \<and>
        (\<forall>sts s. size_list size sts < n \<longrightarrow> I s \<longrightarrow> ensures_stmt E I (lower_stmts sts s))" for n
    by (rule lower_stmt_ensures_aux) (blast intro: assms)+
  from this [of "Suc (size st)"] show "I s \<Longrightarrow> ensures_stmt E I (lower_stmt st s)"
    by blast
qed

subsection \<open>Function calls\<close>

lemma lower_each_snoc:
  "lower_each (es @ [a]) xs s =
     (case lower_each es xs s of
        Inl err \<Rightarrow> Inl err
      | Inr (ys, s1) \<Rightarrow>
          (case lower_exp a s1 of Inl err \<Rightarrow> Inl err | Inr (x, s2) \<Rightarrow> Inr (ys @ [x], s2)))"
  by (induction es arbitrary: xs s) (auto split: sum.splits)

lemma lower_args_eq_lower_each: "lower_args args s = lower_each (rev args) [] s"
  by (induction args arbitrary: s) (simp_all add: lower_each_snoc)

lemma lower_each_ids:
  "lower_each (map (\<lambda>v. Val (Id_place v)) vs) xs s = Inr (xs @ vs, s)"
  by (induction vs arbitrary: xs) simp_all

lemma other_items_insert_at:
  assumes "is_const_item x"
  shows "other_items (insert_at pos x tv) = other_items tv"
proof -
  have "filter P (take pos tv) @ filter P (drop pos tv) = filter P tv" for P
    by (metis append_take_drop_id filter_append)
  then show ?thesis using assms by (simp add: other_items_def insert_at_def)
qed

lemma other_items_const_var: "other_items (m_tv (snd (const_var n s))) = other_items (m_tv s)"
  by (simp add: const_var_def Let_def set_local_def other_items_insert_at is_const_item_def)

lemma other_items_steps:
  "\<not> is_const_item x \<Longrightarrow> other_items (m_tv (emit x s)) = other_items (m_tv s) @ [x]"
  "other_items (m_tv (snd (fresh_non_inner_var ty s))) = other_items (m_tv s)"
  "other_items (m_tv (snd (fresh_inner_var ty s))) = other_items (m_tv s)"
  "other_items (m_tv (snd (new_label p s))) = other_items (m_tv s)"
  by (simp_all add: emit_def other_items_def fresh_non_inner_var_def
        fresh_inner_var_def set_local_def new_label_def Let_def)

lemma lower_exp_appends:
  assumes "lower_exp e s = Inr (x, s1)"
  shows "\<exists>ys. other_items (m_tv s1) = other_items (m_tv s) @ ys"
proof -
  have "ensures (\<lambda>e. True) (\<lambda>t. \<exists>ys. other_items (m_tv t) = other_items (m_tv s) @ ys)
          (lower_exp e s)"
    by (rule lowering_ensures(1)
          [where I = "\<lambda>t. \<exists>ys. other_items (m_tv t) = other_items (m_tv s) @ ys"])
       (auto simp: other_items_const_var other_items_steps)
  then show ?thesis using assms by simp
qed

lemma lower_each_appends:
  "lower_each es acc s = Inr (xs, s1) \<Longrightarrow>
     \<exists>ys. other_items (m_tv s1) = other_items (m_tv s) @ ys"
proof (induction es arbitrary: acc s)
  case Nil
  then show ?case by simp
next
  case (Cons e es)
  from Cons.prems obtain x s2 where
    e: "lower_exp e s = Inr (x, s2)" and r: "lower_each es (acc @ [x]) s2 = Inr (xs, s1)"
    by (auto split: sum.splits)
  from lower_exp_appends [OF e] Cons.IH [OF r] show ?case by auto
qed

text \<open>
  C1, as the code has it. For every function call lowered as a statement or as an
  expression, the arguments are lowered right-to-left: the loop walks the reversed
  argument list, lowers each argument in the state that the argument to its right
  left, and pushes its result behind the results so far. The items other than \<open>Const\<close>
  instructions that an argument emits are appended to the translation vector, so
  that they stand there in reverse source order, those of an argument before those of
  the arguments to its left. The argument list stored in the emitted \<open>Call\<close> holds the
  results in that same order: it is the reverse of the source order.
\<close>

theorem call_args_right_to_left:
  "lower_stmt (CallStmt (FunCall callee args)) s =
     (case lower_each (rev args) [] s of
        Inl err \<Rightarrow> Inl err
      | Inr (xs, s1) \<Rightarrow>
          (case lower_exp callee s1 of
             Inl err \<Rightarrow> Inl err
           | Inr (f, s2) \<Rightarrow> Inr (s2\<lparr>m_tv := m_tv s2 @ [TvInst (Call None f xs)]\<rparr>))) \<and>
   visit_FunCall (FunCall callee args) s =
     (case lower_each (rev args) [] s of
        Inl err \<Rightarrow> Inl err
      | Inr (xs, s1) \<Rightarrow>
          (case lower_exp callee s1 of
             Inl err \<Rightarrow> Inl err
           | Inr (f, s2) \<Rightarrow>
               (case typeof_func_ret (typeof s2 f) of
                  Inl e \<Rightarrow> Inl (e, s2)
                | Inr ret_type \<Rightarrow>
                    Inr (fst (fresh_non_inner_var ret_type s2),
                         (snd (fresh_non_inner_var ret_type s2))
                           \<lparr>m_tv := m_tv s2 @
                              [TvInst (Call (Some (fst (fresh_non_inner_var ret_type s2))) f xs)]\<rparr>)))) \<and>
   lower_stmt (CallStmt (FunCall (Val (Id_place g)) (map (\<lambda>v. Val (Id_place v)) vs))) s =
     Inr (s\<lparr>m_tv := m_tv s @ [TvInst (Call None g (rev vs))]\<rparr>) \<and>
   (lower_each (a # as) rs t = Inr (ys, t2) \<longrightarrow>
      (\<exists>r t1 items1 items2.
         lower_exp a t = Inr (r, t1) \<and>
         lower_each as (rs @ [r]) t1 = Inr (ys, t2) \<and>
         other_items (m_tv t1) = other_items (m_tv t) @ items1 \<and>
         other_items (m_tv t2) = other_items (m_tv t1) @ items2))"
proof (intro conjI)
  show "lower_stmt (CallStmt (FunCall callee args)) s =
     (case lower_each (rev args) [] s of
        Inl err \<Rightarrow> Inl err
      | Inr (xs, s1) \<Rightarrow>
          (case lower_exp callee s1 of
             Inl err \<Rightarrow> Inl err
           | Inr (f, s2) \<Rightarrow> Inr (s2\<lparr>m_tv := m_tv s2 @ [TvInst (Call None f xs)]\<rparr>)))"
    by (simp add: lower_args_eq_lower_each emit_def release_def split: sum.splits prod.splits)
  show "visit_FunCall (FunCall callee args) s =
     (case lower_each (rev args) [] s of
        Inl err \<Rightarrow> Inl err
      | Inr (xs, s1) \<Rightarrow>
          (case lower_exp callee s1 of
             Inl err \<Rightarrow> Inl err
           | Inr (f, s2) \<Rightarrow>
               (case typeof_func_ret (typeof s2 f) of
                  Inl e \<Rightarrow> Inl (e, s2)
                | Inr ret_type \<Rightarrow>
                    Inr (fst (fresh_non_inner_var ret_type s2),
                         (snd (fresh_non_inner_var ret_type s2))
                           \<lparr>m_tv := m_tv s2 @
                              [TvInst (Call (Some (fst (fresh_non_inner_var ret_type s2))) f xs)]\<rparr>))))"
    by (simp add: lower_args_eq_lower_each emit_def release_def fresh_non_inner_var_def
        set_local_def Let_def split: sum.splits prod.splits)
  show "lower_stmt (CallStmt (FunCall (Val (Id_place g)) (map (\<lambda>v. Val (Id_place v)) vs))) s =
     Inr (s\<lparr>m_tv := m_tv s @ [TvInst (Call None g (rev vs))]\<rparr>)"
    by (simp add: lower_args_eq_lower_each lower_each_ids rev_map emit_def release_def)
  show "lower_each (a # as) rs t = Inr (ys, t2) \<longrightarrow>
      (\<exists>r t1 items1 items2.
         lower_exp a t = Inr (r, t1) \<and>
         lower_each as (rs @ [r]) t1 = Inr (ys, t2) \<and>
         other_items (m_tv t1) = other_items (m_tv t) @ items1 \<and>
         other_items (m_tv t2) = other_items (m_tv t1) @ items2)"
  proof
    assume "lower_each (a # as) rs t = Inr (ys, t2)"
    then obtain r t1 where
      e: "lower_exp a t = Inr (r, t1)" and r: "lower_each as (rs @ [r]) t1 = Inr (ys, t2)"
      by (auto split: sum.splits)
    from lower_exp_appends [OF e] lower_each_appends [OF r] e r show
      "\<exists>r t1 items1 items2.
         lower_exp a t = Inr (r, t1) \<and>
         lower_each as (rs @ [r]) t1 = Inr (ys, t2) \<and>
         other_items (m_tv t1) = other_items (m_tv t) @ items1 \<and>
         other_items (m_tv t2) = other_items (m_tv t1) @ items2"
      by blast
  qed
qed

text \<open>C1 as the specification states it fails twice. The call \<^verbatim>\<open>g(a, b)\<close> is lowered to a
  \<open>Call\<close> with the argument list \<open>[b, a]\<close>, not \<open>[a, b]\<close>. And the instructions that
  the arguments of \<^verbatim>\<open>g(1, a + b)\<close> emit are not in reverse source order: the \<open>Const\<close>
  of the first argument is inserted at \<^verbatim>\<open>m_const_insert_pos\<close>, ahead of the \<open>Arith\<close>
  of the second argument.\<close>

theorem call_args_order_counterexample:
  "lower example_call_program =
     Inr \<lparr>structs = Map.empty,
          externs = [''g'' \<mapsto> LIR_FnType [LIR_IntType, LIR_IntType] LIR_IntType],
          funptrs = Map.empty,
          functions' = [''main'' \<mapsto> example_call_lowered]\<rparr> \<and>
   bb_insts (the (fn_body example_call_lowered ''main_entry'')) = [Call None ''g'' [''b'', ''a'']] \<and>
   bb_insts (the (fn_body example_call_lowered ''main_entry'')) \<noteq> [Call None ''g'' [''a'', ''b'']] \<and>
   lower example_call_literal_program =
     Inr \<lparr>structs = Map.empty,
          externs = [''g'' \<mapsto> LIR_FnType [LIR_IntType, LIR_IntType] LIR_IntType],
          funptrs = Map.empty,
          functions' = [''main'' \<mapsto> example_call_literal_lowered]\<rparr> \<and>
   bb_insts (the (fn_body example_call_literal_lowered ''main_entry'')) =
     [Const ''_const_1'' 1, Arith ''_tmp0'' Arith_Add ''a'' ''b'',
      Call None ''g'' [''_tmp0'', ''_const_1'']]"
proof (intro conjI)
  show "lower example_call_program =
     Inr \<lparr>structs = Map.empty,
          externs = [''g'' \<mapsto> LIR_FnType [LIR_IntType, LIR_IntType] LIR_IntType],
          funptrs = Map.empty,
          functions' = [''main'' \<mapsto> example_call_lowered]\<rparr>"
    by (simp add: lower_def example_call_program_def example_call_def
      program_shell_def add_function_shell_def add_extern_def visit_FunctionDef_def lower_body_def
      add_implicit_ret_def has_ret_def build_cfg_def block_at_def put_block_def
      store_current_fun_def example_call_lowered_def eval_simps Let_def)
  show "lower example_call_literal_program =
     Inr \<lparr>structs = Map.empty,
          externs = [''g'' \<mapsto> LIR_FnType [LIR_IntType, LIR_IntType] LIR_IntType],
          funptrs = Map.empty,
          functions' = [''main'' \<mapsto> example_call_literal_lowered]\<rparr>"
    by (simp add: lower_def example_call_literal_program_def example_call_literal_def
      program_shell_def add_function_shell_def add_extern_def visit_FunctionDef_def lower_body_def
      add_implicit_ret_def has_ret_def build_cfg_def block_at_def put_block_def
      store_current_fun_def example_call_literal_lowered_def is_arith_op_def convert_arith_op_def
      const_var_def const_name_def to_string_def insert_at_def fresh_non_inner_var_def
      eval_simps Let_def)
qed (simp_all add: example_call_lowered_def example_call_literal_lowered_def)

theorem call_args_right_to_left_witness:
  "lower_stmt (CallStmt (FunCall (Val (Id_place ''g'')) [Val (Id_place ''a''), Val (Id_place ''b'')]))
     (initial_lowerer empty_program)
   = Inr ((initial_lowerer empty_program)\<lparr>m_tv := [TvInst (Call None ''g'' [''b'', ''a''])]\<rparr>) \<and>
   (\<exists>t1 t2 items1 items2.
      lower_exp (BinOp Op_Add (Val (Id_place ''a'')) (Val (Id_place ''b'')))
        (enter_function ''main'' (function_shell example_call_literal)
           (initial_lowerer (program_shell example_call_literal_program))) = Inr (''_tmp0'', t1) \<and>
      lower_each [Num 1] [''_tmp0''] t1 = Inr ([''_tmp0'', ''_const_1''], t2) \<and>
      other_items (m_tv t1) = [TvLabel ''main_entry''] @ items1 \<and>
      other_items (m_tv t2) = other_items (m_tv t1) @ items2 \<and>
      items1 = [TvInst (Arith ''_tmp0'' Arith_Add ''a'' ''b'')] \<and>
      items2 = [] \<and>
      m_tv t2 = [TvLabel ''main_entry'', TvInst (Const ''_const_1'' 1),
                 TvInst (Arith ''_tmp0'' Arith_Add ''a'' ''b'')])"
proof -
  let ?s0 = "enter_function ''main'' (function_shell example_call_literal)
               (initial_lowerer (program_shell example_call_literal_program))"
  let ?a = "BinOp Op_Add (Val (Id_place ''a'')) (Val (Id_place ''b''))"
  have "\<exists>t2. lower_each [?a, Num 1] [] ?s0 = Inr ([''_tmp0'', ''_const_1''], t2)"
    by (simp add: is_arith_op_def convert_arith_op_def const_var_def const_name_def to_string_def
        fresh_non_inner_var_def eval_simps Let_def)
  then obtain t2 where h: "lower_each [?a, Num 1] [] ?s0 = Inr ([''_tmp0'', ''_const_1''], t2)"
    by blast
  note t = call_args_right_to_left [where callee = "Val (Id_place ''g'')" and args = "[]"
      and s = "initial_lowerer empty_program" and g = "''g''" and vs = "[''a'', ''b'']"
      and a = ?a and as = "[Num 1]" and rs = "[]" and t = ?s0
      and ys = "[''_tmp0'', ''_const_1'']" and ?t2.0 = t2]
  from t h obtain r t1 items1 items2 where
    e: "lower_exp ?a ?s0 = Inr (r, t1)"
    and l: "lower_each [Num 1] ([] @ [r]) t1 = Inr ([''_tmp0'', ''_const_1''], t2)"
    and i1: "other_items (m_tv t1) = other_items (m_tv ?s0) @ items1"
    and i2: "other_items (m_tv t2) = other_items (m_tv t1) @ items2"
    by blast
  have r: "r = ''_tmp0''"
    using e by (auto simp: is_arith_op_def convert_arith_op_def fresh_non_inner_var_def
        eval_simps Let_def)
  have tv1: "m_tv t1 = [TvLabel ''main_entry'', TvInst (Arith ''_tmp0'' Arith_Add ''a'' ''b'')]"
    using e by (auto simp: is_arith_op_def convert_arith_op_def fresh_non_inner_var_def
        eval_simps Let_def)
  have tv2: "m_tv t2 = [TvLabel ''main_entry'', TvInst (Const ''_const_1'' 1),
                 TvInst (Arith ''_tmp0'' Arith_Add ''a'' ''b'')]"
    using h by (auto simp: is_arith_op_def convert_arith_op_def const_var_def const_name_def to_string_def
        fresh_non_inner_var_def insert_at_def example_call_literal_def eval_simps Let_def)
  have s0: "other_items (m_tv ?s0) = [TvLabel ''main_entry'']"
    by (simp add: other_items_def is_const_item_def eval_simps)
  have it1: "items1 = [TvInst (Arith ''_tmp0'' Arith_Add ''a'' ''b'')]"
    using i1 s0 tv1 by (simp add: other_items_def is_const_item_def)
  have it2: "items2 = []"
    using i2 tv1 tv2 by (simp add: other_items_def is_const_item_def)
  have first: "lower_stmt (CallStmt (FunCall (Val (Id_place ''g''))
                 [Val (Id_place ''a''), Val (Id_place ''b'')])) (initial_lowerer empty_program)
      = Inr ((initial_lowerer empty_program)\<lparr>m_tv := [TvInst (Call None ''g'' [''b'', ''a''])]\<rparr>)"
    using t by (simp add: initial_lowerer_def)
  show ?thesis
    using first e l i1 i2 r s0 it1 it2 tv2 by auto
qed

subsection \<open>Identifier places\<close>

text \<open>
  C10. Invoking the place-lowering judgment on an \<open>Id\<close> place raises an error and
  produces no result. The branch is never reached from a statement or an expression:
  \<open>Assign\<close> lowers an \<open>Id\<close> left-hand side with a \<open>Copy\<close> and \<open>Val\<close> returns the
  name of an \<open>Id\<close> operand without calling the place judgment, so that no lowering of
  any statement, expression or other place ends in that error.
\<close>

theorem id_place_never_lowered:
  "lower_place (Id_place name) s = Inl (IdLoweredAsPlace, s) \<and>
   lower_exp (Val (Id_place name)) s = Inr (name, s) \<and>
   lower_stmt (Assign (Id_place name) e) s =
     (case lower_exp e s of
        Inl err \<Rightarrow> Inl err
      | Inr (x, s1) \<Rightarrow> Inr (s1\<lparr>m_tv := m_tv s1 @ [TvInst (Copy name x)]\<rparr>)) \<and>
   (\<forall>s1. lower_stmt st s \<noteq> Inl (IdLoweredAsPlace, s1)) \<and>
   (\<forall>s1. lower_exp e s \<noteq> Inl (IdLoweredAsPlace, s1)) \<and>
   (\<forall>s1. lower_place (Deref e) s \<noteq> Inl (IdLoweredAsPlace, s1)) \<and>
   (\<forall>s1. lower_place (ArrayAccess e e2) s \<noteq> Inl (IdLoweredAsPlace, s1)) \<and>
   (\<forall>s1. lower_place (FieldAccess e fld) s \<noteq> Inl (IdLoweredAsPlace, s1))"
proof -
  have st: "ensures_stmt (\<lambda>e. e \<noteq> IdLoweredAsPlace) (\<lambda>s. True) (lower_stmt st s)" for st s
    by (rule lower_stmt_ensures) simp_all
  have ex: "ensures (\<lambda>e. e \<noteq> IdLoweredAsPlace) (\<lambda>s. True) (lower_exp e s)" for e s
    by (rule lowering_ensures) simp_all
  have pl: "cast_Id p = None \<Longrightarrow> ensures (\<lambda>e. e \<noteq> IdLoweredAsPlace) (\<lambda>s. True) (lower_place p s)"
    for p s
    by (rule lowering_ensures) simp_all
  have "lower_stmt st s \<noteq> Inl (IdLoweredAsPlace, s1)" for s1
    using st [of st s] by auto
  moreover have "lower_exp e s \<noteq> Inl (IdLoweredAsPlace, s1)" for s1
    using ex [of e s] by auto
  moreover have "lower_place (Deref e) s \<noteq> Inl (IdLoweredAsPlace, s1)" for s1
    using pl [of "Deref e" s] by auto
  moreover have "lower_place (ArrayAccess e e2) s \<noteq> Inl (IdLoweredAsPlace, s1)" for s1
    using pl [of "ArrayAccess e e2" s] by auto
  moreover have "lower_place (FieldAccess e fld) s \<noteq> Inl (IdLoweredAsPlace, s1)" for s1
    using pl [of "FieldAccess e fld" s] by auto
  moreover have "lower_stmt (Assign (Id_place name) e) s =
     (case lower_exp e s of
        Inl err \<Rightarrow> Inl err
      | Inr (x, s1) \<Rightarrow> Inr (s1\<lparr>m_tv := m_tv s1 @ [TvInst (Copy name x)]\<rparr>))"
    by (simp add: emit_def release_def split: sum.splits)
  ultimately show ?thesis by simp
qed

theorem id_place_never_lowered_witness:
  "lower_place (Id_place ''x'') (initial_lowerer empty_program)
     = Inl (IdLoweredAsPlace, initial_lowerer empty_program) \<and>
   lower_exp (Val (Id_place ''x'')) (initial_lowerer empty_program)
     = Inr (''x'', initial_lowerer empty_program) \<and>
   lower_stmt (Assign (Id_place ''x'') (Val (Id_place ''y''))) (initial_lowerer empty_program)
     = Inr ((initial_lowerer empty_program)\<lparr>m_tv := [TvInst (Copy ''x'' ''y'')]\<rparr>)"
  using id_place_never_lowered
          [of "''x''" "initial_lowerer empty_program" "Val (Id_place ''y'')" Break NilExp "''f''"]
  by (simp add: initial_lowerer_def)

subsection \<open>Constant holders\<close>

lemma is_const_name_const_name [simp]: "is_const_name (const_name n)"
  by (simp add: is_const_name_def const_name_def)

lemma not_const_name_fresh [simp]:
  "\<not> is_const_name (CHR ''_'' # CHR ''t'' # x)" "\<not> is_const_name (CHR ''_'' # CHR ''i'' # x)"
  by (simp_all add: is_const_name_def)

lemma const_inv_emit: "const_inv l s \<Longrightarrow> \<not> is_const_item x \<Longrightarrow> const_inv l (emit x s)"
  unfolding const_inv_def emit_def
  apply (elim exE conjE)
  subgoal for cs rest
    apply (rule exI [of _ cs])
    apply (rule exI [of _ "rest @ [x]"])
    apply simp
    done
  done

lemma const_inv_fresh_non_inner:
  "const_inv l s \<Longrightarrow> const_inv l (snd (fresh_non_inner_var t s))"
  unfolding const_inv_def fresh_non_inner_var_def set_local_def Let_def
  apply (elim exE conjE)
  subgoal for cs rest
    apply (rule exI [of _ cs])
    apply (rule exI [of _ rest])
    apply auto
    done
  done

lemma const_inv_fresh_inner:
  "const_inv l s \<Longrightarrow> const_inv l (snd (fresh_inner_var t s))"
  unfolding const_inv_def fresh_inner_var_def set_local_def Let_def
  apply (elim exE conjE)
  subgoal for cs rest
    apply (rule exI [of _ cs])
    apply (rule exI [of _ rest])
    apply auto
    done
  done

lemma const_inv_new_label: "const_inv l s \<Longrightarrow> const_inv l (snd (new_label p s))"
  by (simp add: const_inv_def new_label_def)

lemma const_inv_push_loop: "const_inv l s \<Longrightarrow> const_inv l (push_loop h e s)"
  by (simp add: const_inv_def push_loop_def)

lemma const_inv_pop_loop: "const_inv l s \<Longrightarrow> const_inv l (pop_loop s)"
  by (simp add: const_inv_def pop_loop_def)

lemma const_inv_const_var: "const_inv l s \<Longrightarrow> const_inv l (snd (const_var n s))"
proof (cases "fn_locals (m_current_fun s) (const_name n) = None")
  case False
  assume "const_inv l s"
  then show ?thesis using False by (auto simp: const_var_def Let_def)
next
  case True
  assume "const_inv l s"
  then obtain cs rest where
    tv: "m_tv s = TvLabel l # map TvInst cs @ rest"
    and pos: "m_const_insert_pos s = Suc (length cs)"
    and cs: "\<forall>c \<in> set cs. \<exists>k. c = Const (const_name k) k"
    and rest: "\<forall>x \<in> set rest. \<not> is_const_item x"
    and dist: "distinct (map const_inst_name cs)"
    and loc: "\<forall>x. is_const_name x \<longrightarrow>
           fn_locals (m_current_fun s) x =
             (if Some x \<in> const_inst_name ` set cs then Some LIR_IntType else None)"
    unfolding const_inv_def by blast
  have new: "Some (const_name n) \<notin> const_inst_name ` set cs"
    using loc True by (metis is_const_name_const_name option.distinct(1))
  have ins: "insert_at (Suc (length cs)) (TvInst (Const (const_name n) n)) (TvLabel l # map TvInst cs @ rest)
      = TvLabel l # map TvInst (cs @ [Const (const_name n) n]) @ rest"
    by (simp add: insert_at_def)
  show ?thesis
    unfolding const_inv_def
    apply (rule exI [of _ "cs @ [Const (const_name n) n]"])
    apply (rule exI [of _ rest])
    using True tv pos cs rest dist loc new ins
    apply (auto simp: const_var_def Let_def set_local_def)
    done
qed

lemma const_insts_append [simp]: "const_insts (xs @ ys) = const_insts xs @ const_insts ys"
  by (simp add: const_insts_def)

lemma const_insts_Cons_other [simp]:
  "\<not> is_const_item x \<Longrightarrow> const_insts (x # xs) = const_insts xs"
  by (auto simp: const_insts_def is_const_item_def split: translation_item.splits inst.splits)

lemma const_insts_Nil [simp]: "const_insts [] = []"
  by (simp add: const_insts_def)

lemma const_insts_no_const: "\<forall>x \<in> set xs. \<not> is_const_item x \<Longrightarrow> const_insts xs = []"
  by (induction xs) simp_all

lemma const_insts_consts:
  "\<forall>c \<in> set cs. \<exists>k. c = Const (const_name k) k \<Longrightarrow> const_insts (map TvInst cs) = cs"
  by (induction cs) (auto simp: const_insts_def)

lemma const_insts_shape:
  assumes "tv = TvLabel l # map TvInst cs @ rest"
    and "\<forall>c \<in> set cs. \<exists>k. c = Const (const_name k) k"
    and "\<forall>x \<in> set rest. \<not> is_const_item x"
  shows "const_insts tv = cs"
  using assms by (simp add: const_insts_consts const_insts_no_const is_const_item_def)

lemma holds_consts_emit:
  "holds_consts l cs s \<Longrightarrow> \<not> is_const_item x \<Longrightarrow> holds_consts l cs (emit x s)"
  by (simp add: holds_consts_def const_inv_emit) (simp add: emit_def)

lemma holds_consts_fresh_non_inner:
  "holds_consts l cs s \<Longrightarrow> holds_consts l cs (snd (fresh_non_inner_var t s))"
  by (simp add: holds_consts_def const_inv_fresh_non_inner)
     (simp add: fresh_non_inner_var_def set_local_def Let_def)

lemma holds_consts_fresh_inner:
  "holds_consts l cs s \<Longrightarrow> holds_consts l cs (snd (fresh_inner_var t s))"
  by (simp add: holds_consts_def const_inv_fresh_inner)
     (simp add: fresh_inner_var_def set_local_def Let_def)

lemma holds_consts_new_label:
  "holds_consts l cs s \<Longrightarrow> holds_consts l cs (snd (new_label p s))"
  by (simp add: holds_consts_def const_inv_new_label) (simp add: new_label_def)

lemma holds_consts_push_loop:
  "holds_consts l cs s \<Longrightarrow> holds_consts l cs (push_loop h e s)"
  by (simp add: holds_consts_def const_inv_push_loop) (simp add: push_loop_def)

lemma holds_consts_pop_loop:
  "holds_consts l cs s \<Longrightarrow> holds_consts l cs (pop_loop s)"
  by (simp add: holds_consts_def const_inv_pop_loop) (simp add: pop_loop_def)

lemma holds_consts_copy_true:
  "holds_consts l cs s \<Longrightarrow> holds_consts l cs (snd (copy_true_result z s))"
  by (auto simp: copy_true_result_def is_const_item_def split: prod.splits
      dest: holds_consts_fresh_non_inner [where t = "typeof s z"] intro!: holds_consts_emit)

lemma holds_consts_copy_false:
  "holds_consts l cs s \<Longrightarrow> holds_consts l cs (snd (copy_false_result x w s))"
  by (auto simp: copy_false_result_def is_const_item_def split: prod.splits
      dest: holds_consts_fresh_non_inner [where t = "typeof s w"] intro!: holds_consts_emit)

lemma holds_consts_const_var:
  assumes "holds_consts l cs s"
  shows "holds_consts l (add_holder cs n) (snd (const_var n s))"
proof -
  from assms have inv: "const_inv l s" and c: "const_insts (m_tv s) = cs"
    by (simp_all add: holds_consts_def)
  from inv obtain cs1 rest where
    tv: "m_tv s = TvLabel l # map TvInst cs1 @ rest"
    and pos: "m_const_insert_pos s = Suc (length cs1)"
    and cs: "\<forall>c \<in> set cs1. \<exists>k. c = Const (const_name k) k"
    and rest: "\<forall>x \<in> set rest. \<not> is_const_item x"
    and loc: "\<forall>x. is_const_name x \<longrightarrow>
           fn_locals (m_current_fun s) x =
             (if Some x \<in> const_inst_name ` set cs1 then Some LIR_IntType else None)"
    unfolding const_inv_def by blast
  have eq: "cs1 = cs" using const_insts_shape [OF tv cs rest] c by simp
  have inv2: "const_inv l (snd (const_var n s))" using inv by (rule const_inv_const_var)
  show ?thesis
  proof (cases "fn_locals (m_current_fun s) (const_name n) = None")
    case True
    then have new: "Some (const_name n) \<notin> const_inst_name ` set cs"
      using loc eq by (metis is_const_name_const_name option.distinct(1))
    have "m_tv (snd (const_var n s)) = TvLabel l # map TvInst (cs @ [Const (const_name n) n]) @ rest"
      using True tv pos eq by (simp add: const_var_def Let_def insert_at_def set_local_def)
    moreover have "\<forall>c \<in> set (cs @ [Const (const_name n) n]). \<exists>k. c = Const (const_name k) k"
      using cs eq by auto
    ultimately have "const_insts (m_tv (snd (const_var n s))) = cs @ [Const (const_name n) n]"
      using rest by (rule const_insts_shape)
    then show ?thesis using inv2 new by (simp add: holds_consts_def add_holder_def)
  next
    case False
    then have old: "Some (const_name n) \<in> const_inst_name ` set cs"
      using loc eq by (metis is_const_name_const_name)
    have "const_var n s = (const_name n, s)" using False by (auto simp: const_var_def Let_def)
    then show ?thesis using inv old c by (simp add: holds_consts_def add_holder_def)
  qed
qed

lemma ensures_bind2:
  assumes "ensures E P r" and "\<And>x s1. P s1 \<Longrightarrow> ensures E Q (k x s1)"
  shows "ensures E Q (case r of Inl err \<Rightarrow> Inl err | Inr (x, s1) \<Rightarrow> k x s1)"
  using assms by (cases r) auto

lemma ensures_prod2:
  "ensures E Q (k (fst f) (snd f)) \<Longrightarrow> ensures E Q (case f of (x, s1) \<Rightarrow> k x s1)"
  by (cases f) simp

lemma ensures_helper2:
  assumes "\<And>v. ensures (\<lambda>e. True) Q (k v)"
  shows "ensures (\<lambda>e. True) Q (case h of Inl e \<Rightarrow> Inl (e, s1) | Inr v \<Rightarrow> k v)"
  using assms by (cases h) auto

lemma holds_consts_const_var_eq:
  "holds_consts l cs s \<Longrightarrow> cs1 = add_holder cs n \<Longrightarrow> holds_consts l cs1 (snd (const_var n s))"
  by (simp add: holds_consts_const_var)

lemma holds_consts_release:
  "holds_consts l cs s \<Longrightarrow> holds_consts l cs (release vs s)"
  by (simp add: release_def)

lemma lowering_holds_consts_aux:
  "(\<forall>e s cs. exp_weight e \<le> n \<longrightarrow> holds_consts l cs s \<longrightarrow>
      ensures (\<lambda>e. True) (holds_consts l (foldl add_holder cs (literal_uses_exp e))) (lower_exp e s)) \<and>
   (\<forall>p s cs. place_weight p \<le> n \<longrightarrow> holds_consts l cs s \<longrightarrow>
      ensures (\<lambda>e. True) (holds_consts l (foldl add_holder cs (literal_uses_place p))) (lower_place p s)) \<and>
   (\<forall>fc s cs. funcall_weight fc \<le> n \<longrightarrow> holds_consts l cs s \<longrightarrow>
      ensures (\<lambda>e. True) (holds_consts l (foldl add_holder cs (literal_uses_funcall fc)))
        (visit_FunCall fc s)) \<and>
   (\<forall>as s cs. sum_list (map exp_weight as) + length as \<le> n \<longrightarrow> holds_consts l cs s \<longrightarrow>
      ensures (\<lambda>e. True)
        (holds_consts l (foldl add_holder cs (concat (map literal_uses_exp (rev as)))))
        (lower_args as s))"
proof (induction n)
  case 0
  have a: "exp_weight e > 0" for e by (cases e) auto
  have b: "place_weight e > 0" for e by (cases e) auto
  have c: "funcall_weight e > 0" for e by (cases e) auto
  have d: "sum_list (map exp_weight as) + length as \<le> 0 \<Longrightarrow> as = []" for as by (cases as) auto
  show ?case
  proof (intro conjI allI impI)
    fix e :: exp assume "exp_weight e \<le> 0"
    then show "ensures (\<lambda>e. True) (holds_consts l (foldl add_holder cs (literal_uses_exp e))) (lower_exp e s)" for s cs
      using a[of e] by simp
  next
    fix e :: place assume "place_weight e \<le> 0"
    then show "ensures (\<lambda>e. True) (holds_consts l (foldl add_holder cs (literal_uses_place e))) (lower_place e s)" for s cs
      using b[of e] by simp
  next
    fix e :: funcall assume "funcall_weight e \<le> 0"
    then show "ensures (\<lambda>e. True) (holds_consts l (foldl add_holder cs (literal_uses_funcall e))) (visit_FunCall e s)" for s cs
      using c[of e] by simp
  next
    fix as :: "exp list" and s cs assume "sum_list (map exp_weight as) + length as \<le> 0" and "holds_consts l cs s"
    then show "ensures (\<lambda>e. True)
        (holds_consts l (foldl add_holder cs (concat (map literal_uses_exp (rev as)))))
        (lower_args as s)" using d[of as] by simp
  qed
next
  case (Suc n)
  then have IHe: "\<And>e s cs. exp_weight e \<le> n \<Longrightarrow> holds_consts l cs s \<Longrightarrow>
      ensures (\<lambda>e. True) (holds_consts l (foldl add_holder cs (literal_uses_exp e))) (lower_exp e s)"
    and IHp: "\<And>p s cs. place_weight p \<le> n \<Longrightarrow> holds_consts l cs s \<Longrightarrow>
      ensures (\<lambda>e. True) (holds_consts l (foldl add_holder cs (literal_uses_place p))) (lower_place p s)"
    and IHf: "\<And>fc s cs. funcall_weight fc \<le> n \<Longrightarrow> holds_consts l cs s \<Longrightarrow>
      ensures (\<lambda>e. True) (holds_consts l (foldl add_holder cs (literal_uses_funcall fc)))
        (visit_FunCall fc s)"
    and IHa: "\<And>as s cs. sum_list (map exp_weight as) + length as \<le> n \<Longrightarrow> holds_consts l cs s \<Longrightarrow>
      ensures (\<lambda>e. True)
        (holds_consts l (foldl add_holder cs (concat (map literal_uses_exp (rev as)))))
        (lower_args as s)"
    by blast+
  note binds = ensures_bind2 [OF IHe] ensures_bind2 [OF IHp] ensures_bind2 [OF IHf]
    ensures_bind2 [OF IHa]
  note steps = binds ensures_prod2 ensures_helper2 ensures_Inr ensures_Inr_pair ensures_Inl
    holds_consts_emit holds_consts_fresh_non_inner holds_consts_fresh_inner
    holds_consts_new_label holds_consts_copy_true holds_consts_copy_false
    holds_consts_const_var_eq holds_consts_release conjI impI allI TrueI
  have E1: "ensures (\<lambda>e. True) (holds_consts l (foldl add_holder cs (literal_uses_exp e))) (lower_exp e s)"
    if w: "exp_weight e \<le> Suc n" and i: "holds_consts l cs s" for e s cs
  proof (cases e)
    case (Val p)
    show ?thesis
    proof (cases p)
      case (Id_place nm)
      then show ?thesis using Val i by simp
    next
      case (Deref a)
      show ?thesis
        using Val Deref w i
        apply (simp add: release_def)
        apply ((rule steps | assumption | (simp add: is_const_item_def; fail))+)
        done
    next
      case (ArrayAccess a ix)
      show ?thesis
        using Val ArrayAccess w i
        apply (simp add: release_def del: lower_place.simps)
        apply ((rule steps | assumption | (simp add: is_const_item_def; fail))+)
        done
    next
      case (FieldAccess a f)
      show ?thesis
        using Val FieldAccess w i
        apply (simp add: release_def del: lower_place.simps)
        apply ((rule steps | assumption | (simp add: is_const_item_def; fail))+)
        done
    qed
  next
    case (Num v)
    then show ?thesis using i by (simp add: holds_consts_const_var ensures_Inr_pair)
  next
    case NilExp
    then show ?thesis using i by simp
  next
    case (Select g tt ff)
    show ?thesis
      using Select w i
      apply (simp add: release_def)
      apply ((rule steps | assumption | (simp add: is_const_item_def; fail))+)
      done
  next
    case (UnOp op eo)
    show ?thesis
    proof (cases op)
      case Op_Neg
      show ?thesis
      proof (cases "cast_Num eo")
        case (Some v)
        then show ?thesis using UnOp Op_Neg i by (simp add: holds_consts_const_var ensures_Inr_pair)
      next
        case None
        show ?thesis
        proof (cases eo)
          case None
          then show ?thesis using UnOp Op_Neg by (simp add: ensures_prod2)
        next
          case (Some a)
          show ?thesis
            using UnOp Op_Neg Some None w i
            apply (simp add: release_def)
            apply ((rule steps | assumption | (simp add: is_const_item_def; fail))+)
            done
        qed
      qed
    next
      case Op_Not
      show ?thesis
      proof (cases eo)
        case None
        then show ?thesis using UnOp Op_Not by simp
      next
        case (Some a)
        have "exp_weight (BinOp Op_Eq a (Num 0)) \<le> n"
          using UnOp Some w by simp
        then show ?thesis
          using UnOp Op_Not Some i IHe[of "BinOp Op_Eq a (Num 0)" cs s] by (simp del: lower_exp.simps(7))
      qed
    qed
  next
    case (BinOp op a b)
    consider (ar) "is_arith_op op" "op \<noteq> Op_And"
      | (rel) "\<not> is_arith_op op" "is_rel_op op" "op \<noteq> Op_And"
      | (conj) "\<not> is_arith_op op" "\<not> is_rel_op op" "op = Op_And"
      | (disj) "\<not> is_arith_op op" "\<not> is_rel_op op" "op \<noteq> Op_And"
      by (cases op) (simp_all add: is_arith_op_def is_rel_op_def)
    then show ?thesis
    proof cases
      case ar
      show ?thesis
        using BinOp w i ar
        apply simp
        apply ((rule steps | assumption | (simp add: is_const_item_def; fail))+)
        done
    next
      case rel
      show ?thesis
        using BinOp w i rel
        apply simp
        apply ((rule steps | assumption | (simp add: is_const_item_def; fail))+)
        done
    next
      case conj
      have z: "exp_weight (Num 0) \<le> n" using BinOp w by simp
      show ?thesis
        using BinOp w i conj z
        apply (simp del: lower_exp.simps(2) exp_weight.simps(2))
        apply ((rule steps | assumption | (simp add: is_const_item_def; fail))+)
        done
    next
      case disj
      show ?thesis
        using BinOp w i disj
        apply simp
        apply ((rule steps | assumption | (simp add: is_const_item_def; fail))+)
        done
    qed
  next
    case (NewSingle t)
    show ?thesis
      using NewSingle w i
      apply (simp add: release_def)
      apply ((rule steps | assumption | (simp add: is_const_item_def; fail))+)
      done
  next
    case (NewArray t amt)
    show ?thesis
      using NewArray w i
      apply (simp add: release_def)
      apply ((rule steps | assumption | (simp add: is_const_item_def; fail))+)
      done
  next
    case (CallExp fc)
    show ?thesis
      using CallExp w i by (simp add: IHf)
  qed
  have E2: "ensures (\<lambda>e. True) (holds_consts l (foldl add_holder cs (literal_uses_place p))) (lower_place p s)"
    if w: "place_weight p \<le> Suc n" and i: "holds_consts l cs s" for p s cs
  proof (cases p)
    case (Id_place nm)
    then show ?thesis by simp
  next
    case (Deref a)
    then show ?thesis using w i by (simp add: IHe)
  next
    case (ArrayAccess a ix)
    show ?thesis
      using ArrayAccess w i
      apply simp
      apply ((rule steps | assumption | (simp add: is_const_item_def; fail))+)
      done
  next
    case (FieldAccess a f)
    show ?thesis
      using FieldAccess w i
      apply simp
      apply ((rule steps | assumption | (simp add: is_const_item_def; fail))+)
      apply (simp split: lir_type.split)
      apply ((rule steps | assumption | (simp add: is_const_item_def; fail))+)
      done
  qed
  have E3: "ensures (\<lambda>e. True) (holds_consts l (foldl add_holder cs (literal_uses_funcall fc)))
        (visit_FunCall fc s)"
    if w: "funcall_weight fc \<le> Suc n" and i: "holds_consts l cs s" for fc s cs
  proof (cases fc)
    case (FunCall callee args)
    show ?thesis
      using FunCall w i
      apply simp
      apply ((rule steps | assumption | (simp add: is_const_item_def; fail))+)
      done
  qed
  have E4: "ensures (\<lambda>e. True)
        (holds_consts l (foldl add_holder cs (concat (map literal_uses_exp (rev as)))))
        (lower_args as s)"
    if w: "sum_list (map exp_weight as) + length as \<le> Suc n" and i: "holds_consts l cs s" for as s cs
  proof (cases as)
    case Nil
    then show ?thesis using i by simp
  next
    case (Cons a rest)
    show ?thesis
      using Cons w i
      apply simp
      apply ((rule steps | assumption | (simp add: is_const_item_def; fail))+)
      done
  qed
  show ?case using E1 E2 E3 E4 by blast
qed

lemma lowering_holds_consts:
  assumes "holds_consts l cs s"
  shows "ensures (\<lambda>e. True) (holds_consts l (foldl add_holder cs (literal_uses_exp e))) (lower_exp e s)"
    and "ensures (\<lambda>e. True) (holds_consts l (foldl add_holder cs (literal_uses_place p))) (lower_place p s)"
    and "ensures (\<lambda>e. True)
        (holds_consts l (foldl add_holder cs (concat (map literal_uses_exp (rev as)))))
        (lower_args as s)"
proof -
  show "ensures (\<lambda>e. True) (holds_consts l (foldl add_holder cs (literal_uses_exp e))) (lower_exp e s)"
    using lowering_holds_consts_aux [of "exp_weight e" l] assms by blast
  show "ensures (\<lambda>e. True) (holds_consts l (foldl add_holder cs (literal_uses_place p))) (lower_place p s)"
    using lowering_holds_consts_aux [of "place_weight p" l] assms by blast
  show "ensures (\<lambda>e. True)
        (holds_consts l (foldl add_holder cs (concat (map literal_uses_exp (rev as)))))
        (lower_args as s)"
    using lowering_holds_consts_aux [of "sum_list (map exp_weight as) + length as" l] assms by blast
qed

lemma ensures_stmt_bind_exp2:
  assumes "ensures E P r" and "\<And>x s1. P s1 \<Longrightarrow> ensures_stmt E Q (k x s1)"
  shows "ensures_stmt E Q (case r of Inl err \<Rightarrow> Inl err | Inr (x, s1) \<Rightarrow> k x s1)"
  using assms by (cases r) auto

lemma ensures_stmt_bind2:
  assumes "ensures_stmt E P r" and "\<And>s1. P s1 \<Longrightarrow> ensures_stmt E Q (k s1)"
  shows "ensures_stmt E Q (case r of Inl err \<Rightarrow> Inl err | Inr s1 \<Rightarrow> k s1)"
  using assms by (cases r) auto

lemma ensures_stmt_prod2:
  "ensures_stmt E Q (k (fst f) (snd f)) \<Longrightarrow> ensures_stmt E Q (case f of (x, s1) \<Rightarrow> k x s1)"
  by (cases f) simp

lemma lower_stmt_holds_consts_aux:
  "(\<forall>st s cs. size st < n \<longrightarrow> holds_consts l cs s \<longrightarrow>
      ensures_stmt (\<lambda>e. True) (holds_consts l (foldl add_holder cs (literal_uses_stmt st)))
        (lower_stmt st s)) \<and>
   (\<forall>sts s cs. size_list size sts < n \<longrightarrow> holds_consts l cs s \<longrightarrow>
      ensures_stmt (\<lambda>e. True)
        (holds_consts l (foldl add_holder cs (concat (map literal_uses_stmt sts))))
        (lower_stmts sts s))"
proof (induction n)
  case 0
  show ?case by simp
next
  case (Suc n)
  then have IHs: "\<And>st s cs. size st < n \<Longrightarrow> holds_consts l cs s \<Longrightarrow>
      ensures_stmt (\<lambda>e. True) (holds_consts l (foldl add_holder cs (literal_uses_stmt st)))
        (lower_stmt st s)"
    and IHl: "\<And>sts s cs. size_list size sts < n \<Longrightarrow> holds_consts l cs s \<Longrightarrow>
      ensures_stmt (\<lambda>e. True)
        (holds_consts l (foldl add_holder cs (concat (map literal_uses_stmt sts))))
        (lower_stmts sts s)"
    by blast+
  note lw = lowering_holds_consts
  note binds = ensures_stmt_bind_exp2 [OF lw(1)] ensures_stmt_bind_exp2 [OF lw(2)]
    ensures_stmt_bind_exp2 [OF lw(3)] ensures_stmt_bind2 [OF IHs] ensures_stmt_bind2 [OF IHl]
  note steps = binds ensures_stmt_prod2 ensures_stmt_Inr
    holds_consts_emit holds_consts_new_label holds_consts_push_loop holds_consts_pop_loop
    holds_consts_release conjI impI allI TrueI
  have S1: "ensures_stmt (\<lambda>e. True) (holds_consts l (foldl add_holder cs (literal_uses_stmt st)))
        (lower_stmt st s)"
    if w: "size st < Suc n" and i: "holds_consts l cs s" for st s cs
  proof (cases st)
    case (Stmts sts)
    then show ?thesis using w i by (simp add: IHl)
  next
    case (Assign p e)
    show ?thesis
    proof (cases "cast_Id p")
      case None
      show ?thesis
        using Assign None w i
        apply simp
        apply ((rule steps | assumption | (simp add: is_const_item_def; fail))+)
        done
    next
      case (Some nm)
      then have "literal_uses_place p = []" by (cases p) simp_all
      then show ?thesis
        using Assign Some w i
        apply simp
        apply ((rule steps | assumption | (simp add: is_const_item_def; fail))+)
        done
    qed
  next
    case (CallStmt fc)
    show ?thesis
    proof (cases fc)
      case (FunCall callee args)
      show ?thesis
        using CallStmt FunCall w i
        apply simp
        apply ((rule steps | assumption | (simp add: is_const_item_def; fail))+)
        done
    qed
  next
    case (If_stmt g tt ff)
    show ?thesis
    proof (cases ff)
      case None
      show ?thesis
        using If_stmt None w i
        apply simp
        apply ((rule steps | assumption | (simp add: is_const_item_def; fail))+)
        apply simp
        apply ((rule steps | assumption | (simp add: is_const_item_def; fail))+)
        done
    next
      case (Some f)
      show ?thesis
        using If_stmt Some w i
        apply simp
        apply ((rule steps | assumption | (simp add: is_const_item_def; fail))+)
        apply simp
        apply ((rule steps | assumption | (simp add: is_const_item_def; fail))+)
        done
    qed
  next
    case (While_stmt g body)
    show ?thesis
      using While_stmt w i
      apply simp
      apply ((rule steps | assumption | (simp add: is_const_item_def; fail))+)
      done
  next
    case Break
    then show ?thesis using i
      by (auto simp: visit_Break_def is_const_item_def intro!: holds_consts_emit)
  next
    case Continue
    then show ?thesis using i
      by (auto simp: visit_Continue_def is_const_item_def intro!: holds_consts_emit)
  next
    case (Return eo)
    show ?thesis
    proof (cases eo)
      case None
      then show ?thesis using Return i
        by (auto simp: is_const_item_def intro!: holds_consts_emit)
    next
      case (Some e)
      show ?thesis
        using Return Some w i
        apply simp
        apply ((rule steps | assumption | (simp add: is_const_item_def; fail))+)
        done
    qed
  qed
  have S2: "ensures_stmt (\<lambda>e. True)
        (holds_consts l (foldl add_holder cs (concat (map literal_uses_stmt sts))))
        (lower_stmts sts s)"
    if w: "size_list size sts < Suc n" and i: "holds_consts l cs s" for sts s cs
  proof (cases sts)
    case Nil
    then show ?thesis using i by simp
  next
    case (Cons a rest)
    have t: "ensures_stmt (\<lambda>e. True)
        (holds_consts l (foldl add_holder cs1 (concat (map literal_uses_stmt rest))))
        (lower_stmts rest s1)" if "holds_consts l cs1 s1" for cs1 s1
      using IHl [of rest cs1 s1] that Cons w by simp
    show ?thesis
      using Cons w i
      apply simp
      apply (rule ensures_stmt_bind2 [OF IHs])
        apply simp
       apply assumption
      apply (erule t)
      done
  qed
  show ?case using S1 S2 by blast
qed

lemma lower_stmt_holds_consts:
  assumes "holds_consts l cs s" and "lower_stmt st s = Inr s1"
  shows "holds_consts l (foldl add_holder cs (literal_uses_stmt st)) s1"
proof -
  have "ensures_stmt (\<lambda>e. True) (holds_consts l (foldl add_holder cs (literal_uses_stmt st)))
        (lower_stmt st s)"
    using lower_stmt_holds_consts_aux [of "Suc (size st)" l] assms(1) by blast
  then show ?thesis using assms(2) by simp
qed

lemma lower_stmt_const_inv:
  assumes "const_inv l s" and "lower_stmt st s = Inr s1"
  shows "const_inv l s1"
proof -
  have "ensures_stmt (\<lambda>e. True) (const_inv l) (lower_stmt st s)"
    by (rule lower_stmt_ensures [where I = "const_inv l"])
       (simp_all add: const_inv_emit const_inv_fresh_non_inner const_inv_fresh_inner
          const_inv_new_label const_inv_push_loop const_inv_pop_loop const_inv_const_var assms)
  then show ?thesis using assms by simp
qed

lemma const_inv_enter_function:
  assumes "\<forall>x. is_const_name x \<longrightarrow> fn_locals f x = None"
  shows "const_inv (fname @ ''_entry'') (enter_function fname f s)"
  unfolding const_inv_def enter_function_def emit_def
  apply (rule exI [of _ "[]"])
  apply (rule exI [of _ "[]"])
  using assms apply simp
  done

lemma const_inv_add_implicit_ret: "const_inv l s \<Longrightarrow> const_inv l (add_implicit_ret s)"
  by (simp add: add_implicit_ret_def const_inv_emit is_const_item_def)


lemma block_at_put_block [simp]:
  "block_at (put_block c b f) l = (if l = c then b else block_at f l)"
  by (simp add: block_at_def put_block_def)

lemma fn_body_put_block [simp]:
  "fn_body (put_block c b f) l = (if l = c then Some b else fn_body f l)"
  by (simp add: put_block_def)

lemma put_block_fields [simp]:
  "fn_locals (put_block c b f) = fn_locals f" "fn_name (put_block c b f) = fn_name f"
  by (simp_all add: put_block_def)

lemma put_block_put_block [simp]: "put_block c b2 (put_block c b1 f) = put_block c b2 f"
  by (simp add: put_block_def)

lemma block_at_Some: "fn_body f l = Some b \<Longrightarrow> block_at f l = b"
  by (simp add: block_at_def)

lemma build_cfg_loop_insts:
  "build_cfg_loop items cur f = Inr g \<Longrightarrow>
     \<exists>xs. bb_insts (block_at g l) = bb_insts (block_at f l) @ xs \<and>
          (\<forall>i \<in> set xs. TvInst i \<in> set items)"
proof (induction items arbitrary: cur f)
  case Nil
  then show ?case by simp
next
  case (Cons it items)
  show ?case
  proof (cases it)
    case (TvLabel l1)
    with Cons.prems have
      "build_cfg_loop items (Some l1) (put_block l1 ((block_at f l1)\<lparr>bb_label := l1\<rparr>) f) = Inr g"
      by simp
    from Cons.IH [OF this] obtain xs where
      "bb_insts (block_at g l) =
         bb_insts (block_at (put_block l1 ((block_at f l1)\<lparr>bb_label := l1\<rparr>) f) l) @ xs"
      "\<forall>i \<in> set xs. TvInst i \<in> set items" by blast
    then have "bb_insts (block_at g l) = bb_insts (block_at f l) @ xs \<and>
          (\<forall>i \<in> set xs. TvInst i \<in> set (it # items))"
      by (auto split: if_splits)
    then show ?thesis by blast
  next
    case (TvInst i)
    show ?thesis
    proof (cases cur)
      case None
      then obtain b where b: "fn_body f (fn_name f @ ''_entry'') = Some b"
        using Cons.prems TvInst by (auto split: option.splits)
      with Cons.prems TvInst None have
        "build_cfg_loop items (Some (fn_name f @ ''_entry''))
           (put_block (fn_name f @ ''_entry'') (b\<lparr>bb_insts := bb_insts b @ [i]\<rparr>) f) = Inr g"
        by simp
      from Cons.IH [OF this] obtain xs where
        "bb_insts (block_at g l) =
           bb_insts (block_at (put_block (fn_name f @ ''_entry'')
                                 (b\<lparr>bb_insts := bb_insts b @ [i]\<rparr>) f) l) @ xs"
        "\<forall>i \<in> set xs. TvInst i \<in> set items" by blast
      then have "bb_insts (block_at g l) =
                   bb_insts (block_at f l) @ (if l = fn_name f @ ''_entry'' then i # xs else xs) \<and>
          (\<forall>j \<in> set (if l = fn_name f @ ''_entry'' then i # xs else xs).
              TvInst j \<in> set (it # items))"
        using TvInst block_at_Some [OF b] by (auto split: if_splits)
      then show ?thesis by blast
    next
      case (Some c)
      with Cons.prems TvInst have
        "build_cfg_loop items (Some c)
           (put_block c ((block_at f c)\<lparr>bb_insts := bb_insts (block_at f c) @ [i]\<rparr>) f) = Inr g"
        by simp
      from Cons.IH [OF this] obtain xs where
        "bb_insts (block_at g l) =
           bb_insts (block_at (put_block c
               ((block_at f c)\<lparr>bb_insts := bb_insts (block_at f c) @ [i]\<rparr>) f) l) @ xs"
        "\<forall>i \<in> set xs. TvInst i \<in> set items" by blast
      then have "bb_insts (block_at g l) =
                   bb_insts (block_at f l) @ (if l = c then i # xs else xs) \<and>
          (\<forall>j \<in> set (if l = c then i # xs else xs). TvInst j \<in> set (it # items))"
        using TvInst by (auto split: if_splits)
      then show ?thesis by blast
    qed
  next
    case (TvTerminal t)
    show ?thesis
    proof (cases cur)
      case None
      with Cons.prems TvTerminal have "build_cfg_loop items None f = Inr g" by simp
      from Cons.IH [OF this] show ?thesis by auto
    next
      case (Some c)
      with Cons.prems TvTerminal have
        "build_cfg_loop items None (put_block c ((block_at f c)\<lparr>bb_term := t\<rparr>) f) = Inr g"
        by simp
      from Cons.IH [OF this] obtain xs where
        "bb_insts (block_at g l) =
           bb_insts (block_at (put_block c ((block_at f c)\<lparr>bb_term := t\<rparr>) f) l) @ xs"
        "\<forall>i \<in> set xs. TvInst i \<in> set items" by blast
      then have "bb_insts (block_at g l) = bb_insts (block_at f l) @ xs \<and>
          (\<forall>i \<in> set xs. TvInst i \<in> set (it # items))"
        by (auto split: if_splits)
      then show ?thesis by blast
    qed
  qed
qed

lemma build_cfg_loop_keeps:
  "build_cfg_loop items cur f = Inr g \<Longrightarrow>
     fn_locals g = fn_locals f \<and> (fn_body f l \<noteq> None \<longrightarrow> fn_body g l \<noteq> None)"
proof (induction items cur f rule: build_cfg_loop.induct)
  case (1 current_bb f)
  then show ?case by simp
next
  case (2 l1 rest current_bb f)
  then show ?case by (auto split: if_splits)
next
  case (3 i rest current_bb f)
  then show ?case by (auto split: option.splits if_splits)
next
  case (4 t rest current_bb f)
  then show ?case by (auto split: option.splits if_splits)
qed

lemma build_cfg_loop_prefix:
  "fn_body f e \<noteq> None \<Longrightarrow>
   build_cfg_loop (map TvInst cs @ rest) (Some e) f =
     build_cfg_loop rest (Some e)
       (put_block e ((block_at f e)\<lparr>bb_insts := bb_insts (block_at f e) @ cs\<rparr>) f)"
proof (induction cs arbitrary: f)
  case Nil
  then have "put_block e ((block_at f e)\<lparr>bb_insts := bb_insts (block_at f e) @ []\<rparr>) f = f"
    by (auto simp: put_block_def block_at_def fun_upd_idem)
  then show ?case by simp
next
  case (Cons c cs)
  let ?f1 = "put_block e ((block_at f e)\<lparr>bb_insts := bb_insts (block_at f e) @ [c]\<rparr>) f"
  have "fn_body ?f1 e \<noteq> None" by simp
  from Cons.IH [OF this] show ?case
    by simp
qed

lemma lower_stmt_body_empty:
  assumes "fn_body (m_current_fun s) = Map.empty" and "lower_stmt st s = Inr s1"
  shows "fn_body (m_current_fun s1) = Map.empty"
proof -
  have "ensures_stmt (\<lambda>e. True) (\<lambda>s. fn_body (m_current_fun s) = Map.empty) (lower_stmt st s)"
    by (rule lower_stmt_ensures [where I = "\<lambda>s. fn_body (m_current_fun s) = Map.empty"])
       (simp_all add: emit_def fresh_non_inner_var_def fresh_inner_var_def const_var_def
          set_local_def new_label_def push_loop_def pop_loop_def Let_def assms)
  then show ?thesis using assms by simp
qed

lemma not_const_item_inst: "\<not> is_const_item (TvInst i) \<Longrightarrow> const_inst_name i = None"
  by (cases i) (simp_all add: is_const_item_def)

lemma const_name_format:
  "0 \<le> k \<Longrightarrow> const_name k = ''_const_'' @ nat_to_string (nat k)"
  "- 2147483648 < k \<Longrightarrow> k < 0 \<Longrightarrow> const_name k = ''_const_n'' @ nat_to_string (nat (- k))"
  by (simp_all add: const_name_def to_string_def int_neg_def)

lemma visit_FunctionDef_entry_block:
  assumes shell: "functions' (m_lir_prog s) (fd_name n) = Some f"
    and body: "fn_body f = Map.empty"
    and user: "\<forall>x. is_const_name x \<longrightarrow> fn_locals f x = None"
    and ok: "visit_FunctionDef n s = Inr s1"
  shows "\<exists>g blk cs others.
           functions' (m_lir_prog s1) (fd_name n) = Some g \<and>
           fn_body g (fd_name n @ ''_entry'') = Some blk \<and>
           bb_insts blk = cs @ others \<and>
           cs = first_use_holders (literal_uses_stmt (fd_body n)) \<and>
           (\<forall>c \<in> set cs. \<exists>k. c = Const (const_name k) k) \<and>
           (\<forall>i \<in> set others. const_inst_name i = None) \<and>
           distinct (map const_inst_name cs) \<and>
           (\<forall>x. is_const_name x \<longrightarrow>
              fn_locals g x = (if Some x \<in> const_inst_name ` set cs then Some LIR_IntType else None)) \<and>
           (\<forall>l b. l \<noteq> fd_name n @ ''_entry'' \<longrightarrow> fn_body g l = Some b \<longrightarrow>
              (\<forall>i \<in> set (bb_insts b). const_inst_name i = None))"
proof -
  let ?e = "fd_name n @ ''_entry''"
  let ?s0 = "enter_function (fd_name n) f s"
  from ok shell obtain s3 s5 where
    low: "lower_stmt (fd_body n) ?s0 = Inr s3"
    and cfg: "build_cfg (add_implicit_ret s3) = Inr s5"
    and s1: "s1 = store_current_fun (fd_name n) s5"
    by (auto simp: visit_FunctionDef_def lower_body_def split: sum.splits)
  let ?s4 = "add_implicit_ret s3"
  have "const_inv ?e ?s0" using user by (rule const_inv_enter_function)
  then have "holds_consts ?e [] ?s0"
    by (simp add: holds_consts_def enter_function_def emit_def is_const_item_def)
  then have "holds_consts ?e (foldl add_holder [] (literal_uses_stmt (fd_body n))) s3"
    using low by (rule lower_stmt_holds_consts)
  then have held: "holds_consts ?e (first_use_holders (literal_uses_stmt (fd_body n))) ?s4"
    by (simp add: add_implicit_ret_def holds_consts_emit is_const_item_def first_use_holders_def)
  then have "const_inv ?e ?s4" by (simp add: holds_consts_def)
  then obtain cs rest where
    tv: "m_tv ?s4 = TvLabel ?e # map TvInst cs @ rest"
    and cs: "\<forall>c \<in> set cs. \<exists>k. c = Const (const_name k) k"
    and rest: "\<forall>x \<in> set rest. \<not> is_const_item x"
    and dist: "distinct (map const_inst_name cs)"
    and loc: "\<forall>x. is_const_name x \<longrightarrow>
           fn_locals (m_current_fun ?s4) x =
             (if Some x \<in> const_inst_name ` set cs then Some LIR_IntType else None)"
    unfolding const_inv_def by blast
  have order: "cs = first_use_holders (literal_uses_stmt (fd_body n))"
    using const_insts_shape [OF tv cs rest] held by (simp add: holds_consts_def)
  have "fn_body (m_current_fun ?s0) = Map.empty"
    using body by (simp add: enter_function_def emit_def)
  then have "fn_body (m_current_fun s3) = Map.empty"
    using low by (rule lower_stmt_body_empty)
  then have empty: "fn_body (m_current_fun ?s4) = Map.empty"
    by (simp add: add_implicit_ret_def emit_def)
  let ?f4 = "m_current_fun ?s4"
  let ?f5 = "put_block ?e ((block_at ?f4 ?e)\<lparr>bb_label := ?e\<rparr>) ?f4"
  let ?f6 = "put_block ?e ((block_at ?f5 ?e)\<lparr>bb_insts := bb_insts (block_at ?f5 ?e) @ cs\<rparr>) ?f5"
  from cfg obtain g where
    loop: "build_cfg_loop (m_tv ?s4) None ?f4 = Inr g" and s5: "s5 = ?s4\<lparr>m_current_fun := g\<rparr>"
    by (auto simp: build_cfg_def split: sum.splits prod.splits)
  have "fn_body ?f5 ?e \<noteq> None" by simp
  then have "build_cfg_loop (map TvInst cs @ rest) (Some ?e) ?f5 = build_cfg_loop rest (Some ?e) ?f6"
    by (rule build_cfg_loop_prefix)
  then have loop6: "build_cfg_loop rest (Some ?e) ?f6 = Inr g"
    using loop tv by simp
  have stored: "functions' (m_lir_prog s1) (fd_name n) = Some g"
    using s1 s5 by (simp add: store_current_fun_def)
  from build_cfg_loop_keeps [OF loop6, of ?e]
  have locals: "fn_locals g = fn_locals ?f4" and "fn_body g ?e \<noteq> None"
    by simp_all
  then obtain blk where blk: "fn_body g ?e = Some blk" by blast
  from build_cfg_loop_insts [OF loop6, of ?e] obtain others where
    o1: "bb_insts (block_at g ?e) = bb_insts (block_at ?f6 ?e) @ others"
    and o2: "\<forall>i \<in> set others. TvInst i \<in> set rest" by blast
  have "bb_insts (block_at ?f6 ?e) = cs"
    using empty by (simp add: block_at_def)
  then have insts: "bb_insts blk = cs @ others"
    using o1 block_at_Some [OF blk] by simp
  have others: "\<forall>i \<in> set others. const_inst_name i = None"
    using o2 rest by (auto intro: not_const_item_inst)
  have other_blocks: "\<forall>i \<in> set (bb_insts b). const_inst_name i = None"
    if "l \<noteq> ?e" and "fn_body g l = Some b" for l b
  proof -
    from build_cfg_loop_insts [OF loop6, of l] obtain xs where
      x1: "bb_insts (block_at g l) = bb_insts (block_at ?f6 l) @ xs"
      and x2: "\<forall>i \<in> set xs. TvInst i \<in> set rest" by blast
    have "bb_insts (block_at ?f6 l) = []"
      using that(1) empty by (simp add: block_at_def)
    then have "bb_insts b = xs" using x1 block_at_Some [OF that(2)] by simp
    then show ?thesis using x2 rest by (auto intro: not_const_item_inst)
  qed
  show ?thesis
    using stored blk insts order cs others dist loc locals other_blocks by auto
qed

lemma visit_FunctionDef_const_holders:
  assumes "functions' (m_lir_prog s) (fd_name n) = Some f"
    and "fn_body f = Map.empty"
    and "\<forall>x. is_const_name x \<longrightarrow> fn_locals f x = None"
    and "visit_FunctionDef n s = Inr s1"
  shows "\<exists>g. functions' (m_lir_prog s1) (fd_name n) = Some g \<and>
             const_holders_defined (fd_name n @ ''_entry'') (literal_uses_stmt (fd_body n)) g"
proof -
  from visit_FunctionDef_entry_block [OF assms] obtain g blk cs others where
    g: "functions' (m_lir_prog s1) (fd_name n) = Some g"
    and b1: "fn_body g (fd_name n @ ''_entry'') = Some blk"
    and b2: "bb_insts blk = cs @ others"
    and b0: "cs = first_use_holders (literal_uses_stmt (fd_body n))"
    and b3: "\<forall>c \<in> set cs. \<exists>k. c = Const (const_name k) k"
    and b4: "\<forall>i \<in> set others. const_inst_name i = None"
    and b5: "distinct (map const_inst_name cs)"
    and b6: "\<forall>x. is_const_name x \<longrightarrow>
               fn_locals g x =
                 (if Some x \<in> const_inst_name ` set cs then Some LIR_IntType else None)"
    and b7: "\<forall>l b. l \<noteq> fd_name n @ ''_entry'' \<longrightarrow> fn_body g l = Some b \<longrightarrow>
               (\<forall>i \<in> set (bb_insts b). const_inst_name i = None)"
    by (elim exE conjE)
  have "const_holders_defined (fd_name n @ ''_entry'') (literal_uses_stmt (fd_body n)) g"
    unfolding const_holders_defined_def
    by (rule exI [of _ blk], rule exI [of _ cs], rule exI [of _ others], intro conjI)
       (fact b0 b1 b2 b3 b4 b5 b6 b7)+
  with g show ?thesis by blast
qed

lemma lower_stmt_prog:
  assumes "lower_stmt st s = Inr s1"
  shows "m_lir_prog s1 = m_lir_prog s"
proof -
  have "ensures_stmt (\<lambda>e. True) (\<lambda>x. m_lir_prog x = m_lir_prog s) (lower_stmt st s)"
    by (rule lower_stmt_ensures [where I = "\<lambda>x. m_lir_prog x = m_lir_prog s"])
       (simp_all add: emit_def fresh_non_inner_var_def fresh_inner_var_def const_var_def
          set_local_def new_label_def push_loop_def pop_loop_def Let_def)
  then show ?thesis using assms by simp
qed

lemma visit_FunctionDef_other:
  assumes "visit_FunctionDef m s = Inr s1" and "k \<noteq> fd_name m"
  shows "functions' (m_lir_prog s1) k = functions' (m_lir_prog s) k"
proof -
  from assms(1) obtain f s3 s5 where
    low: "lower_stmt (fd_body m) (enter_function (fd_name m) f s) = Inr s3"
    and cfg: "build_cfg (add_implicit_ret s3) = Inr s5"
    and s1: "s1 = store_current_fun (fd_name m) s5"
    by (auto simp: visit_FunctionDef_def lower_body_def split: sum.splits option.splits)
  have "m_lir_prog s3 = m_lir_prog s"
    using lower_stmt_prog [OF low] by (simp add: enter_function_def emit_def)
  moreover have "m_lir_prog s5 = m_lir_prog s3"
    using cfg by (auto simp: build_cfg_def add_implicit_ret_def emit_def split: sum.splits prod.splits)
  ultimately show ?thesis using s1 assms(2) by (simp add: store_current_fun_def)
qed

lemma lower_functions_other:
  "lower_functions fs s = Inr s1 \<Longrightarrow> k \<notin> fd_name ` set fs \<Longrightarrow>
     functions' (m_lir_prog s1) k = functions' (m_lir_prog s) k"
proof (induction fs arbitrary: s)
  case Nil
  then show ?case by simp
next
  case (Cons m rest)
  from Cons.prems(1) obtain s2 where
    v: "visit_FunctionDef m s = Inr s2" and r: "lower_functions rest s2 = Inr s1"
    by (auto split: sum.splits)
  have "functions' (m_lir_prog s1) k = functions' (m_lir_prog s2) k"
    using Cons.IH [OF r] Cons.prems(2) by simp
  also have "\<dots> = functions' (m_lir_prog s) k"
    using visit_FunctionDef_other [OF v] Cons.prems(2) by simp
  finally show ?case .
qed

lemma lower_functions_const_holders:
  "lower_functions fs s = Inr s1 \<Longrightarrow> distinct (map fd_name fs) \<Longrightarrow> n \<in> set fs \<Longrightarrow>
   functions' (m_lir_prog s) (fd_name n) = Some f \<Longrightarrow> fn_body f = Map.empty \<Longrightarrow>
   \<forall>x. is_const_name x \<longrightarrow> fn_locals f x = None \<Longrightarrow>
   \<exists>g. functions' (m_lir_prog s1) (fd_name n) = Some g \<and>
       const_holders_defined (fd_name n @ ''_entry'') (literal_uses_stmt (fd_body n)) g"
proof (induction fs arbitrary: s)
  case Nil
  then show ?case by simp
next
  case (Cons m rest)
  from Cons.prems(1) obtain s2 where
    v: "visit_FunctionDef m s = Inr s2" and r: "lower_functions rest s2 = Inr s1"
    by (auto split: sum.splits)
  show ?case
  proof (cases "n = m")
    case True
    have "fd_name n \<notin> fd_name ` set rest" using Cons.prems(2) True by auto
    then have "functions' (m_lir_prog s1) (fd_name n) = functions' (m_lir_prog s2) (fd_name n)"
      using lower_functions_other [OF r] by blast
    moreover have "\<exists>g. functions' (m_lir_prog s2) (fd_name n) = Some g \<and>
       const_holders_defined (fd_name n @ ''_entry'') (literal_uses_stmt (fd_body n)) g"
      using visit_FunctionDef_const_holders [of s n f s2] Cons.prems v True by simp
    ultimately show ?thesis by simp
  next
    case False
    then have n: "n \<in> set rest" using Cons.prems(3) by simp
    then have "fd_name n \<noteq> fd_name m" using Cons.prems(2) by (auto simp: image_iff)
    then have "functions' (m_lir_prog s2) (fd_name n) = Some f"
      using visit_FunctionDef_other [OF v] Cons.prems(4) by simp
    moreover have "distinct (map fd_name rest)" using Cons.prems(2) by simp
    ultimately show ?thesis
      using Cons.IH [OF r _ n] Cons.prems(5,6) by blast
  qed
qed

lemma functions_add_function_shell:
  "functions' (add_function_shell n p) = (functions' p)(fd_name n \<mapsto> function_shell n)"
  by (simp add: add_function_shell_def function_shell_def Let_def)

lemma functions_fold_add_function_shell:
  "distinct (map fd_name fs) \<Longrightarrow> n \<in> set fs \<Longrightarrow>
     functions' (fold add_function_shell fs p) (fd_name n) = Some (function_shell n)"
proof (induction fs arbitrary: p rule: rev_induct)
  case Nil
  then show ?case by simp
next
  case (snoc m ms)
  show ?case
  proof (cases "n = m")
    case True
    then show ?thesis by (simp add: functions_add_function_shell)
  next
    case False
    then have "n \<in> set ms" using snoc.prems by simp
    moreover have "fd_name n \<noteq> fd_name m"
      using snoc.prems False \<open>n \<in> set ms\<close> by (auto simp: image_iff)
    ultimately show ?thesis using snoc by (simp add: functions_add_function_shell)
  qed
qed

lemma fold_add_decl_None:
  "m x = None \<Longrightarrow> x \<notin> fst ` set ds \<Longrightarrow> fold add_decl ds m x = None"
  by (induction ds arbitrary: m) (auto simp: add_decl_def)

lemma function_shell_no_const_locals:
  assumes "\<forall>d \<in> set (fd_params n @ fd_locals n). \<not> is_const_name (fst d)"
  shows "\<forall>x. is_const_name x \<longrightarrow> fn_locals (function_shell n) x = None"
proof (intro allI impI)
  fix x assume "is_const_name x"
  then have "x \<notin> fst ` set (fd_params n)" "x \<notin> fst ` set (fd_locals n)"
    using assms by auto
  then show "fn_locals (function_shell n) x = None"
    by (simp add: function_shell_def fold_add_decl_None)
qed

text \<open>
  C7, as the code has it. The holder of the literal \<open>n\<close> is named \<open>_const_<n>\<close>
  (for a negative literal above \<open>- 2^31\<close>, \<open>n\<close> followed by its absolute value).
  \<^verbatim>\<open>const_var\<close> takes the locals as the record of the holders that exist: when the name
  is not a local, it is added with type \<open>Int\<close> and a \<open>Const\<close> instruction is inserted
  at \<^verbatim>\<open>m_const_insert_pos\<close>, which starts at 1 and is advanced; when the name is a local,
  the name is returned and nothing is inserted. In a program whose function names are
  unique, for every function none of whose parameters and declared locals has a name
  starting with \<open>_const_\<close>: the entry block of the lowered function starts with the
  \<open>Const\<close> instructions of the literals that the body uses, in order of first use (the
  uses taken in the order in which the visits of the body ask \<^verbatim>\<open>const_var\<close> for a
  holder), no other instruction of the body is a \<open>Const\<close>, and every \<open>_const_\<close> local
  has type \<open>Int\<close> and exactly one defining \<open>Const\<close> among them. The order is carried by
  the invariant of the translation vector, which holds when the function is entered,
  with no \<open>Const\<close> yet: from a state in which it holds, \<^verbatim>\<open>const_var\<close> and the lowering
  of a statement lead to a state in which it holds, the \<open>Const\<close> instructions extended by
  those of the new literals in order of first use.
\<close>

theorem const_holders_defined_once:
  assumes "lower p = Inr lir"
    and "distinct (map fd_name (prog_functions p))"
    and "n \<in> set (prog_functions p)"
    and "\<forall>d \<in> set (fd_params n @ fd_locals n). \<not> is_const_name (fst d)"
  shows "(\<exists>g blk cs others.
            functions' lir (fd_name n) = Some g \<and>
            fn_body g (fd_name n @ ''_entry'') = Some blk \<and>
            bb_insts blk = cs @ others \<and>
            cs = first_use_holders (literal_uses_stmt (fd_body n)) \<and>
            (\<forall>c \<in> set cs. \<exists>k. c = Const (const_name k) k) \<and>
            (\<forall>i \<in> set others. const_inst_name i = None) \<and>
            distinct (map const_inst_name cs) \<and>
            (\<forall>x. is_const_name x \<longrightarrow>
               fn_locals g x =
                 (if Some x \<in> const_inst_name ` set cs then Some LIR_IntType else None)) \<and>
            (\<forall>l b. l \<noteq> fd_name n @ ''_entry'' \<longrightarrow> fn_body g l = Some b \<longrightarrow>
               (\<forall>i \<in> set (bb_insts b). const_inst_name i = None))) \<and>
         m_const_insert_pos (enter_function (fd_name n) f s0) = 1 \<and>
         m_tv (enter_function (fd_name n) f s0) = [TvLabel (fd_name n @ ''_entry'')] \<and>
         lower_exp (Num k) s = Inr (const_var k s) \<and>
         (fn_locals (m_current_fun s) (const_name k) = None \<longrightarrow>
            const_var k s =
              (const_name k,
               (set_local (const_name k) LIR_IntType s)
                 \<lparr>m_tv := take (m_const_insert_pos s) (m_tv s) @
                           TvInst (Const (const_name k) k) # drop (m_const_insert_pos s) (m_tv s),
                  m_const_insert_pos := m_const_insert_pos s + 1\<rparr>)) \<and>
         (fn_locals (m_current_fun s) (const_name k) \<noteq> None \<longrightarrow>
            const_var k s = (const_name k, s)) \<and>
         (fn_locals (m_current_fun s) (const_name k) = None \<and>
          m_tv s = TvLabel l # map TvInst cs0 @ rest0 \<and>
          m_const_insert_pos s = Suc (length cs0) \<longrightarrow>
            m_tv (snd (const_var k s)) =
              TvLabel l # map TvInst (cs0 @ [Const (const_name k) k]) @ rest0 \<and>
            m_const_insert_pos (snd (const_var k s)) = Suc (length (cs0 @ [Const (const_name k) k]))) \<and>
         holds_consts (fd_name n @ ''_entry'') [] (enter_function (fd_name n) (function_shell n) s0) \<and>
         (holds_consts l held s2 \<longrightarrow>
            holds_consts l (add_holder held k) (snd (const_var k s2))) \<and>
         (holds_consts l held s2 \<and> lower_stmt st s2 = Inr s3 \<longrightarrow>
            holds_consts l (foldl add_holder held (literal_uses_stmt st)) s3) \<and>
         (0 \<le> k \<longrightarrow> const_name k = ''_const_'' @ nat_to_string (nat k)) \<and>
         (- 2147483648 < k \<and> k < 0 \<longrightarrow> const_name k = ''_const_n'' @ nat_to_string (nat (- k)))"
proof -
  from assms(1) obtain s1 where
    low: "lower_functions (prog_functions p) (initial_lowerer (program_shell p)) = Inr s1"
    and lir: "lir = m_lir_prog s1"
    by (auto simp: lower_def split: sum.splits)
  have shell: "functions' (m_lir_prog (initial_lowerer (program_shell p))) (fd_name n)
                 = Some (function_shell n)"
    using assms(2,3)
    by (simp add: initial_lowerer_def program_shell_def functions_fold_add_function_shell)
  have "\<exists>g. functions' (m_lir_prog s1) (fd_name n) = Some g \<and>
            const_holders_defined (fd_name n @ ''_entry'') (literal_uses_stmt (fd_body n)) g"
    using low assms(2,3) shell
  proof (rule lower_functions_const_holders)
    show "fn_body (function_shell n) = Map.empty" by (simp add: function_shell_def)
    show "\<forall>x. is_const_name x \<longrightarrow> fn_locals (function_shell n) x = None"
      using assms(4) by (rule function_shell_no_const_locals)
  qed
  then obtain g where g: "functions' (m_lir_prog s1) (fd_name n) = Some g"
    and c: "const_holders_defined (fd_name n @ ''_entry'') (literal_uses_stmt (fd_body n)) g"
    by blast
  from c obtain blk cs others where
    b1: "fn_body g (fd_name n @ ''_entry'') = Some blk"
    and b2: "bb_insts blk = cs @ others"
    and b0: "cs = first_use_holders (literal_uses_stmt (fd_body n))"
    and b3: "\<forall>c \<in> set cs. \<exists>k. c = Const (const_name k) k"
    and b4: "\<forall>i \<in> set others. const_inst_name i = None"
    and b5: "distinct (map const_inst_name cs)"
    and b6: "\<forall>x. is_const_name x \<longrightarrow>
               fn_locals g x =
                 (if Some x \<in> const_inst_name ` set cs then Some LIR_IntType else None)"
    and b7: "\<forall>l b. l \<noteq> fd_name n @ ''_entry'' \<longrightarrow> fn_body g l = Some b \<longrightarrow>
               (\<forall>i \<in> set (bb_insts b). const_inst_name i = None)"
    unfolding const_holders_defined_def by (elim exE conjE)
  have main: "\<exists>g blk cs others.
            functions' lir (fd_name n) = Some g \<and>
            fn_body g (fd_name n @ ''_entry'') = Some blk \<and>
            bb_insts blk = cs @ others \<and>
            cs = first_use_holders (literal_uses_stmt (fd_body n)) \<and>
            (\<forall>c \<in> set cs. \<exists>k. c = Const (const_name k) k) \<and>
            (\<forall>i \<in> set others. const_inst_name i = None) \<and>
            distinct (map const_inst_name cs) \<and>
            (\<forall>x. is_const_name x \<longrightarrow>
               fn_locals g x =
                 (if Some x \<in> const_inst_name ` set cs then Some LIR_IntType else None)) \<and>
            (\<forall>l b. l \<noteq> fd_name n @ ''_entry'' \<longrightarrow> fn_body g l = Some b \<longrightarrow>
               (\<forall>i \<in> set (bb_insts b). const_inst_name i = None))"
    unfolding lir
    by (rule exI [of _ g], rule exI [of _ blk], rule exI [of _ cs], rule exI [of _ others],
        intro conjI) (fact g b0 b1 b2 b3 b4 b5 b6 b7)+
  have enter: "m_const_insert_pos (enter_function (fd_name n) f s0) = 1"
    "m_tv (enter_function (fd_name n) f s0) = [TvLabel (fd_name n @ ''_entry'')]"
    by (simp_all add: enter_function_def emit_def)
  have cv: "fn_locals (m_current_fun s) (const_name k) = None \<longrightarrow>
            const_var k s =
              (const_name k,
               (set_local (const_name k) LIR_IntType s)
                 \<lparr>m_tv := take (m_const_insert_pos s) (m_tv s) @
                           TvInst (Const (const_name k) k) # drop (m_const_insert_pos s) (m_tv s),
                  m_const_insert_pos := m_const_insert_pos s + 1\<rparr>)"
    "fn_locals (m_current_fun s) (const_name k) \<noteq> None \<longrightarrow> const_var k s = (const_name k, s)"
    by (auto simp: const_var_def Let_def insert_at_def)
  have ord: "fn_locals (m_current_fun s) (const_name k) = None \<and>
          m_tv s = TvLabel l # map TvInst cs0 @ rest0 \<and>
          m_const_insert_pos s = Suc (length cs0) \<longrightarrow>
            m_tv (snd (const_var k s)) =
              TvLabel l # map TvInst (cs0 @ [Const (const_name k) k]) @ rest0 \<and>
            m_const_insert_pos (snd (const_var k s)) = Suc (length (cs0 @ [Const (const_name k) k]))"
    by (simp add: const_var_def Let_def insert_at_def set_local_def)
  have num: "lower_exp (Num k) s = Inr (const_var k s)" by simp
  have "const_inv (fd_name n @ ''_entry'') (enter_function (fd_name n) (function_shell n) s0)"
    using assms(4) by (intro const_inv_enter_function function_shell_no_const_locals)
  then have inv0: "holds_consts (fd_name n @ ''_entry'') []
                     (enter_function (fd_name n) (function_shell n) s0)"
    by (simp add: holds_consts_def enter_function_def emit_def is_const_item_def)
  have step: "holds_consts l held s2 \<longrightarrow>
            holds_consts l (add_holder held k) (snd (const_var k s2))"
    "holds_consts l held s2 \<and> lower_stmt st s2 = Inr s3 \<longrightarrow>
            holds_consts l (foldl add_holder held (literal_uses_stmt st)) s3"
    by (blast intro: holds_consts_const_var lower_stmt_holds_consts)+
  have fmt: "0 \<le> k \<longrightarrow> const_name k = ''_const_'' @ nat_to_string (nat k)"
    "- 2147483648 < k \<and> k < 0 \<longrightarrow> const_name k = ''_const_n'' @ nat_to_string (nat (- k))"
    using const_name_format [of k] by blast+
  show ?thesis
    by (intro conjI; (fact main | fact enter | fact num | fact cv | fact ord | fact fmt
          | fact inv0 | fact step))
qed

lemma example_reuse_literal_lower:
  "lower example_reuse_literal_program =
     Inr \<lparr>structs = Map.empty, externs = Map.empty, funptrs = Map.empty,
          functions' = [''main'' \<mapsto> example_reuse_literal_lowered]\<rparr>"
  by (simp add: lower_def example_reuse_literal_program_def example_reuse_literal_def
      program_shell_def add_function_shell_def visit_FunctionDef_def lower_body_def
      add_implicit_ret_def has_ret_def build_cfg_def block_at_def put_block_def
      store_current_fun_def example_reuse_literal_lowered_def const_var_def const_name_def
      to_string_def insert_at_def eval_simps Let_def)

lemma example_reuse_literal_holders:
  "first_use_holders (literal_uses_stmt (fd_body example_reuse_literal)) =
     [Const ''_const_3'' 3, Const ''_const_2'' 2]"
  by (simp add: example_reuse_literal_def first_use_holders_def add_holder_def const_name_def
      to_string_def nat_to_string.simps digit_char_def)

theorem const_holders_defined_once_witness:
  "(\<exists>g blk cs others.
      functions' \<lparr>structs = Map.empty, externs = Map.empty, funptrs = Map.empty,
                  functions' = [''main'' \<mapsto> example_reuse_literal_lowered]\<rparr>
        (fd_name example_reuse_literal) = Some g \<and>
      fn_body g (fd_name example_reuse_literal @ ''_entry'') = Some blk \<and>
      bb_insts blk = cs @ others \<and>
      cs = [Const ''_const_3'' 3, Const ''_const_2'' 2] \<and>
      (\<forall>c \<in> set cs. \<exists>k. c = Const (const_name k) k) \<and>
      (\<forall>i \<in> set others. const_inst_name i = None) \<and>
      distinct (map const_inst_name cs) \<and>
      (\<forall>x. is_const_name x \<longrightarrow>
         fn_locals g x =
           (if Some x \<in> const_inst_name ` set cs then Some LIR_IntType else None)) \<and>
      (\<forall>l b. l \<noteq> fd_name example_reuse_literal @ ''_entry'' \<longrightarrow> fn_body g l = Some b \<longrightarrow>
         (\<forall>i \<in> set (bb_insts b). const_inst_name i = None))) \<and>
   (\<exists>s3. lower_stmt (fd_body example_reuse_literal)
           (enter_function ''main'' (function_shell example_reuse_literal)
              (initial_lowerer (program_shell example_reuse_literal_program))) = Inr s3 \<and>
         holds_consts ''main_entry'' [Const ''_const_3'' 3, Const ''_const_2'' 2] s3) \<and>
   const_name 7 = ''_const_7'' \<and>
   const_name (- 12) = ''_const_n12''"
proof -
  let ?s0 = "enter_function ''main'' (function_shell example_reuse_literal)
               (initial_lowerer (program_shell example_reuse_literal_program))"
  have h2: "distinct (map fd_name (prog_functions example_reuse_literal_program))"
    by (simp add: example_reuse_literal_program_def)
  have h3: "example_reuse_literal \<in> set (prog_functions example_reuse_literal_program)"
    by (simp add: example_reuse_literal_program_def)
  have h4: "\<forall>d \<in> set (fd_params example_reuse_literal @ fd_locals example_reuse_literal).
              \<not> is_const_name (fst d)"
    by (simp add: example_reuse_literal_def is_const_name_def)
  note t = const_holders_defined_once [OF example_reuse_literal_lower h2 h3 h4]
  have a: "const_name 7 = ''_const_7''"
    using t [where k = 7] by (simp add: nat_to_string.simps digit_char_def)
  have b: "const_name (- 12) = ''_const_n12''"
    using t [where k = "- 12"] by (simp add: nat_to_string.simps digit_char_def)
  note main = t [where k = 0, unfolded example_reuse_literal_holders, THEN conjunct1]
  have "\<exists>s3. lower_stmt (fd_body example_reuse_literal) ?s0 = Inr s3"
    by (simp add: example_reuse_literal_def const_var_def const_name_def to_string_def
        eval_simps Let_def)
  then obtain s3 where low: "lower_stmt (fd_body example_reuse_literal) ?s0 = Inr s3"
    by blast
  have name: "fd_name example_reuse_literal = ''main''"
    by (simp add: example_reuse_literal_def)
  have "holds_consts ''main_entry'' [] ?s0"
    using t [where ?s0.0 = "initial_lowerer (program_shell example_reuse_literal_program)"]
    by (simp add: name)
  then have "holds_consts ''main_entry''
               (foldl add_holder [] (literal_uses_stmt (fd_body example_reuse_literal))) s3"
    using t [where l = "''main_entry''" and held = "[]" and ?s2.0 = ?s0
               and st = "fd_body example_reuse_literal" and ?s3.0 = s3] low
    by blast
  then have step: "\<exists>s3. lower_stmt (fd_body example_reuse_literal) ?s0 = Inr s3 \<and>
      holds_consts ''main_entry'' [Const ''_const_3'' 3, Const ''_const_2'' 2] s3"
    using low example_reuse_literal_holders by (auto simp: first_use_holders_def)
  show ?thesis
    by (intro conjI) (rule main, rule step, rule a, rule b)
qed

text \<open>C7 as the specification states it fails. In \<^verbatim>\<open>fn main() -> int { let _const_5:int; return 5; }\<close>
  the first use of the literal 5 finds the declared local of that name: it inserts no
  \<open>Const\<close> and leaves the state as it was, and the lowered function has the local
  \<open>_const_5\<close> and no \<open>Const\<close> instruction at all.\<close>

theorem const_holder_shadowed_counterexample:
  "lower_exp (Num 5)
     (enter_function ''main'' (function_shell example_const_local)
        (initial_lowerer (program_shell example_const_local_program))) =
   Inr (''_const_5'',
        enter_function ''main'' (function_shell example_const_local)
          (initial_lowerer (program_shell example_const_local_program))) \<and>
   lower example_const_local_program =
     Inr \<lparr>structs = Map.empty, externs = Map.empty, funptrs = Map.empty,
          functions' = [''main'' \<mapsto> example_const_local_lowered]\<rparr> \<and>
   fn_locals example_const_local_lowered ''_const_5'' = Some LIR_IntType \<and>
   fn_body example_const_local_lowered =
     [''main_entry'' \<mapsto>
        \<lparr>bb_label = ''main_entry'', bb_insts = [], bb_term = Ret (Some ''_const_5'')\<rparr>]"
  by (simp add: lower_def example_const_local_program_def example_const_local_def
      program_shell_def add_function_shell_def visit_FunctionDef_def lower_body_def
      add_implicit_ret_def has_ret_def build_cfg_def block_at_def put_block_def
      store_current_fun_def example_const_local_lowered_def eval_simps Let_def)

end
